(* ===== verification/JsPrelude.thy ===== *)
theory JsPrelude
  imports Complex_Main "HOL-Library.AList"
begin

text \<open>
  Shared vocabulary of the development: the JavaScript values the code computes with
  (numbers with NaN and the infinities, parsed JSON), the string operations of the
  standard library it calls, maps with deletion, and a fold with an error result.
  Strings are lists of characters; the strings the code handles (container ids, service
  names, environment variables, status words) are ASCII, and the case and trimming
  operations below are those of ASCII text.
\<close>

section \<open>Numbers\<close>

text \<open>
  A JavaScript number: NaN, an infinity, or a finite value. A finite value is kept as an
  exact rational. The operations of the code on millisecond clocks, block heights and
  powers of two stay within the integers a double represents exactly, so no rounding is
  modelled; overflow to an infinity is, since the code relies on it.
\<close>

datatype jsnum = NaN | PInf | NInf | Fin rat

definition double_limit :: rat where
  "double_limit = 2 ^ 1024"

definition to_num :: "rat \<Rightarrow> jsnum" where
  "to_num r = (if double_limit \<le> r then PInf else if r \<le> - double_limit then NInf else Fin r)"

fun js_lt :: "jsnum \<Rightarrow> jsnum \<Rightarrow> bool" where
  "js_lt (Fin a) (Fin b) = (a < b)"
| "js_lt (Fin a) PInf = True"
| "js_lt NInf (Fin b) = True"
| "js_lt NInf PInf = True"
| "js_lt _ _ = False"

definition js_gt :: "jsnum \<Rightarrow> jsnum \<Rightarrow> bool" where
  "js_gt a b = js_lt b a"

fun js_le :: "jsnum \<Rightarrow> jsnum \<Rightarrow> bool" where
  "js_le NaN _ = False"
| "js_le _ NaN = False"
| "js_le a b = (js_lt a b \<or> a = b)"

fun js_neg :: "jsnum \<Rightarrow> jsnum" where
  "js_neg (Fin a) = Fin (- a)"
| "js_neg PInf = NInf"
| "js_neg NInf = PInf"
| "js_neg NaN = NaN"

fun js_add :: "jsnum \<Rightarrow> jsnum \<Rightarrow> jsnum" where
  "js_add (Fin a) (Fin b) = to_num (a + b)"
| "js_add NaN _ = NaN"
| "js_add _ NaN = NaN"
| "js_add PInf NInf = NaN"
| "js_add NInf PInf = NaN"
| "js_add PInf _ = PInf"
| "js_add _ PInf = PInf"
| "js_add NInf _ = NInf"
| "js_add _ NInf = NInf"

definition js_sub :: "jsnum \<Rightarrow> jsnum \<Rightarrow> jsnum" where
  "js_sub a b = js_add a (js_neg b)"

fun js_mul :: "jsnum \<Rightarrow> jsnum \<Rightarrow> jsnum" where
  "js_mul (Fin a) (Fin b) = to_num (a * b)"
| "js_mul NaN _ = NaN"
| "js_mul _ NaN = NaN"
| "js_mul (Fin a) PInf = (if a = 0 then NaN else if 0 < a then PInf else NInf)"
| "js_mul (Fin a) NInf = (if a = 0 then NaN else if 0 < a then NInf else PInf)"
| "js_mul PInf (Fin a) = (if a = 0 then NaN else if 0 < a then PInf else NInf)"
| "js_mul NInf (Fin a) = (if a = 0 then NaN else if 0 < a then NInf else PInf)"
| "js_mul PInf PInf = PInf"
| "js_mul NInf NInf = PInf"
| "js_mul PInf NInf = NInf"
| "js_mul NInf PInf = NInf"

text \<open>\<open>Math.pow(2, n)\<close> for a natural exponent, and \<open>Math.min\<close>, which is NaN when either argument is.\<close>

definition js_pow2 :: "nat \<Rightarrow> jsnum" where
  "js_pow2 n = (if 1024 \<le> n then PInf else Fin (2 ^ n))"

fun js_min :: "jsnum \<Rightarrow> jsnum \<Rightarrow> jsnum" where
  "js_min NaN _ = NaN"
| "js_min _ NaN = NaN"
| "js_min a b = (if js_lt b a then b else a)"

fun is_finite :: "jsnum \<Rightarrow> bool" where
  "is_finite (Fin _) = True"
| "is_finite _ = False"

text \<open>The integer a number is, if it is one: \<open>Number.isInteger\<close> and the value.\<close>

definition integer_value :: "jsnum \<Rightarrow> int option" where
  "integer_value n = (case n of Fin r \<Rightarrow> if r = of_int \<lfloor>r\<rfloor> then Some \<lfloor>r\<rfloor> else None | _ \<Rightarrow> None)"

lemma js_lt_irrefl [simp]: "\<not> js_lt a a"
  by (cases a) auto

lemma js_lt_trans: "js_lt a b \<Longrightarrow> js_lt b c \<Longrightarrow> js_lt a c"
  by (cases a; cases b; cases c) auto

lemma js_lt_not_NaN: "js_lt a b \<Longrightarrow> a \<noteq> NaN \<and> b \<noteq> NaN"
  by (cases a; cases b) auto

lemma is_finiteE: "is_finite x \<Longrightarrow> (\<And>r. x = Fin r \<Longrightarrow> P) \<Longrightarrow> P"
  by (cases x) auto

lemma to_num_small: "\<bar>r\<bar> < double_limit \<Longrightarrow> to_num r = Fin r"
  by (auto simp: to_num_def double_limit_def abs_less_iff)

lemma double_limit_pos [simp]: "0 < double_limit"
  by (simp add: double_limit_def)

lemma js_lt_to_num_le:
  assumes "a \<le> b" and "b < double_limit"
  shows "\<not> js_lt (Fin b) (to_num a)"
  using assms by (auto simp: to_num_def)

section \<open>Parsed JSON\<close>

text \<open>
  What \<open>JSON.parse\<close> returns. An object keeps its fields in order; a repeated key cannot
  occur, since \<open>JSON.parse\<close> keeps the last one.
\<close>

datatype json =
    JNull
  | JBool bool
  | JNum jsnum
  | JStr string
  | JArr "json list"
  | JObj "(string \<times> json) list"

text \<open>Property access \<open>v.k\<close> on an object; \<open>None\<close> is \<open>undefined\<close>.\<close>

definition fields :: "json \<Rightarrow> (string \<times> json) list" where
  "fields v = (case v of JObj fs \<Rightarrow> fs | _ \<Rightarrow> [])"

definition field :: "json \<Rightarrow> string \<Rightarrow> json option" where
  "field v k = map_of (fields v) k"

lemma fields_JObj [simp]: "fields (JObj fs) = fs"
  by (simp add: fields_def)

text \<open>\<open>typeof v === 'object' && v !== null\<close>, true of arrays as well.\<close>

fun is_object :: "json \<Rightarrow> bool" where
  "is_object (JArr _) = True"
| "is_object (JObj _) = True"
| "is_object _ = False"

fun truthy :: "json \<Rightarrow> bool" where
  "truthy JNull = False"
| "truthy (JBool b) = b"
| "truthy (JNum n) = (n \<noteq> NaN \<and> n \<noteq> Fin 0)"
| "truthy (JStr s) = (s \<noteq> [])"
| "truthy (JArr _) = True"
| "truthy (JObj _) = True"

definition truthy_opt :: "json option \<Rightarrow> bool" where
  "truthy_opt v = (case v of None \<Rightarrow> False | Some j \<Rightarrow> truthy j)"

lemma truthy_opt_simps [simp]:
  "truthy_opt None = False"
  "truthy_opt (Some j) = truthy j"
  by (simp_all add: truthy_opt_def)

section \<open>Strings\<close>

definition is_ws :: "char \<Rightarrow> bool" where
  "is_ws c = (c = CHR '' '' \<or> c = CHR 0x09 \<or> c = CHR 0x0A \<or> c = CHR 0x0B \<or> c = CHR 0x0C \<or> c = CHR 0x0D)"

definition char_code :: "char \<Rightarrow> nat" where
  "char_code c = of_char c"

definition is_digit :: "char \<Rightarrow> bool" where
  "is_digit c = (48 \<le> char_code c \<and> char_code c \<le> 57)"

definition digit_val :: "char \<Rightarrow> nat" where
  "digit_val c = char_code c - 48"

definition trim_start :: "string \<Rightarrow> string" where
  "trim_start s = dropWhile is_ws s"

definition trim :: "string \<Rightarrow> string" where
  "trim s = rev (dropWhile is_ws (rev (dropWhile is_ws s)))"

text \<open>
  \<open>Number(s)\<close> on a string: surrounding white space is dropped, the empty string is 0,
  then a signed decimal literal or \<open>Infinity\<close>, or an unsigned hexadecimal, octal or
  binary literal; anything else is NaN.
\<close>

definition nat_of_digits :: "nat \<Rightarrow> (char \<Rightarrow> nat) \<Rightarrow> string \<Rightarrow> nat" where
  "nat_of_digits base val ds = foldl (\<lambda>a c. base * a + val c) 0 ds"

definition decimal_nat :: "string \<Rightarrow> nat" where
  "decimal_nat ds = nat_of_digits 10 digit_val ds"

definition scale10 :: "rat \<Rightarrow> int \<Rightarrow> rat" where
  "scale10 m e = (if 0 \<le> e then m * 10 ^ nat e else m / 10 ^ nat (- e))"

definition exponent_part :: "string \<Rightarrow> int option" where
  "exponent_part s = (case s of
     [] \<Rightarrow> Some 0
   | c # r \<Rightarrow>
       if c \<noteq> CHR ''e'' \<and> c \<noteq> CHR ''E'' then None
       else (let neg = (case r of d # _ \<Rightarrow> d = CHR ''-'' | [] \<Rightarrow> False);
                 ds = (case r of d # r' \<Rightarrow> if d = CHR ''-'' \<or> d = CHR ''+'' then r' else r | [] \<Rightarrow> [])
             in if ds = [] \<or> \<not> list_all is_digit ds then None
                else Some (if neg then - int (decimal_nat ds) else int (decimal_nat ds))))"

definition unsigned_decimal :: "string \<Rightarrow> jsnum option" where
  "unsigned_decimal s =
     (if s = ''Infinity'' then Some PInf
      else (let ip = takeWhile is_digit s; r = dropWhile is_digit s;
                dot = (case r of c # _ \<Rightarrow> c = CHR ''.'' | [] \<Rightarrow> False);
                fp = (if dot then takeWhile is_digit (tl r) else []);
                r2 = (if dot then dropWhile is_digit (tl r) else r)
            in if ip = [] \<and> fp = [] then None
               else map_option (\<lambda>e. to_num (scale10 (of_nat (decimal_nat (ip @ fp))) (e - int (length fp))))
                      (exponent_part r2)))"

definition hex_val :: "char \<Rightarrow> nat option" where
  "hex_val c = (let n = char_code c in
     if 48 \<le> n \<and> n \<le> 57 then Some (n - 48)
     else if 97 \<le> n \<and> n \<le> 102 then Some (n - 87)
     else if 65 \<le> n \<and> n \<le> 70 then Some (n - 55) else None)"

definition radix_literal :: "nat \<Rightarrow> string \<Rightarrow> jsnum option" where
  "radix_literal base ds =
     (if ds \<noteq> [] \<and> list_all (\<lambda>c. case hex_val c of None \<Rightarrow> False | Some d \<Rightarrow> d < base) ds
      then Some (to_num (of_nat (nat_of_digits base (\<lambda>c. the (hex_val c)) ds)))
      else None)"

definition the_default_nan :: "jsnum option \<Rightarrow> jsnum" where
  "the_default_nan x = (case x of None \<Rightarrow> NaN | Some n \<Rightarrow> n)"

definition js_Number :: "string \<Rightarrow> jsnum" where
  "js_Number raw = (let s = trim raw in
     if s = [] then Fin 0
     else if take 2 s \<in> {''0x'', ''0X''} then the_default_nan (radix_literal 16 (drop 2 s))
     else if take 2 s \<in> {''0o'', ''0O''} then the_default_nan (radix_literal 8 (drop 2 s))
     else if take 2 s \<in> {''0b'', ''0B''} then the_default_nan (radix_literal 2 (drop 2 s))
     else (case s of c # r \<Rightarrow>
        if c = CHR ''-'' then js_neg (the_default_nan (unsigned_decimal r))
        else if c = CHR ''+'' then the_default_nan (unsigned_decimal r)
        else the_default_nan (unsigned_decimal s)
      | [] \<Rightarrow> Fin 0))"

text \<open>\<open>parseInt(s, 10)\<close>: an optional sign and the longest run of digits; \<open>None\<close> is NaN.\<close>

definition parseInt10 :: "string \<Rightarrow> int option" where
  "parseInt10 raw = (let s = trim_start raw;
       neg = (case s of c # _ \<Rightarrow> c = CHR ''-'' | [] \<Rightarrow> False);
       r = (case s of c # r' \<Rightarrow> if c = CHR ''-'' \<or> c = CHR ''+'' then r' else s | [] \<Rightarrow> []);
       ds = takeWhile is_digit r
     in if ds = [] then None
        else Some (if neg then - int (decimal_nat ds) else int (decimal_nat ds)))"

section \<open>Folds of steps\<close>

text \<open>
  A loop over a list whose body passes a state on: an invariant every body preserves holds
  after the loop. The components interpret this locale on the bodies of their loops.
\<close>

locale step_fold =
  fixes step :: "'e \<Rightarrow> 's \<Rightarrow> 's"
    and item :: "'e \<Rightarrow> bool"
    and inv :: "'s \<Rightarrow> bool"
  assumes step_inv: "item e \<Longrightarrow> inv s \<Longrightarrow> inv (step e s)"
begin

lemma fold_inv: "list_all item es \<Longrightarrow> inv s \<Longrightarrow> inv (fold step es s)"
  by (induction es arbitrary: s) (auto intro: step_inv)

end

end
