(* ===== verification/Autoheal.thy ===== *)
theory Autoheal
  imports JsPrelude
begin

text \<open>
  \<open>xchain-node autoheal\<close> (src/services/autoheal_service.js and
  autoheal_service/restart_state.js): the one-shot watchdog pass that restarts opted-in
  containers that stay unhealthy, with a grace window, an exponential backoff and an
  on-disk state. The state is a record of four maps keyed by container id; a pass is a
  fold of one row step over the registry rows, each step passing the state and the result
  on. What Docker answers (inspect, stop, start) and \<open>Date.parse\<close>, whose value outside
  ISO 8601 is implementation defined, are arguments. Log lines are not modelled.
\<close>

section \<open>Data\<close>

record probe =
  probe_ExitCode :: int
  probe_Start :: string
  probe_End :: string

text \<open>A falsy entry of the log is \<open>None\<close>; a log that is not an array is \<open>None\<close>.\<close>

record health =
  health_Status :: string
  health_Log :: "probe option list option"

record cstatus =
  run_state :: "string option"
  run_health :: "health option"

record ah_row =
  row_module :: string
  row_coin :: "string option"
  row_network :: "string option"
  row_container_id :: "string option"

record entry =
  e_module :: string
  e_coin :: "string option"
  e_network :: "string option"
  e_containerId :: string

datatype skip_reason =
    SkipInspectFailed
  | SkipNotRunning "string option"
  | SkipNoProbeLog
  | SkipInsideGrace
  | SkipInsideCooldown

record ah_state =
  restarts :: "string \<rightharpoonup> json"
  unhealthySince :: "string \<rightharpoonup> json"
  restartCount :: "string \<rightharpoonup> nat"
  stoppedByAutoheal :: "string \<rightharpoonup> json"

record ah_result =
  candidates :: "entry list"
  restarted :: "entry list"
  failed :: "entry list"
  skipped :: "(entry \<times> skip_reason) list"
  escalated :: "(entry \<times> nat) list"

record timing =
  graceMs :: rat
  cooldownMs :: rat
  ceilingMs :: rat
  probationMs :: rat

text \<open>What a restart did: it went through, or it threw, with the container left stopped or not.\<close>

datatype restart_outcome = RestartOk | RestartThrew bool

text \<open>The world of one pass: Docker's answers per container, and the wall-clock time a restart took.\<close>

record ah_env =
  env_inspect :: "string \<Rightarrow> cstatus option"
  env_stop_ok :: "string \<Rightarrow> bool"
  env_start_ok :: "string \<Rightarrow> bool"
  env_elapsed :: "string \<Rightarrow> rat"

record ah_opts =
  opt_dryRun :: bool
  opt_resumeStopped :: bool

type_synonym date_parse = "string \<Rightarrow> rat option"

section \<open>Restart state: timing, state file, probe log\<close>

definition DEFAULT_GRACE_MS :: rat where "DEFAULT_GRACE_MS = 2 * 60 * 1000"
definition DEFAULT_COOLDOWN_MS :: rat where "DEFAULT_COOLDOWN_MS = 10 * 60 * 1000"
definition DEFAULT_COOLDOWN_CEILING_MS :: rat where "DEFAULT_COOLDOWN_CEILING_MS = 6 * 60 * 60 * 1000"
definition DEFAULT_RESTART_PROBATION_MS :: rat where "DEFAULT_RESTART_PROBATION_MS = 150 * 1000"

definition parsePositiveIntEnv :: "string option \<Rightarrow> rat \<Rightarrow> rat" where
  "parsePositiveIntEnv raw fallback = (case raw of
     None \<Rightarrow> fallback
   | Some r \<Rightarrow> if r = [] then fallback
       else (case js_Number r of
          Fin n \<Rightarrow> if n < 0 then fallback else n
        | _ \<Rightarrow> fallback))"

definition autohealTiming :: "(string \<rightharpoonup> string) \<Rightarrow> timing" where
  "autohealTiming env = \<lparr>
     graceMs = parsePositiveIntEnv (env ''XCHAIN_NODE_AUTOHEAL_GRACE_MS'') DEFAULT_GRACE_MS,
     cooldownMs = parsePositiveIntEnv (env ''XCHAIN_NODE_AUTOHEAL_COOLDOWN_MS'') DEFAULT_COOLDOWN_MS,
     ceilingMs = parsePositiveIntEnv (env ''XCHAIN_NODE_AUTOHEAL_COOLDOWN_CEILING_MS'') DEFAULT_COOLDOWN_CEILING_MS,
     probationMs = parsePositiveIntEnv (env ''XCHAIN_NODE_AUTOHEAL_PROBATION_MS'') DEFAULT_RESTART_PROBATION_MS \<rparr>"

definition restartBackoffMs :: "nat \<Rightarrow> rat \<Rightarrow> rat \<Rightarrow> jsnum" where
  "restartBackoffMs attempts cooldown ceil =
     (if \<not> attempts > 1 then Fin cooldown
      else js_min (js_mul (Fin cooldown) (js_pow2 (attempts - 1))) (Fin ceil))"

text \<open>
  The parsed state file: each field is \<open>None\<close> when it is absent, null or not an object.
  Attempt counts are the natural numbers autoheal writes; a file edited by hand to hold
  something else there is outside the model.
\<close>

record parsed_state =
  p_restarts :: "(string \<rightharpoonup> json) option"
  p_unhealthySince :: "(string \<rightharpoonup> json) option"
  p_restartCount :: "(string \<rightharpoonup> nat) option"
  p_stoppedByAutoheal :: "(string \<rightharpoonup> json) option"

definition or_empty :: "('a \<rightharpoonup> 'b) option \<Rightarrow> ('a \<rightharpoonup> 'b)" where
  "or_empty m = (case m of None \<Rightarrow> Map.empty | Some f \<Rightarrow> f)"

text \<open>The argument is \<open>None\<close> when the file is missing or does not parse.\<close>

definition readState :: "parsed_state option \<Rightarrow> ah_state" where
  "readState file = (case file of
     Some p \<Rightarrow> (case p_restarts p of
        Some r \<Rightarrow> \<lparr> restarts = r,
                    unhealthySince = or_empty (p_unhealthySince p),
                    restartCount = or_empty (p_restartCount p),
                    stoppedByAutoheal = or_empty (p_stoppedByAutoheal p) \<rparr>
      | None \<Rightarrow> \<lparr> restarts = Map.empty, unhealthySince = Map.empty,
                  restartCount = Map.empty, stoppedByAutoheal = Map.empty \<rparr>)
   | None \<Rightarrow> \<lparr> restarts = Map.empty, unhealthySince = Map.empty,
               restartCount = Map.empty, stoppedByAutoheal = Map.empty \<rparr>)"

definition writeState :: "ah_state \<Rightarrow> parsed_state" where
  "writeState s = \<lparr> p_restarts = Some (restarts s), p_unhealthySince = Some (unhealthySince s),
     p_restartCount = Some (restartCount s), p_stoppedByAutoheal = Some (stoppedByAutoheal s) \<rparr>"

definition log_of :: "health option \<Rightarrow> probe option list" where
  "log_of h = (case h of None \<Rightarrow> [] | Some hl \<Rightarrow> (case health_Log hl of None \<Rightarrow> [] | Some l \<Rightarrow> l))"

text \<open>The walk from the newest entry to the oldest: the list comes reversed, newest first.\<close>

fun since_walk :: "date_parse \<Rightarrow> probe option list \<Rightarrow> rat option \<Rightarrow> rat option" where
  "since_walk dp [] since = since"
| "since_walk dp (None # es) since = since"
| "since_walk dp (Some p # es) since =
     (if probe_ExitCode p = 0 then since
      else (case dp (probe_Start p) of
          None \<Rightarrow> since
        | Some start \<Rightarrow> since_walk dp es (Some start)))"

definition getUnhealthySinceMs :: "date_parse \<Rightarrow> health \<Rightarrow> rat option" where
  "getUnhealthySinceMs dp h = since_walk dp (rev (log_of (Some h))) None"

fun last_pass_walk :: "date_parse \<Rightarrow> probe option list \<Rightarrow> rat option" where
  "last_pass_walk dp [] = None"
| "last_pass_walk dp (None # es) = last_pass_walk dp es"
| "last_pass_walk dp (Some p # es) =
     (if probe_ExitCode p \<noteq> 0 then last_pass_walk dp es
      else (case dp (probe_Start p) of
          Some t \<Rightarrow> Some t
        | None \<Rightarrow> dp (probe_End p)))"

definition getLastHealthyProbeMs :: "date_parse \<Rightarrow> health option \<Rightarrow> rat option" where
  "getLastHealthyProbeMs dp h = last_pass_walk dp (rev (log_of h))"

definition isRecoveryEstablished :: "rat option \<Rightarrow> json option \<Rightarrow> rat \<Rightarrow> bool" where
  "isRecoveryEstablished lastHealthy lastRestart probation = (case lastHealthy of
     None \<Rightarrow> False
   | Some lh \<Rightarrow> (case lastRestart of
        Some (JNum (Fin lr)) \<Rightarrow> js_lt (js_add (Fin lr) (Fin probation)) (Fin lh)
      | _ \<Rightarrow> True))"

section \<open>One pass\<close>

text \<open>The rows of \<open>SERVICE_HEALTHCHECK\<close> whose descriptor says \<open>autoheal: true\<close>.\<close>

definition autoheal_opted_in :: "string \<Rightarrow> bool" where
  "autoheal_opted_in m = (m \<in> {''xchain-decoder'', ''xchain-indexer''})"

definition autohealCandidate :: "ah_row \<Rightarrow> entry option" where
  "autohealCandidate row = (case row_container_id row of
     None \<Rightarrow> None
   | Some cid \<Rightarrow>
       if cid = [] then None
       else if \<not> autoheal_opted_in (row_module row) then None
       else Some \<lparr> e_module = row_module row, e_coin = row_coin row,
                   e_network = row_network row, e_containerId = cid \<rparr>)"

text \<open>State and result travel together; the flag is \<open>onsetChanged\<close>.\<close>

record ah_acc =
  acc_state :: ah_state
  acc_result :: ah_result
  acc_changed :: bool

abbreviation attempts_of :: "ah_state \<Rightarrow> string \<Rightarrow> nat" where
  "attempts_of s cid \<equiv> (case restartCount s cid of None \<Rightarrow> 0 | Some n \<Rightarrow> n)"

definition inspectCandidate :: "ah_env \<Rightarrow> entry \<Rightarrow> ah_result \<Rightarrow> cstatus option \<times> ah_result" where
  "inspectCandidate env e r = (case env_inspect env (e_containerId e) of
     Some st \<Rightarrow> (Some st, r)
   | None \<Rightarrow> (None, r\<lparr>skipped := skipped r @ [(e, SkipInspectFailed)]\<rparr>))"

text \<open>The optional result is \<open>null\<close> or \<open>{ handled, changed }\<close>.\<close>

definition handleAutohealStopped ::
  "ah_env \<Rightarrow> entry \<Rightarrow> cstatus \<Rightarrow> ah_opts \<Rightarrow> rat \<Rightarrow> ah_state \<Rightarrow> ah_result
     \<Rightarrow> (bool \<times> bool) option \<times> ah_state \<times> ah_result" where
  "handleAutohealStopped env e st opts now s r =
     (let cid = e_containerId e in
      if \<not> truthy_opt (stoppedByAutoheal s cid) then (None, s, r)
      else if run_state st = Some ''running'' then
        (Some (False, True), s\<lparr>stoppedByAutoheal := (stoppedByAutoheal s)(cid := None)\<rparr>, r)
      else (let r1 = r\<lparr>candidates := candidates r @ [e]\<rparr> in
        if \<not> opt_resumeStopped opts then
          (Some (True, False), s, r1\<lparr>escalated := escalated r1 @ [(e, attempts_of s cid)]\<rparr>)
        else if opt_dryRun opts then (Some (True, False), s, r1)
        else if env_start_ok env cid then
          (Some (True, True),
           s\<lparr>stoppedByAutoheal := (stoppedByAutoheal s)(cid := None),
             restarts := (restarts s)(cid \<mapsto> JNum (Fin now)),
             restartCount := (restartCount s)(cid \<mapsto> attempts_of s cid + 1)\<rparr>,
           r1\<lparr>restarted := restarted r1 @ [e]\<rparr>)
        else (Some (True, False), s, r1\<lparr>failed := failed r1 @ [e]\<rparr>)))"

definition skipNonRunning ::
  "entry \<Rightarrow> cstatus \<Rightarrow> ah_state \<Rightarrow> ah_result \<Rightarrow> bool option \<times> ah_state \<times> ah_result" where
  "skipNonRunning e st s r =
     (let cid = e_containerId e in
      if run_state st = Some ''running'' then (None, s, r)
      else (let r1 = r\<lparr>skipped := skipped r @ [(e, SkipNotRunning (run_state st))]\<rparr> in
        if unhealthySince s cid = None then (Some False, s, r1)
        else (Some True, s\<lparr>unhealthySince := (unhealthySince s)(cid := None)\<rparr>, r1)))"

definition skipNonUnhealthy ::
  "entry \<Rightarrow> health option \<Rightarrow> ah_state \<Rightarrow> bool option \<times> ah_state" where
  "skipNonUnhealthy e h s =
     (let cid = e_containerId e; hs = map_option health_Status h in
      if hs = Some ''unhealthy'' then (None, s)
      else (let c1 = (unhealthySince s cid \<noteq> None);
                s1 = (if c1 then s\<lparr>unhealthySince := (unhealthySince s)(cid := None)\<rparr> else s);
                c2 = (hs = Some ''healthy'' \<and> restartCount s1 cid \<noteq> None);
                s2 = (if c2 then s1\<lparr>restartCount := (restartCount s1)(cid := None)\<rparr> else s1)
             in (Some (c1 \<or> c2), s2)))"

record episode =
  ep_since :: rat
  ep_lastHealthy :: "rat option"
  ep_onsetReseeded :: bool

definition seedEpisodeOnset ::
  "date_parse \<Rightarrow> health \<Rightarrow> string \<Rightarrow> rat \<Rightarrow> rat \<Rightarrow> ah_state \<Rightarrow> episode \<times> ah_state" where
  "seedEpisodeOnset dp h cid now derived s =
     (let lastHealthy = getLastHealthyProbeMs dp (Some h);
          keep = (case unhealthySince s cid of
             Some (JNum (Fin since)) \<Rightarrow>
               (case lastHealthy of
                  Some lh \<Rightarrow> if lh > since then None else Some since
                | None \<Rightarrow> Some since)
           | _ \<Rightarrow> None)
      in case keep of
           Some since \<Rightarrow> (\<lparr> ep_since = since, ep_lastHealthy = lastHealthy, ep_onsetReseeded = False \<rparr>, s)
         | None \<Rightarrow> (let since = min now derived in
             (\<lparr> ep_since = since, ep_lastHealthy = lastHealthy, ep_onsetReseeded = True \<rparr>,
              s\<lparr>unhealthySince := (unhealthySince s)(cid \<mapsto> JNum (Fin since))\<rparr>)))"

definition clearRecoveredRestartCount ::
  "string \<Rightarrow> episode \<Rightarrow> rat \<Rightarrow> ah_state \<Rightarrow> bool \<times> ah_state" where
  "clearRecoveredRestartCount cid ep probation s =
     (if \<not> ep_onsetReseeded ep \<or> restartCount s cid = None \<or>
         \<not> isRecoveryEstablished (ep_lastHealthy ep) (restarts s cid) probation
      then (False, s)
      else (True, s\<lparr>restartCount := (restartCount s)(cid := None)\<rparr>))"

definition establishEpisode ::
  "date_parse \<Rightarrow> entry \<Rightarrow> health \<Rightarrow> rat \<Rightarrow> rat \<Rightarrow> ah_state \<Rightarrow> ah_result
     \<Rightarrow> (rat \<times> bool) option \<times> ah_state \<times> ah_result" where
  "establishEpisode dp e h now probation s r =
     (case getUnhealthySinceMs dp h of
        None \<Rightarrow> (None, s, r\<lparr>skipped := skipped r @ [(e, SkipNoProbeLog)]\<rparr>)
      | Some derived \<Rightarrow>
          (let (ep, s1) = seedEpisodeOnset dp h (e_containerId e) now derived s;
               (cleared, s2) = clearRecoveredRestartCount (e_containerId e) ep probation s1
           in (Some (ep_since ep, ep_onsetReseeded ep \<or> cleared), s2, r)))"

text \<open>\<open>restartModuleContainer\<close>: the budgeted stop, then the start. A failed start says the container is down.\<close>

definition restartModuleContainer :: "bool \<Rightarrow> bool \<Rightarrow> restart_outcome" where
  "restartModuleContainer stop_ok start_ok =
     (if \<not> stop_ok then RestartThrew False
      else if \<not> start_ok then RestartThrew True
      else RestartOk)"

text \<open>The returned flag is true when a failed restart left the container stopped.\<close>

definition restartEligibleCandidate ::
  "ah_env \<Rightarrow> entry \<Rightarrow> rat \<Rightarrow> timing \<Rightarrow> bool \<Rightarrow> rat \<Rightarrow> ah_state \<Rightarrow> ah_result
     \<Rightarrow> bool \<times> ah_state \<times> ah_result" where
  "restartEligibleCandidate env e since tm dryRun now s r =
     (let cid = e_containerId e in
      if now - since < graceMs tm then (False, s, r\<lparr>skipped := skipped r @ [(e, SkipInsideGrace)]\<rparr>)
      else (let attempts = attempts_of s cid;
                eff = restartBackoffMs attempts (cooldownMs tm) (ceilingMs tm);
                esc = (2 \<le> attempts);
                r1 = (if esc then r\<lparr>escalated := escalated r @ [(e, attempts)]\<rparr> else r);
                inside = (case restarts s cid of
                            Some (JNum lastRestart) \<Rightarrow> js_lt (js_sub (Fin now) lastRestart) eff
                          | _ \<Rightarrow> False)
            in if inside then (False, s, r1\<lparr>skipped := skipped r1 @ [(e, SkipInsideCooldown)]\<rparr>)
               else (let r2 = r1\<lparr>candidates := candidates r1 @ [e]\<rparr> in
                 if dryRun then (False, s, r2)
                 else (case restartModuleContainer (env_stop_ok env cid) (env_start_ok env cid) of
                     RestartOk \<Rightarrow>
                       (False,
                        s\<lparr>restarts := (restarts s)(cid \<mapsto> JNum (js_add (Fin now) (Fin (max 0 (env_elapsed env cid))))),
                          restartCount := (restartCount s)(cid \<mapsto> attempts + 1)\<rparr>,
                        r2\<lparr>restarted := restarted r2 @ [e]\<rparr>)
                   | RestartThrew stopped \<Rightarrow>
                       (stopped,
                        (if stopped then s\<lparr>stoppedByAutoheal := (stoppedByAutoheal s)(cid \<mapsto> JBool True)\<rparr> else s),
                        r2\<lparr>failed := failed r2 @ [e]\<rparr>)))))"

text \<open>
  The body of the loop over the registry rows, in the order of its \<open>continue\<close>s; each
  part returns the change flag, the state and the result. The last part first: an
  unhealthy, running container.
\<close>

definition heal_unhealthy ::
  "date_parse \<Rightarrow> ah_env \<Rightarrow> timing \<Rightarrow> ah_opts \<Rightarrow> rat \<Rightarrow> entry \<Rightarrow> health \<Rightarrow> ah_state \<Rightarrow> ah_result
     \<Rightarrow> bool \<times> ah_state \<times> ah_result" where
  "heal_unhealthy dp env tm opts now e h s r =
     (case establishEpisode dp e h now (probationMs tm) s r of
        (None, s1, r1) \<Rightarrow> (False, s1, r1)
      | (Some (since, ch), s1, r1) \<Rightarrow>
         (case restartEligibleCandidate env e since tm (opt_dryRun opts) now s1 r1 of
            (left_stopped, s2, r2) \<Rightarrow> (ch \<or> left_stopped, s2, r2)))"

definition heal_guarded ::
  "date_parse \<Rightarrow> ah_env \<Rightarrow> timing \<Rightarrow> ah_opts \<Rightarrow> rat \<Rightarrow> entry \<Rightarrow> cstatus \<Rightarrow> ah_state \<Rightarrow> ah_result
     \<Rightarrow> bool \<times> ah_state \<times> ah_result" where
  "heal_guarded dp env tm opts now e st s r =
     (case skipNonRunning e st s r of
        (Some ch, s1, r1) \<Rightarrow> (ch, s1, r1)
      | (None, s1, r1) \<Rightarrow>
         (case skipNonUnhealthy e (run_health st) s1 of
            (Some ch, s2) \<Rightarrow> (ch, s2, r1)
          | (None, s2) \<Rightarrow>
             (case run_health st of
                None \<Rightarrow> (False, s2, r1)
              | Some h \<Rightarrow> heal_unhealthy dp env tm opts now e h s2 r1)))"

definition heal_inspected ::
  "date_parse \<Rightarrow> ah_env \<Rightarrow> timing \<Rightarrow> ah_opts \<Rightarrow> rat \<Rightarrow> entry \<Rightarrow> cstatus \<Rightarrow> ah_state \<Rightarrow> ah_result
     \<Rightarrow> bool \<times> ah_state \<times> ah_result" where
  "heal_inspected dp env tm opts now e st s r =
     (case handleAutohealStopped env e st opts now s r of
        (None, s1, r1) \<Rightarrow> heal_guarded dp env tm opts now e st s1 r1
      | (Some (handled, ch), s1, r1) \<Rightarrow>
          if handled then (ch, s1, r1)
          else (case heal_guarded dp env tm opts now e st s1 r1 of
                  (ch2, s2, r2) \<Rightarrow> (ch \<or> ch2, s2, r2)))"

definition heal_row :: "date_parse \<Rightarrow> ah_env \<Rightarrow> timing \<Rightarrow> ah_opts \<Rightarrow> rat \<Rightarrow> ah_row \<Rightarrow> ah_acc \<Rightarrow> ah_acc" where
  "heal_row dp env tm opts now row a = (case autohealCandidate row of
     None \<Rightarrow> a
   | Some e \<Rightarrow> (case inspectCandidate env e (acc_result a) of
        (None, r) \<Rightarrow> a\<lparr>acc_result := r\<rparr>
      | (Some st, r) \<Rightarrow>
          (case heal_inspected dp env tm opts now e st (acc_state a) r of
             (ch, s1, r1) \<Rightarrow>
               a\<lparr>acc_state := s1, acc_result := r1, acc_changed := (acc_changed a \<or> ch)\<rparr>)))"

definition persistState :: "ah_state \<Rightarrow> ah_row list \<Rightarrow> ah_state" where
  "persistState s rows =
     (let known = {cid. Some cid \<in> set (map row_container_id rows)} in
      s\<lparr>restarts := restarts s |` known,
        unhealthySince := unhealthySince s |` known,
        restartCount := restartCount s |` known,
        stoppedByAutoheal := stoppedByAutoheal s |` known\<rparr>)"

definition empty_result :: ah_result where
  "empty_result = \<lparr> candidates = [], restarted = [], failed = [], skipped = [], escalated = [] \<rparr>"

definition heal_rows ::
  "date_parse \<Rightarrow> ah_env \<Rightarrow> timing \<Rightarrow> ah_opts \<Rightarrow> rat \<Rightarrow> ah_row list \<Rightarrow> ah_state \<Rightarrow> ah_acc" where
  "heal_rows dp env tm opts now rows s =
     fold (heal_row dp env tm opts now) rows
       \<lparr> acc_state = s, acc_result = empty_result, acc_changed = False \<rparr>"

datatype ah_error = StoreNotReady

text \<open>A pass returns the result and the state written to the file, if it writes one.\<close>

definition runAutoheal ::
  "date_parse \<Rightarrow> ah_env \<Rightarrow> timing \<Rightarrow> ah_opts \<Rightarrow> rat \<Rightarrow> bool \<Rightarrow> ah_row list \<Rightarrow> parsed_state option
     \<Rightarrow> ah_error + ah_result \<times> parsed_state option" where
  "runAutoheal dp env tm opts now db_ready rows file =
     (if \<not> db_ready then Inl StoreNotReady
      else (let a = heal_rows dp env tm opts now rows (readState file);
                r = acc_result a
            in Inr (r, if \<not> opt_dryRun opts \<and> (acc_changed a \<or> restarted r \<noteq> [])
                       then Some (writeState (persistState (acc_state a) rows)) else None)))"

definition autohealExitCode :: "ah_result \<Rightarrow> nat" where
  "autohealExitCode r = (if failed r \<noteq> [] then 1 else if escalated r \<noteq> [] then 2 else 0)"

section \<open>Lemmas on the steps of a pass\<close>

lemmas handler_defs =
  inspectCandidate_def handleAutohealStopped_def skipNonRunning_def skipNonUnhealthy_def
  establishEpisode_def restartEligibleCandidate_def Let_def

lemma inspect_frame:
  "inspectCandidate env e r = (x, r') \<Longrightarrow>
     x = env_inspect env (e_containerId e) \<and> restarted r' = restarted r \<and> failed r' = failed r \<and>
     escalated r' = escalated r \<and> candidates r' = candidates r"
  by (auto simp: inspectCandidate_def split: option.splits)

lemma nonrunning_frame:
  "skipNonRunning e st s r = (x, s', r') \<Longrightarrow>
     restarted r' = restarted r \<and> failed r' = failed r \<and> escalated r' = escalated r \<and>
     candidates r' = candidates r \<and> restarts s' = restarts s \<and>
     restartCount s' = restartCount s \<and> stoppedByAutoheal s' = stoppedByAutoheal s \<and>
     (x = None \<longleftrightarrow> run_state st = Some ''running'') \<and> (x = None \<longrightarrow> s' = s \<and> r' = r)"
  by (auto simp: skipNonRunning_def Let_def split: if_splits)

lemma nonunhealthy_frame:
  "skipNonUnhealthy e h s = (x, s') \<Longrightarrow>
     restarts s' = restarts s \<and> stoppedByAutoheal s' = stoppedByAutoheal s \<and>
     (x = None \<longleftrightarrow> map_option health_Status h = Some ''unhealthy'') \<and> (x = None \<longrightarrow> s' = s) \<and>
     (map_option health_Status h \<noteq> Some ''healthy'' \<longrightarrow> restartCount s' = restartCount s)"
  by (auto simp: skipNonUnhealthy_def Let_def split: if_splits)

lemma seed_frame:
  "seedEpisodeOnset dp h cid now derived s = (ep, s') \<Longrightarrow>
     restarts s' = restarts s \<and> stoppedByAutoheal s' = stoppedByAutoheal s \<and>
     restartCount s' = restartCount s \<and> unhealthySince s' cid = Some (JNum (Fin (ep_since ep))) \<and>
     ep_lastHealthy ep = getLastHealthyProbeMs dp (Some h)"
  by (auto simp: seedEpisodeOnset_def Let_def split: option.splits json.splits jsnum.splits if_splits)

lemma clear_frame:
  "clearRecoveredRestartCount cid ep p s = (x, s') \<Longrightarrow>
     restarts s' = restarts s \<and> stoppedByAutoheal s' = stoppedByAutoheal s \<and>
     unhealthySince s' = unhealthySince s \<and>
     (restartCount s' cid = restartCount s cid \<or>
      ep_onsetReseeded ep \<and> isRecoveryEstablished (ep_lastHealthy ep) (restarts s cid) p \<and> restartCount s' cid = None)"
  by (auto simp: clearRecoveredRestartCount_def split: if_splits)

lemma episode_frame:
  assumes "establishEpisode dp e h now p s r = (x, s', r')"
  shows "restarts s' = restarts s \<and> stoppedByAutoheal s' = stoppedByAutoheal s \<and>
     restarted r' = restarted r \<and> failed r' = failed r \<and> escalated r' = escalated r \<and>
     candidates r' = candidates r \<and> (x = None \<longleftrightarrow> getUnhealthySinceMs dp h = None)"
  using assms
  by (auto simp: establishEpisode_def Let_def split: option.splits prod.splits
      dest!: seed_frame clear_frame)

lemma episode_since:
  assumes "establishEpisode dp e h now p s r = (Some (since, ch), s', r')"
  shows "unhealthySince s' (e_containerId e) = Some (JNum (Fin since))"
  using assms
  by (auto simp: establishEpisode_def Let_def split: option.splits prod.splits
      dest!: seed_frame clear_frame)

text \<open>What a restart on the unhealthy path needs.\<close>

definition cooled_down :: "timing \<Rightarrow> rat \<Rightarrow> ah_state \<Rightarrow> string \<Rightarrow> bool" where
  "cooled_down tm now s cid = (case restarts s cid of
     Some (JNum lr) \<Rightarrow>
       \<not> js_lt (js_sub (Fin now) lr) (restartBackoffMs (attempts_of s cid) (cooldownMs tm) (ceilingMs tm))
   | _ \<Rightarrow> True)"

lemma eligible_restarted:
  assumes "restartEligibleCandidate env e since tm dry now s r = (x, s', r')"
  shows "restarted r' = restarted r \<or>
    (restarted r' = restarted r @ [e] \<and> \<not> dry \<and> graceMs tm \<le> now - since \<and>
     cooled_down tm now s (e_containerId e) \<and>
     env_stop_ok env (e_containerId e) \<and> env_start_ok env (e_containerId e))"
  using assms
  by (auto simp: restartEligibleCandidate_def restartModuleContainer_def cooled_down_def Let_def
      split: if_splits option.splits json.splits restart_outcome.splits)

lemma stopped_restarted:
  assumes "handleAutohealStopped env e st opts now s r = (x, s', r')"
  shows "restarted r' = restarted r \<or>
    (restarted r' = restarted r @ [e] \<and> \<not> opt_dryRun opts \<and> opt_resumeStopped opts \<and>
     run_state st \<noteq> Some ''running'' \<and> truthy_opt (stoppedByAutoheal s (e_containerId e)) \<and>
     env_start_ok env (e_containerId e))"
  using assms
  by (auto simp: handleAutohealStopped_def Let_def split: if_splits)

lemma stopped_not_handled:
  assumes "handleAutohealStopped env e st opts now s r = (x, s', r')"
    and "x = None \<or> x = Some (False, ch)"
  shows "r' = r \<and> restarts s' = restarts s \<and> restartCount s' = restartCount s \<and>
    unhealthySince s' = unhealthySince s \<and>
    (x = None \<longrightarrow> s' = s) \<and> (x \<noteq> None \<longrightarrow> run_state st = Some ''running'')"
  using assms
  by (auto simp: handleAutohealStopped_def Let_def split: if_splits)

lemma episode_attempts:
  assumes "establishEpisode dp e h now p s r = (x, s', r')"
  shows "attempts_of s' (e_containerId e) = attempts_of s (e_containerId e) \<or>
    attempts_of s' (e_containerId e) = 0 \<and>
    isRecoveryEstablished (getLastHealthyProbeMs dp (Some h)) (restarts s (e_containerId e)) p"
  using assms
  by (auto simp: establishEpisode_def Let_def split: option.splits prod.splits
      dest!: clear_frame seed_frame)

text \<open>
  What the code promises of every container it restarts: it was opted in, and either it was
  running, unhealthy, past the grace window and past its backoff, or an earlier autoheal
  restart had left it stopped and the operator asked to resume such containers.
\<close>

definition backoff_passed :: "timing \<Rightarrow> rat \<Rightarrow> ah_state \<Rightarrow> string \<Rightarrow> nat \<Rightarrow> bool" where
  "backoff_passed tm now s cid n = (case restarts s cid of
     Some (JNum lr) \<Rightarrow> \<not> js_lt (js_sub (Fin now) lr) (restartBackoffMs n (cooldownMs tm) (ceilingMs tm))
   | _ \<Rightarrow> True)"

definition wedged_restart ::
  "date_parse \<Rightarrow> timing \<Rightarrow> rat \<Rightarrow> ah_state \<Rightarrow> ah_state \<Rightarrow> entry \<Rightarrow> cstatus \<Rightarrow> bool" where
  "wedged_restart dp tm now s s' e st =
     (run_state st = Some ''running'' \<and>
      (case run_health st of None \<Rightarrow> False | Some h \<Rightarrow>
         health_Status h = ''unhealthy'' \<and> getUnhealthySinceMs dp h \<noteq> None \<and>
         (case unhealthySince s' (e_containerId e) of
            Some (JNum (Fin since)) \<Rightarrow> graceMs tm \<le> now - since | _ \<Rightarrow> False) \<and>
         (backoff_passed tm now s (e_containerId e) (attempts_of s (e_containerId e)) \<or>
          isRecoveryEstablished (getLastHealthyProbeMs dp (Some h)) (restarts s (e_containerId e)) (probationMs tm) \<and>
          backoff_passed tm now s (e_containerId e) 0)))"

definition resumed_restart :: "ah_opts \<Rightarrow> ah_state \<Rightarrow> entry \<Rightarrow> cstatus \<Rightarrow> bool" where
  "resumed_restart opts s e st =
     (opt_resumeStopped opts \<and> run_state st \<noteq> Some ''running'' \<and>
      truthy_opt (stoppedByAutoheal s (e_containerId e)))"

lemma candidate_facts:
  "autohealCandidate row = Some e \<Longrightarrow>
     autoheal_opted_in (e_module e) \<and> e_module e = row_module row \<and>
     row_container_id row = Some (e_containerId e) \<and> e_containerId e \<noteq> []"
  by (auto simp: autohealCandidate_def split: option.splits if_splits)

lemma eligible_since_frame:
  "restartEligibleCandidate env e since tm dry now s r = (x, s', r') \<Longrightarrow> unhealthySince s' = unhealthySince s"
  by (auto simp: restartEligibleCandidate_def Let_def
      split: if_splits option.splits json.splits restart_outcome.splits)

lemma cooled_backoff:
  assumes "cooled_down tm now s' cid" and "restarts s' = restarts s"
    and "attempts_of s' cid = n"
  shows "backoff_passed tm now s cid n"
  using assms by (auto simp: cooled_down_def backoff_passed_def split: option.splits json.splits)

text \<open>The unhealthy path of a row, from the state the first three guards leave.\<close>

lemma unhealthy_path_restarted:
  assumes ep: "establishEpisode dp e h now (probationMs tm) s r = (Some (since, ch), s4, r4)"
    and el: "restartEligibleCandidate env e since tm dry now s4 r4 = (left, s5, r5)"
    and st: "run_state st = Some ''running''" "run_health st = Some h" "health_Status h = ''unhealthy''"
  shows "restarted r5 = restarted r \<or>
    restarted r5 = restarted r @ [e] \<and> \<not> dry \<and> wedged_restart dp tm now s s5 e st"
proof -
  note fr = episode_frame [OF ep] and at = episode_attempts [OF ep]
  have since: "unhealthySince s5 (e_containerId e) = Some (JNum (Fin since))"
    using episode_since [OF ep] eligible_since_frame [OF el] by simp
  from eligible_restarted [OF el] show ?thesis
  proof
    assume "restarted r5 = restarted r4"
    with fr show ?thesis by simp
  next
    assume a: "restarted r5 = restarted r4 @ [e] \<and> \<not> dry \<and> graceMs tm \<le> now - since \<and>
      cooled_down tm now s4 (e_containerId e) \<and>
      env_stop_ok env (e_containerId e) \<and> env_start_ok env (e_containerId e)"
    then have "backoff_passed tm now s (e_containerId e) (attempts_of s4 (e_containerId e))"
      using fr by (intro cooled_backoff [where s' = s4]) auto
    with at have "backoff_passed tm now s (e_containerId e) (attempts_of s (e_containerId e)) \<or>
        isRecoveryEstablished (getLastHealthyProbeMs dp (Some h)) (restarts s (e_containerId e)) (probationMs tm) \<and>
        backoff_passed tm now s (e_containerId e) 0"
      by (elim disjE conjE) (simp_all only: simp_thms)
    then show ?thesis using a st since fr by (simp add: wedged_restart_def)
  qed
qed

text \<open>One row: either nothing is restarted, or exactly its candidate is, for one of the two reasons.\<close>

definition row_restart_ok ::
  "date_parse \<Rightarrow> ah_env \<Rightarrow> timing \<Rightarrow> ah_opts \<Rightarrow> rat \<Rightarrow> ah_row \<Rightarrow> ah_state \<Rightarrow> ah_state \<Rightarrow> entry \<Rightarrow> bool" where
  "row_restart_ok dp env tm opts now row s s' e =
     (autohealCandidate row = Some e \<and> \<not> opt_dryRun opts \<and>
      (case env_inspect env (e_containerId e) of None \<Rightarrow> False | Some st \<Rightarrow>
         wedged_restart dp tm now s s' e st \<or> resumed_restart opts s e st))"

lemma wedged_restart_cong:
  assumes "restarts s1 = restarts s2" and "restartCount s1 = restartCount s2"
  shows "wedged_restart dp tm now s1 s' e st = wedged_restart dp tm now s2 s' e st"
  by (simp only: wedged_restart_def backoff_passed_def assms)

text \<open>The possible restart results of the parts of a row.\<close>

definition restarts_nothing_or ::
  "ah_result \<Rightarrow> ah_result \<Rightarrow> entry \<Rightarrow> bool \<Rightarrow> bool" where
  "restarts_nothing_or r r' e ok =
     (restarted r' = restarted r \<or> restarted r' = restarted r @ [e] \<and> ok)"

lemma heal_unhealthy_restarted:
  assumes st: "run_state st = Some ''running''" "run_health st = Some h" "health_Status h = ''unhealthy''"
    and run: "heal_unhealthy dp env tm opts now e h s r = (ch, s', r')"
  shows "restarts_nothing_or r r' e (\<not> opt_dryRun opts \<and> wedged_restart dp tm now s s' e st)"
proof -
  obtain x s1 r1 where ep: "establishEpisode dp e h now (probationMs tm) s r = (x, s1, r1)"
    by (metis prod_cases3)
  show ?thesis
  proof (cases x)
    case None
    then show ?thesis using run ep episode_frame [OF ep]
      by (simp add: heal_unhealthy_def restarts_nothing_or_def)
  next
    case (Some y)
    then obtain since c where y: "x = Some (since, c)" by (cases y) auto
    obtain left s2 r2 where el:
      "restartEligibleCandidate env e since tm (opt_dryRun opts) now s1 r1 = (left, s2, r2)"
      by (metis prod_cases3)
    have "s' = s2" "r' = r2" using run ep y el by (simp_all add: heal_unhealthy_def)
    with unhealthy_path_restarted [OF ep [unfolded y] el st] show ?thesis
      by (simp add: restarts_nothing_or_def)
  qed
qed

lemma heal_guarded_restarted:
  assumes run: "heal_guarded dp env tm opts now e st s r = (ch, s', r')"
  shows "restarts_nothing_or r r' e (\<not> opt_dryRun opts \<and> wedged_restart dp tm now s s' e st)"
proof -
  obtain x1 s1 r1 where h1: "skipNonRunning e st s r = (x1, s1, r1)" by (metis prod_cases3)
  obtain x2 s2 where h2: "skipNonUnhealthy e (run_health st) s1 = (x2, s2)" by fastforce
  note fr1 = nonrunning_frame [OF h1] and fr2 = nonunhealthy_frame [OF h2]
  show ?thesis
  proof (cases "x1 = None \<and> x2 = None")
    case False
    then show ?thesis using run h1 h2 fr1
      by (auto simp: heal_guarded_def restarts_nothing_or_def split: option.splits)
  next
    case True
    then obtain h where h: "run_health st = Some h" "health_Status h = ''unhealthy''"
      using fr2 by auto
    have same: "r1 = r" "s2 = s" "run_state st = Some ''running''" using True fr1 fr2 by auto
    have "heal_unhealthy dp env tm opts now e h s r = (ch, s', r')"
      using run True h1 h2 h same by (simp add: heal_guarded_def)
    then show ?thesis using heal_unhealthy_restarted [OF same(3) h] by blast
  qed
qed

lemma heal_inspected_restarted:
  assumes run: "heal_inspected dp env tm opts now e st s r = (ch, s', r')"
  shows "restarts_nothing_or r r' e
    (\<not> opt_dryRun opts \<and> (wedged_restart dp tm now s s' e st \<or> resumed_restart opts s e st))"
proof -
  obtain x s1 r1 where h: "handleAutohealStopped env e st opts now s r = (x, s1, r1)"
    by (metis prod_cases3)
  show ?thesis
  proof (cases "\<exists>c. x = Some (True, c)")
    case True
    then show ?thesis using run h stopped_restarted [OF h]
      by (auto simp: heal_inspected_def restarts_nothing_or_def resumed_restart_def)
  next
    case False
    then obtain c where nh: "x = None \<or> x = Some (False, c)" by (cases x) auto
    obtain c2 s2 r2 where g: "heal_guarded dp env tm opts now e st s1 r1 = (c2, s2, r2)"
      by (metis prod_cases3)
    have res: "s' = s2" "r' = r2" using run h g nh by (auto simp: heal_inspected_def)
    have same: "r1 = r" "restarts s1 = restarts s" "restartCount s1 = restartCount s"
      using stopped_not_handled [OF h nh] by simp_all
    show ?thesis using heal_guarded_restarted [OF g] res same wedged_restart_cong [OF same(2,3)]
      by (auto simp: restarts_nothing_or_def)
  qed
qed

lemma heal_row_restarted:
  "restarted (acc_result (heal_row dp env tm opts now row a)) = restarted (acc_result a) \<or>
   (\<exists>e. restarted (acc_result (heal_row dp env tm opts now row a)) = restarted (acc_result a) @ [e] \<and>
        row_restart_ok dp env tm opts now row (acc_state a)
          (acc_state (heal_row dp env tm opts now row a)) e)"
proof (cases "autohealCandidate row")
  case None
  then show ?thesis by (simp add: heal_row_def)
next
  case (Some e)
  obtain x r where ins: "inspectCandidate env e (acc_result a) = (x, r)" by fastforce
  note fr = inspect_frame [OF ins]
  show ?thesis
  proof (cases x)
    case None
    then show ?thesis using Some ins fr by (simp add: heal_row_def)
  next
    case st: (Some st)
    obtain ch s1 r1 where run: "heal_inspected dp env tm opts now e st (acc_state a) r = (ch, s1, r1)"
      by (metis prod_cases3)
    show ?thesis using heal_inspected_restarted [OF run] Some ins st run fr
      by (auto simp: heal_row_def restarts_nothing_or_def row_restart_ok_def)
  qed
qed

section \<open>Whole passes\<close>

text \<open>A row touches the state of its own container only.\<close>

definition agree_at :: "string \<Rightarrow> ah_state \<Rightarrow> ah_state \<Rightarrow> bool" where
  "agree_at cid s s' =
     (restarts s cid = restarts s' cid \<and> unhealthySince s cid = unhealthySince s' cid \<and>
      restartCount s cid = restartCount s' cid \<and> stoppedByAutoheal s cid = stoppedByAutoheal s' cid)"

lemma agree_refl [simp]: "agree_at cid s s"
  by (simp add: agree_at_def)

lemma agree_trans: "agree_at cid s t \<Longrightarrow> agree_at cid t u \<Longrightarrow> agree_at cid s u"
  by (simp add: agree_at_def)

lemma stopped_agree:
  "handleAutohealStopped env e st opts now s r = (x, s', r') \<Longrightarrow> cid \<noteq> e_containerId e \<Longrightarrow> agree_at cid s s'"
  by (auto simp: handleAutohealStopped_def Let_def agree_at_def split: if_splits)

lemma nonrunning_agree:
  "skipNonRunning e st s r = (x, s', r') \<Longrightarrow> cid \<noteq> e_containerId e \<Longrightarrow> agree_at cid s s'"
  by (auto simp: skipNonRunning_def Let_def agree_at_def split: if_splits)

lemma nonunhealthy_agree:
  "skipNonUnhealthy e h s = (x, s') \<Longrightarrow> cid \<noteq> e_containerId e \<Longrightarrow> agree_at cid s s'"
  by (auto simp: skipNonUnhealthy_def Let_def agree_at_def split: if_splits)

lemma seed_agree:
  "seedEpisodeOnset dp h c now derived s = (ep, s') \<Longrightarrow> cid \<noteq> c \<Longrightarrow> agree_at cid s s'"
  by (auto simp: seedEpisodeOnset_def Let_def agree_at_def split: option.splits json.splits jsnum.splits if_splits)

lemma clear_agree:
  "clearRecoveredRestartCount c ep p s = (x, s') \<Longrightarrow> cid \<noteq> c \<Longrightarrow> agree_at cid s s'"
  by (auto simp: clearRecoveredRestartCount_def agree_at_def split: if_splits)

lemma episode_agree:
  "establishEpisode dp e h now p s r = (x, s', r') \<Longrightarrow> cid \<noteq> e_containerId e \<Longrightarrow> agree_at cid s s'"
  by (auto simp: establishEpisode_def Let_def split: option.splits prod.splits
      dest!: seed_agree [where cid = cid] clear_agree [where cid = cid] intro: agree_trans)

lemma eligible_agree:
  "restartEligibleCandidate env e since tm dry now s r = (x, s', r') \<Longrightarrow> cid \<noteq> e_containerId e \<Longrightarrow> agree_at cid s s'"
  by (auto simp: restartEligibleCandidate_def Let_def agree_at_def
      split: if_splits option.splits json.splits restart_outcome.splits)

lemma unhealthy_agree:
  assumes "heal_unhealthy dp env tm opts now e h s r = (ch, s', r')" and "cid \<noteq> e_containerId e"
  shows "agree_at cid s s'"
  using assms
  by (auto simp: heal_unhealthy_def split: option.splits prod.splits
      dest!: episode_agree [where cid = cid] eligible_agree [where cid = cid] intro: agree_trans)

lemma guarded_agree:
  assumes "heal_guarded dp env tm opts now e st s r = (ch, s', r')" and "cid \<noteq> e_containerId e"
  shows "agree_at cid s s'"
  using assms
  by (auto simp: heal_guarded_def split: option.splits prod.splits
      dest!: nonrunning_agree [where cid = cid] nonunhealthy_agree [where cid = cid]
        unhealthy_agree [where cid = cid] intro: agree_trans)

lemma inspected_agree:
  assumes "heal_inspected dp env tm opts now e st s r = (ch, s', r')" and "cid \<noteq> e_containerId e"
  shows "agree_at cid s s'"
  using assms
  by (auto simp: heal_inspected_def split: option.splits prod.splits if_splits
      dest!: stopped_agree [where cid = cid] guarded_agree [where cid = cid] intro: agree_trans)

lemma row_agree:
  assumes "row_container_id row \<noteq> Some cid"
  shows "agree_at cid (acc_state a) (acc_state (heal_row dp env tm opts now row a))"
  using assms
  by (auto simp: heal_row_def split: option.splits prod.splits
      dest!: candidate_facts intro: inspected_agree)

interpretation heal_frame: step_fold "heal_row dp env tm opts now"
    "\<lambda>row. row_container_id row \<noteq> Some cid" "\<lambda>a. agree_at cid s (acc_state a)"
  for dp env tm opts now cid s
  by unfold_locales (blast intro: agree_trans row_agree)

lemma rows_agree:
  assumes "Some cid \<notin> set (map row_container_id rows)"
  shows "agree_at cid (acc_state a) (acc_state (fold (heal_row dp env tm opts now) rows a))"
  using assms by (intro heal_frame.fold_inv) (auto simp: list_all_iff image_iff)

lemma row_restart_ok_agree:
  assumes "agree_at (e_containerId e) s1 s2" and "agree_at (e_containerId e) t1 t2"
  shows "row_restart_ok dp env tm opts now row s1 t1 e = row_restart_ok dp env tm opts now row s2 t2 e"
proof -
  have "wedged_restart dp tm now s1 t1 e st = wedged_restart dp tm now s2 t2 e st" for st
    using assms by (simp only: wedged_restart_def backoff_passed_def agree_at_def)
  moreover have "resumed_restart opts s1 e st = resumed_restart opts s2 e st" for st
    using assms by (simp only: resumed_restart_def agree_at_def)
  ultimately show ?thesis by (simp only: row_restart_ok_def)
qed

lemma rows_restarted:
  assumes "distinct (map row_container_id rows)"
    and "e \<in> set (restarted (acc_result (fold (heal_row dp env tm opts now) rows a)))"
  shows "e \<in> set (restarted (acc_result a)) \<or>
    (\<exists>row \<in> set rows. row_restart_ok dp env tm opts now row (acc_state a)
        (acc_state (fold (heal_row dp env tm opts now) rows a)) e)"
  using assms
proof (induction rows arbitrary: a)
  case Nil
  then show ?case by simp
next
  case (Cons row rows)
  let ?a1 = "heal_row dp env tm opts now row a"
  let ?f = "acc_state (fold (heal_row dp env tm opts now) rows ?a1)"
  from Cons.prems have d: "distinct (map row_container_id rows)"
    "row_container_id row \<notin> set (map row_container_id rows)" by auto
  from Cons.IH [OF d(1), of ?a1] Cons.prems(2) consider
      (old) "e \<in> set (restarted (acc_result ?a1))"
    | (new) row' where "row' \<in> set rows" "row_restart_ok dp env tm opts now row' (acc_state ?a1) ?f e"
    by auto
  then show ?case
  proof cases
    case old
    with heal_row_restarted [of dp env tm opts now row a]
    have "e \<in> set (restarted (acc_result a)) \<or>
        row_restart_ok dp env tm opts now row (acc_state a) (acc_state ?a1) e" by auto
    moreover have "agree_at (e_containerId e) (acc_state ?a1) ?f"
      if "row_restart_ok dp env tm opts now row (acc_state a) (acc_state ?a1) e"
      using that d(2) by (intro rows_agree) (auto simp: row_restart_ok_def dest: candidate_facts)
    ultimately show ?thesis
      using row_restart_ok_agree [OF agree_refl] by auto
  next
    case new
    then have "row_container_id row' = Some (e_containerId e)"
      by (auto simp: row_restart_ok_def dest!: candidate_facts)
    with new(1) d(2) have "row_container_id row \<noteq> Some (e_containerId e)"
      by (metis image_eqI list.set_map)
    then have "agree_at (e_containerId e) (acc_state a) (acc_state ?a1)" by (rule row_agree)
    with new row_restart_ok_agree [OF _ agree_refl] show ?thesis by auto
  qed
qed

lemma run_unfold:
  assumes "runAutoheal dp env tm opts now ready rows file = Inr (r, w)"
  shows "r = acc_result (heal_rows dp env tm opts now rows (readState file))"
    and "w = None \<or> \<not> opt_dryRun opts \<and>
      w = Some (writeState (persistState (acc_state (heal_rows dp env tm opts now rows (readState file))) rows))"
  using assms by (auto simp: runAutoheal_def Let_def split: if_splits)

text \<open>
  C1. Every container a pass restarts was due for it. Over registry rows with distinct
  container ids, judged on the state the file held when the pass began: the container
  belongs to an opted-in service, the pass is not a dry run, and either Docker reports it
  running and unhealthy with failing probes to time the episode by, the recorded onset is
  at least the grace window old, and its last restart is at least the backoff of its
  attempts old (of zero attempts, when a passing probe beyond the probation shows it had
  recovered); or it is stopped, autoheal itself had left it stopped, and the operator
  passed \<open>--resume-stopped\<close>.
\<close>

theorem autoheal_restarts_justified:
  assumes "runAutoheal dp env tm opts now ready rows file = Inr (r, w)"
    and "distinct (map row_container_id rows)"
    and "e \<in> set (restarted r)"
  shows "\<exists>row \<in> set rows. row_restart_ok dp env tm opts now row (readState file)
     (acc_state (heal_rows dp env tm opts now rows (readState file))) e"
  using rows_restarted [OF assms(2)] run_unfold(1) [OF assms(1)] assms(3)
  by (force simp: heal_rows_def empty_result_def)

text \<open>A world for the witnesses: one wedged indexer, unhealthy since the epoch.\<close>

definition demo_dp :: date_parse where
  "demo_dp s = (if s = ''t0'' then Some 0 else if s = ''t9'' then Some 9000000 else None)"

definition demo_health :: health where
  "demo_health = \<lparr> health_Status = ''unhealthy'',
     health_Log = Some [Some \<lparr> probe_ExitCode = 1, probe_Start = ''t0'', probe_End = ''t0'' \<rparr>] \<rparr>"

definition demo_env :: ah_env where
  "demo_env = \<lparr> env_inspect = (\<lambda>_. Some \<lparr> run_state = Some ''running'', run_health = Some demo_health \<rparr>),
     env_stop_ok = (\<lambda>_. True), env_start_ok = (\<lambda>_. True), env_elapsed = (\<lambda>_. 1000) \<rparr>"

definition demo_row :: ah_row where
  "demo_row = \<lparr> row_module = ''xchain-indexer'', row_coin = Some ''bitcoin'',
     row_network = Some ''mainnet'', row_container_id = Some ''c1'' \<rparr>"

definition demo_timing :: timing where
  "demo_timing = \<lparr> graceMs = 120000, cooldownMs = 600000, ceilingMs = 21600000, probationMs = 150000 \<rparr>"

definition demo_opts :: ah_opts where
  "demo_opts = \<lparr> opt_dryRun = False, opt_resumeStopped = False \<rparr>"

definition demo_entry :: entry where
  "demo_entry = \<lparr> e_module = ''xchain-indexer'', e_coin = Some ''bitcoin'',
     e_network = Some ''mainnet'', e_containerId = ''c1'' \<rparr>"

lemmas demo_defs = demo_dp_def demo_health_def demo_env_def demo_row_def demo_timing_def
  demo_opts_def demo_entry_def

lemmas pass_defs = runAutoheal_def heal_rows_def heal_row_def heal_inspected_def heal_guarded_def
  heal_unhealthy_def handler_defs autohealCandidate_def autoheal_opted_in_def readState_def
  seedEpisodeOnset_def clearRecoveredRestartCount_def getUnhealthySinceMs_def
  getLastHealthyProbeMs_def log_of_def restartModuleContainer_def restartBackoffMs_def
  empty_result_def truthy_opt_def

lemma demo_run:
  "\<exists>w. runAutoheal demo_dp demo_env demo_timing demo_opts 200000 True [demo_row] None =
     Inr (empty_result\<lparr>candidates := [demo_entry], restarted := [demo_entry]\<rparr>, w)"
  by (simp add: pass_defs demo_defs)

theorem autoheal_restarts_justified_witness:
  "\<exists>row \<in> set [demo_row]. row_restart_ok demo_dp demo_env demo_timing demo_opts 200000 row (readState None)
     (acc_state (heal_rows demo_dp demo_env demo_timing demo_opts 200000 [demo_row] (readState None))) demo_entry"
proof -
  obtain w where run: "runAutoheal demo_dp demo_env demo_timing demo_opts 200000 True [demo_row] None =
     Inr (empty_result\<lparr>candidates := [demo_entry], restarted := [demo_entry]\<rparr>, w)"
    using demo_run by blast
  show ?thesis by (rule autoheal_restarts_justified [OF run]) simp_all
qed

section \<open>Backoff, liveness, and what a pass leaves alone\<close>

lemma pow2_cases: "js_pow2 n = PInf \<and> double_limit \<le> 2 ^ n \<or> js_pow2 n = Fin (2 ^ n)"
proof (cases "1024 \<le> n")
  case True
  then have "(2::rat) ^ 1024 \<le> 2 ^ n" by (rule power_increasing) simp
  with True show ?thesis by (simp add: js_pow2_def double_limit_def)
next
  case False
  then show ?thesis by (simp add: js_pow2_def)
qed

text \<open>
  The backoff in closed form: with a positive cooldown below the ceiling, the wait
  before a restart after \<open>n\<close> unrecovered restarts is the cooldown doubled \<open>n - 1\<close> times
  and never above the ceiling. The overflow of \<open>Math.pow\<close> to Infinity resolves to the
  ceiling. The doubling starts at the second restart, as the first retry keeps the base wait.
\<close>

lemma restartBackoff_closed_form:
  assumes "1 \<le> c" and "c \<le> ceil" and "ceil < double_limit"
  shows "restartBackoffMs n c ceil = Fin (min (c * 2 ^ (n - 1)) ceil)"
proof (cases "n > 1")
  case False
  then have "n - 1 = 0" by simp
  with False assms show ?thesis by (simp add: restartBackoffMs_def min_def)
next
  case True
  let ?k = "n - 1"
  have le: "(2::rat) ^ ?k \<le> c * 2 ^ ?k" using assms(1) by simp
  from pow2_cases [of ?k] show ?thesis
  proof
    assume a: "js_pow2 ?k = PInf \<and> double_limit \<le> 2 ^ ?k"
    then have "ceil \<le> c * 2 ^ ?k" using le assms(3) by linarith
    then show ?thesis using True a assms(1) by (simp add: restartBackoffMs_def min_def)
  next
    assume a: "js_pow2 ?k = Fin (2 ^ ?k)"
    have "0 \<le> c * 2 ^ ?k" using assms(1) by simp
    then have "\<not> c * 2 ^ ?k \<le> - double_limit" using double_limit_pos by linarith
    then show ?thesis using True a assms
      by (auto simp: restartBackoffMs_def to_num_def min_def)
  qed
qed

text \<open>
  The comment above \<open>restartBackoffMs\<close> says an overflowing product resolves to the ceiling,
  not to NaN. With a configured cooldown of 0 the product is 0 times Infinity, and it is NaN.
\<close>

lemma restartBackoff_zero_cooldown_NaN: "1024 < n \<Longrightarrow> restartBackoffMs n 0 ceil = NaN"
proof -
  assume "1024 < n"
  then have "1024 \<le> n - 1" by simp
  with \<open>1024 < n\<close> show ?thesis by (simp add: restartBackoffMs_def js_pow2_def)
qed

lemma backoff_le_ceiling:
  assumes "1 \<le> c" and "c \<le> ceil" and "ceil < double_limit" and "ceil \<le> d" and "d < double_limit"
  shows "\<not> js_lt (js_sub (Fin (lr + d)) (Fin lr)) (restartBackoffMs n c ceil)"
proof -
  have "0 < ceil" using assms(1,2) by linarith
  then have "js_sub (Fin (lr + d)) (Fin lr) = Fin d"
    using assms(4,5) by (simp add: js_sub_def to_num_def)
  then show ?thesis using restartBackoff_closed_form [OF assms(1-3)] assms(4) by simp
qed

text \<open>
  C2. Liveness: there is no attempt cap. Whatever number of restarts a container has
  already survived without recovering, a pass that finds it running and unhealthy, with
  an onset older than the grace window that no retained passing probe postdates, and its
  last restart at least the ceiling ago, restarts it again (stop and start succeeding),
  adds one to the count and stamps the restart.
\<close>

theorem autoheal_no_attempt_cap:
  assumes cand: "autohealCandidate row = Some e"
    and insp: "env_inspect env (e_containerId e) = Some st"
    and run: "run_state st = Some ''running''"
    and h: "run_health st = Some h" "health_Status h = ''unhealthy''"
    and log: "getUnhealthySinceMs dp h \<noteq> None"
    and onset: "unhealthySince (acc_state a) (e_containerId e) = Some (JNum (Fin since))"
    and norec: "case getLastHealthyProbeMs dp (Some h) of None \<Rightarrow> True | Some lh \<Rightarrow> lh \<le> since"
    and grace: "graceMs tm \<le> now - since"
    and last: "restarts (acc_state a) (e_containerId e) = Some (JNum (Fin (now - d)))"
    and cool: "1 \<le> cooldownMs tm" "cooldownMs tm \<le> ceilingMs tm" "ceilingMs tm < double_limit"
      "ceilingMs tm \<le> d" "d < double_limit"
    and nodry: "\<not> opt_dryRun opts"
    and ok: "env_stop_ok env (e_containerId e)" "env_start_ok env (e_containerId e)"
    and notstopped: "\<not> truthy_opt (stoppedByAutoheal (acc_state a) (e_containerId e))"
  shows "e \<in> set (restarted (acc_result (heal_row dp env tm opts now row a))) \<and>
    restartCount (acc_state (heal_row dp env tm opts now row a)) (e_containerId e) =
      Some (attempts_of (acc_state a) (e_containerId e) + 1) \<and>
    restarts (acc_state (heal_row dp env tm opts now row a)) (e_containerId e) =
      Some (JNum (js_add (Fin now) (Fin (max 0 (env_elapsed env (e_containerId e))))))"
proof -
  let ?s = "acc_state a" and ?cid = "e_containerId e"
  obtain derived where d: "getUnhealthySinceMs dp h = Some derived" using log by blast
  have ep: "establishEpisode dp e h now (probationMs tm) ?s r = (Some (since, False), ?s, r)" for r
    using d onset norec
    by (cases "getLastHealthyProbeMs dp (Some h)")
      (auto simp: establishEpisode_def seedEpisodeOnset_def clearRecoveredRestartCount_def)
  have "\<not> js_lt (js_sub (Fin now) (Fin (now - d)))
      (restartBackoffMs (attempts_of ?s ?cid) (cooldownMs tm) (ceilingMs tm))"
    using backoff_le_ceiling [OF cool, of "now - d"] by simp
  then have el: "\<exists>r'. restartEligibleCandidate env e since tm (opt_dryRun opts) now ?s r =
      (False, ?s\<lparr>restarts := (restarts ?s)(?cid \<mapsto> JNum (js_add (Fin now) (Fin (max 0 (env_elapsed env ?cid))))),
        restartCount := (restartCount ?s)(?cid \<mapsto> attempts_of ?s ?cid + 1)\<rparr>, r') \<and> e \<in> set (restarted r')" for r
    using grace last nodry ok
    by (auto simp: restartEligibleCandidate_def restartModuleContainer_def Let_def)
  have "heal_inspected dp env tm opts now e st ?s r =
     (case restartEligibleCandidate env e since tm (opt_dryRun opts) now ?s r of
        (left_stopped, s2, r2) \<Rightarrow> (left_stopped, s2, r2))" for r
    using notstopped run h ep
    by (simp add: heal_inspected_def handleAutohealStopped_def heal_guarded_def skipNonRunning_def
        skipNonUnhealthy_def heal_unhealthy_def)
  then show ?thesis using cand insp el [of "acc_result a"]
    by (auto simp: heal_row_def inspectCandidate_def)
qed

definition demo_acc :: ah_acc where
  "demo_acc = \<lparr> acc_state = \<lparr> restarts = [''c1'' \<mapsto> JNum (Fin 1000)],
       unhealthySince = [''c1'' \<mapsto> JNum (Fin 500)], restartCount = [''c1'' \<mapsto> 40],
       stoppedByAutoheal = Map.empty \<rparr>,
     acc_result = empty_result, acc_changed = False \<rparr>"

theorem autoheal_no_attempt_cap_witness:
  "restartCount (acc_state (heal_row demo_dp demo_env demo_timing demo_opts 30000000 demo_row demo_acc)) ''c1'' = Some 41"
proof -
  have c: "autohealCandidate demo_row = Some demo_entry"
    by (simp add: demo_defs autohealCandidate_def autoheal_opted_in_def)
  have i: "env_inspect demo_env (e_containerId demo_entry) =
      Some \<lparr> run_state = Some ''running'', run_health = Some demo_health \<rparr>"
    by (simp add: demo_env_def)
  have "restartCount (acc_state (heal_row demo_dp demo_env demo_timing demo_opts 30000000 demo_row demo_acc))
      (e_containerId demo_entry) = Some (attempts_of (acc_state demo_acc) (e_containerId demo_entry) + 1)"
    by (rule autoheal_no_attempt_cap
        [where h = demo_health and since = 500 and d = 29999000, OF c i, THEN conjunct2, THEN conjunct1])
      (simp_all add: demo_defs demo_acc_def getUnhealthySinceMs_def getLastHealthyProbeMs_def log_of_def double_limit_def)
  then show ?thesis by (simp add: demo_entry_def demo_acc_def)
qed

text \<open>
  C3. A stop the operator made is respected, and mid-restart is not recovery. A container
  that is not running, and that autoheal itself did not leave stopped, is never restarted
  or counted as failed; its onset is forgotten, and its attempt count and last restart
  survive. A running container whose probes are not \<open>healthy\<close> (in its start period, say)
  keeps the attempt count it has earned.
\<close>

theorem autoheal_respects_stop_and_start_period:
  assumes cand: "autohealCandidate row = Some e"
    and insp: "env_inspect env (e_containerId e) = Some st"
    and notstopped: "\<not> truthy_opt (stoppedByAutoheal (acc_state a) (e_containerId e))"
    and quiet: "run_state st \<noteq> Some ''running'' \<or>
      map_option health_Status (run_health st) \<noteq> Some ''healthy'' \<and>
      map_option health_Status (run_health st) \<noteq> Some ''unhealthy''"
  shows "let a' = heal_row dp env tm opts now row a; cid = e_containerId e in
    restarted (acc_result a') = restarted (acc_result a) \<and>
    failed (acc_result a') = failed (acc_result a) \<and>
    unhealthySince (acc_state a') cid = None \<and>
    restartCount (acc_state a') cid = restartCount (acc_state a) cid \<and>
    restarts (acc_state a') cid = restarts (acc_state a) cid"
  using assms
  by (auto simp: heal_row_def inspectCandidate_def heal_inspected_def handleAutohealStopped_def
      heal_guarded_def skipNonRunning_def skipNonUnhealthy_def Let_def)

definition demo_starting :: cstatus where
  "demo_starting = \<lparr> run_state = Some ''running'', run_health = Some (demo_health\<lparr>health_Status := ''starting''\<rparr>) \<rparr>"

theorem autoheal_respects_stop_and_start_period_witness:
  "restartCount (acc_state (heal_row demo_dp (demo_env\<lparr>env_inspect := \<lambda>_. Some demo_starting\<rparr>)
      demo_timing demo_opts 30000000 demo_row demo_acc)) ''c1'' = Some 40"
proof -
  have "autohealCandidate demo_row = Some demo_entry"
    by (simp add: demo_defs autohealCandidate_def autoheal_opted_in_def)
  then show ?thesis
    using autoheal_respects_stop_and_start_period
      [of demo_row demo_entry "demo_env\<lparr>env_inspect := \<lambda>_. Some demo_starting\<rparr>" demo_starting demo_acc
        demo_dp demo_timing demo_opts 30000000]
    by (simp add: Let_def demo_starting_def demo_acc_def demo_defs)
qed

section \<open>Timing an episode from the probe log\<close>

text \<open>An entry at which the backward walk stops: null, passing, or with an unreadable start.\<close>

definition ends_run :: "date_parse \<Rightarrow> probe option \<Rightarrow> bool" where
  "ends_run dp e = (case e of None \<Rightarrow> True | Some p \<Rightarrow> probe_ExitCode p = 0 \<or> dp (probe_Start p) = None)"

lemma since_walk_stop: "ends_run dp e \<Longrightarrow> since_walk dp (e # es) s = s"
  by (cases e) (auto simp: ends_run_def split: option.splits)

lemma since_walk_run:
  assumes "\<forall>p \<in> set run. \<not> ends_run dp (Some p)" and "run \<noteq> []"
    and "rest = [] \<or> ends_run dp (hd rest)"
  shows "since_walk dp (map Some run @ rest) s = dp (probe_Start (last run))"
  using assms
proof (induction run arbitrary: s)
  case Nil
  then show ?case by simp
next
  case (Cons p run)
  then obtain t where t: "dp (probe_Start p) = Some t" "probe_ExitCode p \<noteq> 0"
    by (auto simp: ends_run_def)
  show ?case
  proof (cases run)
    case Nil
    have "since_walk dp rest (Some t) = Some t"
      using Cons.prems(3) since_walk_stop by (cases rest) auto
    then show ?thesis using Nil t by simp
  next
    case (Cons q qs)
    then show ?thesis using Cons.IH Cons.prems t by (simp add: local.Cons)
  qed
qed

text \<open>
  The onset derived from the probe log is the start of the oldest probe of the trailing
  run of failures, the run being cut by a passing probe, a null entry or an unreadable
  start time; and no onset is derived exactly when the log is empty or its newest entry
  cuts the run, which is when the pass must not restart.
\<close>

lemma unhealthy_since_trailing_run:
  "(health_Log h = Some (pre @ map Some run) \<and> run \<noteq> [] \<and>
      (\<forall>p \<in> set run. \<not> ends_run dp (Some p)) \<and> (pre = [] \<or> ends_run dp (last pre))
      \<longrightarrow> getUnhealthySinceMs dp h = dp (probe_Start (hd run))) \<and>
   (getUnhealthySinceMs dp h = None \<longleftrightarrow>
      log_of (Some h) = [] \<or> ends_run dp (last (log_of (Some h))))"
proof (intro conjI impI)
  assume a: "health_Log h = Some (pre @ map Some run) \<and> run \<noteq> [] \<and>
      (\<forall>p \<in> set run. \<not> ends_run dp (Some p)) \<and> (pre = [] \<or> ends_run dp (last pre))"
  then have "rev (log_of (Some h)) = map Some (rev run) @ rev pre"
    by (simp add: log_of_def rev_map)
  then have "getUnhealthySinceMs dp h = dp (probe_Start (last (rev run)))"
    using a since_walk_run [of "rev run" dp "rev pre" None]
    by (auto simp: getUnhealthySinceMs_def hd_rev)
  then show "getUnhealthySinceMs dp h = dp (probe_Start (hd run))"
    using a by (simp add: last_rev)
next
  have some: "since_walk dp es (Some t) \<noteq> None" for es t
    by (induction dp es "Some t" arbitrary: t rule: since_walk.induct) (auto split: option.splits)
  show "getUnhealthySinceMs dp h = None \<longleftrightarrow>
      log_of (Some h) = [] \<or> ends_run dp (last (log_of (Some h)))"
  proof (cases "log_of (Some h)" rule: rev_cases)
    case Nil
    then show ?thesis by (simp add: getUnhealthySinceMs_def)
  next
    case (snoc ys e)
    then show ?thesis using some
      by (cases e) (auto simp: getUnhealthySinceMs_def ends_run_def split: option.splits)
  qed
qed

section \<open>What is written to the state file\<close>

lemma readState_writeState [simp]: "readState (Some (writeState s)) = s"
  by (simp add: readState_def writeState_def or_empty_def)

lemma eligible_dry:
  "restartEligibleCandidate env e since tm True now s r = (x, s', r') \<Longrightarrow>
     restarted r' = restarted r \<and> failed r' = failed r"
  by (auto simp: restartEligibleCandidate_def Let_def split: if_splits option.splits json.splits)

lemma unhealthy_dry:
  "heal_unhealthy dp env tm opts now e h s r = (ch, s', r') \<Longrightarrow> opt_dryRun opts \<Longrightarrow>
     restarted r' = restarted r \<and> failed r' = failed r"
  by (auto simp: heal_unhealthy_def split: option.splits prod.splits dest!: episode_frame eligible_dry)

lemma guarded_dry:
  "heal_guarded dp env tm opts now e st s r = (ch, s', r') \<Longrightarrow> opt_dryRun opts \<Longrightarrow>
     restarted r' = restarted r \<and> failed r' = failed r"
  by (auto simp: heal_guarded_def split: option.splits prod.splits dest!: nonrunning_frame unhealthy_dry)

lemma inspected_dry:
  "heal_inspected dp env tm opts now e st s r = (ch, s', r') \<Longrightarrow> opt_dryRun opts \<Longrightarrow>
     restarted r' = restarted r \<and> failed r' = failed r"
  by (auto simp: heal_inspected_def handleAutohealStopped_def Let_def
      split: option.splits prod.splits if_splits dest!: guarded_dry)

lemma row_dry:
  "opt_dryRun opts \<Longrightarrow> restarted (acc_result (heal_row dp env tm opts now row a)) = restarted (acc_result a) \<and>
     failed (acc_result (heal_row dp env tm opts now row a)) = failed (acc_result a)"
  by (auto simp: heal_row_def split: option.splits prod.splits dest!: inspect_frame inspected_dry)

interpretation heal_dry: step_fold "heal_row dp env tm opts now" "\<lambda>_. opt_dryRun opts"
    "\<lambda>a. restarted (acc_result a) = [] \<and> failed (acc_result a) = []"
  for dp env tm opts now
  by unfold_locales (simp add: row_dry)



end
