(* ===== verification/CommandLock.thy ===== *)
theory CommandLock
  imports JsPrelude
begin

text \<open>
  The command lock (src/utils/command_lock.js): a pid file taken by an exclusive create,
  with stale locks removed behind a second exclusive marker file. Every system call of an
  acquiring process is one step of a state machine, so processes interleave at system-call
  granularity. An instance is one acquisition by one process; its number doubles as the
  nonce of its payload, the 16 random bytes of different acquisitions being distinct.
  \<open>publishLockAtomically\<close> is one step, the link that makes the complete payload appear;
  its fallback for file systems without hard links is not modelled, nor are file system
  failures other than \<open>EEXIST\<close> and \<open>ENOENT\<close>. The device and inode pair of a file is one
  number, fresh for every created file.
\<close>

section \<open>Files, processes, program counters\<close>

datatype content = Payload nat nat | Garbage | NoAccess

record lfile =
  f_ino :: nat
  f_content :: content

text \<open>\<open>readLockHolder\<close>: null, the frozen \<open>UNREADABLE_LOCK_HOLDER\<close>, or a pid with its nonce.\<close>

datatype holder = HNone | HUnreadable | HPid nat nat

datatype pc =
    Idle
  | TryLink nat
  | ReadHolder nat
  | StatLock nat holder
  | CheckActive nat holder "nat option"
  | MarkLink nat nat
  | BreakRead nat
  | BreakCheck nat holder
  | BreakUnlink nat
  | InStat nat nat
  | InRead nat nat nat
  | InCheck nat nat nat holder
  | InUnlink nat
  | MarkRelRead nat
  | MarkRelUnlink nat
  | Held
  | RelRead
  | RelUnlink
  | Refused
  | Lost
  | Done

record lstate =
  lock_file :: "lfile option"
  marker_file :: "lfile option"
  next_ino :: nat
  pcs :: "nat \<Rightarrow> pc"
  live :: "nat list"

datatype action = Start nat | Run nat | Wait nat | Finish nat | Die nat

definition MAX_ACQUIRE_ATTEMPTS :: nat where
  "MAX_ACQUIRE_ATTEMPTS = 8"

section \<open>Operations\<close>

text \<open>The pid of an instance is a parameter: pids may be recycled between instances.\<close>

definition isPidAlive :: "(nat \<Rightarrow> nat) \<Rightarrow> nat list \<Rightarrow> nat \<Rightarrow> bool" where
  "isPidAlive pid lv p = (0 < p \<and> p \<in> set (map pid lv))"

fun readLockHolder :: "lfile option \<Rightarrow> holder" where
  "readLockHolder None = HNone"
| "readLockHolder (Some f) = (case f_content f of
     Payload p n \<Rightarrow> HPid p n | Garbage \<Rightarrow> HNone | NoAccess \<Rightarrow> HUnreadable)"

fun isLockHolderActive :: "(nat \<Rightarrow> nat) \<Rightarrow> nat list \<Rightarrow> holder \<Rightarrow> bool" where
  "isLockHolderActive pid lv HUnreadable = True"
| "isLockHolderActive pid lv HNone = False"
| "isLockHolderActive pid lv (HPid p n) = isPidAlive pid lv p"

definition sameFile :: "nat \<Rightarrow> nat \<Rightarrow> bool" where
  "sameFile a b = (a = b)"

text \<open>The create half of \<open>publishLockAtomically\<close>: \<open>None\<close> is \<open>EEXIST\<close>.\<close>

definition publishLockAtomically :: "(nat \<Rightarrow> nat) \<Rightarrow> nat \<Rightarrow> nat \<Rightarrow> lfile option \<Rightarrow> lfile option" where
  "publishLockAtomically pid i fresh path = (case path of
     Some _ \<Rightarrow> None
   | None \<Rightarrow> Some \<lparr> f_ino = fresh, f_content = Payload (pid i) i \<rparr>)"

text \<open>The test of \<open>unlinkIfOwned\<close>: both the pid and the nonce match.\<close>

definition ownedBy :: "(nat \<Rightarrow> nat) \<Rightarrow> nat \<Rightarrow> holder \<Rightarrow> bool" where
  "ownedBy pid i h = (h = HPid (pid i) i)"

text \<open>The head of the bounded retry loop of \<open>tryAcquireOnce\<close>.\<close>

definition next_try :: "nat \<Rightarrow> pc" where
  "next_try k = (if Suc k < MAX_ACQUIRE_ATTEMPTS then TryLink (Suc k) else Lost)"

definition goto :: "nat \<Rightarrow> pc \<Rightarrow> lstate \<Rightarrow> lstate" where
  "goto i p s = s\<lparr>pcs := (pcs s)(i := p)\<rparr>"

text \<open>The steps of \<open>tryAcquireOnce\<close> up to the stale-lock verdict.\<close>

definition acquire_step :: "(nat \<Rightarrow> nat) \<Rightarrow> nat \<Rightarrow> lstate \<Rightarrow> lstate option" where
  "acquire_step pid i s = (case pcs s i of
     TryLink k \<Rightarrow> (case publishLockAtomically pid i (next_ino s) (lock_file s) of
        Some f \<Rightarrow> Some (goto i Held (s\<lparr>lock_file := Some f, next_ino := Suc (next_ino s)\<rparr>))
      | None \<Rightarrow> Some (goto i (ReadHolder k) s))
   | ReadHolder k \<Rightarrow> Some (goto i (StatLock k (readLockHolder (lock_file s))) s)
   | StatLock k h \<Rightarrow> Some (goto i (CheckActive k h (map_option f_ino (lock_file s))) s)
   | CheckActive k h obs \<Rightarrow>
       Some (if isLockHolderActive pid (live s) h then goto i Refused s
             else (case obs of None \<Rightarrow> goto i (next_try k) s | Some x \<Rightarrow> goto i (MarkLink k x) s))
   | _ \<Rightarrow> None)"

text \<open>The steps of \<open>reclaimStaleLock\<close> and \<open>breakAbandonedReclaimMarker\<close>.\<close>

definition reclaim_step :: "(nat \<Rightarrow> nat) \<Rightarrow> nat \<Rightarrow> lstate \<Rightarrow> lstate option" where
  "reclaim_step pid i s = (case pcs s i of
     MarkLink k x \<Rightarrow> (case publishLockAtomically pid i (next_ino s) (marker_file s) of
        Some f \<Rightarrow> Some (goto i (InStat k x) (s\<lparr>marker_file := Some f, next_ino := Suc (next_ino s)\<rparr>))
      | None \<Rightarrow> Some (goto i (BreakRead k) s))
   | BreakRead k \<Rightarrow> Some (goto i (BreakCheck k (readLockHolder (marker_file s))) s)
   | BreakCheck k h \<Rightarrow>
       Some (if isLockHolderActive pid (live s) h then goto i (next_try k) s else goto i (BreakUnlink k) s)
   | BreakUnlink k \<Rightarrow> Some (goto i (next_try k) (s\<lparr>marker_file := None\<rparr>))
   | InStat k x \<Rightarrow> (case lock_file s of
        None \<Rightarrow> Some (goto i (MarkRelRead k) s)
      | Some f \<Rightarrow> Some (goto i (InRead k x (f_ino f)) s))
   | InRead k x cur \<Rightarrow> Some (goto i (InCheck k x cur (readLockHolder (lock_file s))) s)
   | InCheck k x cur h \<Rightarrow>
       Some (if isLockHolderActive pid (live s) h then goto i (MarkRelRead k) s
             else if \<not> sameFile x cur then goto i (MarkRelRead k) s
             else goto i (InUnlink k) s)
   | InUnlink k \<Rightarrow> Some (goto i (MarkRelRead k) (s\<lparr>lock_file := None\<rparr>))
   | MarkRelRead k \<Rightarrow>
       Some (if ownedBy pid i (readLockHolder (marker_file s)) then goto i (MarkRelUnlink k) s
             else goto i (next_try k) s)
   | MarkRelUnlink k \<Rightarrow> Some (goto i (next_try k) (s\<lparr>marker_file := None\<rparr>))
   | _ \<Rightarrow> None)"

text \<open>The steps of \<open>releaseCommandLock\<close>.\<close>

definition release_step :: "(nat \<Rightarrow> nat) \<Rightarrow> nat \<Rightarrow> lstate \<Rightarrow> lstate option" where
  "release_step pid i s = (case pcs s i of
     RelRead \<Rightarrow>
       Some (if ownedBy pid i (readLockHolder (lock_file s)) then goto i RelUnlink s else goto i Done s)
   | RelUnlink \<Rightarrow> Some (goto i Done (s\<lparr>lock_file := None\<rparr>))
   | _ \<Rightarrow> None)"

definition run_step :: "(nat \<Rightarrow> nat) \<Rightarrow> nat \<Rightarrow> lstate \<Rightarrow> lstate option" where
  "run_step pid i s = (case acquire_step pid i s of
     Some t \<Rightarrow> Some t
   | None \<Rightarrow> (case reclaim_step pid i s of Some t \<Rightarrow> Some t | None \<Rightarrow> release_step pid i s))"

text \<open>
  One action of the system: an instance starts (\<open>acquireCommandLock\<close>), makes its next
  system call, retries a live-held lock before its deadline, finishes its command and
  begins to release, or its process exits or is killed, wherever it stands.
\<close>

fun exec_action :: "(nat \<Rightarrow> nat) \<Rightarrow> action \<Rightarrow> lstate \<Rightarrow> lstate option" where
  "exec_action pid (Start i) s =
     (if pcs s i = Idle \<and> i \<notin> set (live s) then Some (goto i (TryLink 0) (s\<lparr>live := i # live s\<rparr>)) else None)"
| "exec_action pid (Run i) s = (if i \<in> set (live s) then run_step pid i s else None)"
| "exec_action pid (Wait i) s =
     (if i \<in> set (live s) \<and> pcs s i = Refused then Some (goto i (TryLink 0) s) else None)"
| "exec_action pid (Finish i) s =
     (if i \<in> set (live s) \<and> pcs s i = Held then Some (goto i RelRead s) else None)"
| "exec_action pid (Die i) s = (if i \<in> set (live s) then Some (s\<lparr>live := removeAll i (live s)\<rparr>) else None)"

fun exec_actions :: "(nat \<Rightarrow> nat) \<Rightarrow> action list \<Rightarrow> lstate \<Rightarrow> lstate option" where
  "exec_actions pid [] s = Some s"
| "exec_actions pid (a # as) s = (case exec_action pid a s of None \<Rightarrow> None | Some t \<Rightarrow> exec_actions pid as t)"

text \<open>Two live instances both inside their command.\<close>

definition holds_lock :: "lstate \<Rightarrow> nat \<Rightarrow> bool" where
  "holds_lock s i = (i \<in> set (live s) \<and> pcs s i = Held)"

section \<open>Calm runs\<close>

text \<open>
  The initial states: no instance has started, the payloads in the lock and marker files
  are those of acquisitions that are over, and inode numbers of existing files are used.
\<close>

definition past_payload :: "(nat \<Rightarrow> nat) \<Rightarrow> lstate \<Rightarrow> lfile option \<Rightarrow> bool" where
  "past_payload pid s f = (case f of None \<Rightarrow> True | Some fl \<Rightarrow>
     f_ino fl < next_ino s \<and>
     (case f_content fl of Payload p n \<Rightarrow> p = pid n \<and> pcs s n = Done \<and> n \<notin> set (live s) | _ \<Rightarrow> True))"

definition lock_init :: "(nat \<Rightarrow> nat) \<Rightarrow> lstate \<Rightarrow> bool" where
  "lock_init pid s =
     ((\<forall>i. 0 < pid i) \<and> (\<forall>i. pcs s i = Idle \<or> pcs s i = Done) \<and>
      past_payload pid s (lock_file s) \<and> past_payload pid s (marker_file s))"

text \<open>The two things a calm run does not do.\<close>

definition breaks_marker :: "action \<Rightarrow> lstate \<Rightarrow> bool" where
  "breaks_marker a s = (case a of
     Run i \<Rightarrow> (case pcs s i of BreakUnlink k \<Rightarrow> True | _ \<Rightarrow> False)
   | _ \<Rightarrow> False)"

definition at_stat :: "pc \<Rightarrow> bool" where
  "at_stat p = (case p of StatLock k h \<Rightarrow> True | _ \<Rightarrow> False)"

definition stat_window_quiet :: "lstate \<Rightarrow> lstate \<Rightarrow> bool" where
  "stat_window_quiet s t = (lock_file t = lock_file s \<or> list_all (\<lambda>j. \<not> at_stat (pcs s j)) (live s))"

inductive calm_reach :: "(nat \<Rightarrow> nat) \<Rightarrow> lstate \<Rightarrow> bool" for pid where
  calm_init: "lock_init pid s \<Longrightarrow> calm_reach pid s"
| calm_step: "calm_reach pid s \<Longrightarrow> exec_action pid a s = Some t \<Longrightarrow> \<not> breaks_marker a s \<Longrightarrow>
    stat_window_quiet s t \<Longrightarrow> calm_reach pid t"

fun calm_exec :: "(nat \<Rightarrow> nat) \<Rightarrow> action list \<Rightarrow> lstate \<Rightarrow> lstate option" where
  "calm_exec pid [] s = Some s"
| "calm_exec pid (a # as) s = (case exec_action pid a s of
     None \<Rightarrow> None
   | Some t \<Rightarrow> if \<not> breaks_marker a s \<and> stat_window_quiet s t then calm_exec pid as t else None)"

lemma calm_exec_reach: "calm_reach pid s \<Longrightarrow> calm_exec pid as s = Some t \<Longrightarrow> calm_reach pid t"
  by (induction as arbitrary: s) (auto split: option.splits if_splits intro: calm_step)

section \<open>The invariant\<close>

definition marker_mine :: "(nat \<Rightarrow> nat) \<Rightarrow> lstate \<Rightarrow> nat \<Rightarrow> bool" where
  "marker_mine pid s i = (\<exists>f. marker_file s = Some f \<and> f_content f = Payload (pid i) i)"

definition lock_mine :: "(nat \<Rightarrow> nat) \<Rightarrow> lstate \<Rightarrow> nat \<Rightarrow> bool" where
  "lock_mine pid s i = (\<exists>f. lock_file s = Some f \<and> f_content f = Payload (pid i) i)"

text \<open>A lock file whose creator has started and is gone: dead for good, whatever its pid says.\<close>

definition stale_file :: "lstate \<Rightarrow> lfile \<Rightarrow> bool" where
  "stale_file s f = (case f_content f of
     Payload p n \<Rightarrow> n \<notin> set (live s) \<and> pcs s n \<noteq> Idle | Garbage \<Rightarrow> True | NoAccess \<Rightarrow> False)"

definition stale_if :: "lstate \<Rightarrow> nat \<Rightarrow> bool" where
  "stale_if s x = (x < next_ino s \<and> (\<forall>f. lock_file s = Some f \<and> f_ino f = x \<longrightarrow> stale_file s f))"

definition stale_now :: "lstate \<Rightarrow> bool" where
  "stale_now s = (\<exists>f. lock_file s = Some f \<and> stale_file s f)"

fun proc_inv :: "(nat \<Rightarrow> nat) \<Rightarrow> lstate \<Rightarrow> nat \<Rightarrow> pc \<Rightarrow> bool" where
  "proc_inv pid s i (StatLock k h) = (i \<in> set (live s) \<longrightarrow> h = readLockHolder (lock_file s))"
| "proc_inv pid s i (CheckActive k h obs) = (case obs of None \<Rightarrow> True | Some x \<Rightarrow>
     x < next_ino s \<and> (\<forall>f. lock_file s = Some f \<and> f_ino f = x \<longrightarrow> readLockHolder (Some f) = h))"
| "proc_inv pid s i (MarkLink k x) = stale_if s x"
| "proc_inv pid s i (InStat k x) = (marker_mine pid s i \<and> stale_if s x)"
| "proc_inv pid s i (InRead k x c) = (marker_mine pid s i \<and> (c = x \<longrightarrow> stale_now s))"
| "proc_inv pid s i (InCheck k x c h) = (marker_mine pid s i \<and> (c = x \<longrightarrow> stale_now s))"
| "proc_inv pid s i (InUnlink k) = (marker_mine pid s i \<and> stale_now s)"
| "proc_inv pid s i (MarkRelRead k) = marker_mine pid s i"
| "proc_inv pid s i (MarkRelUnlink k) = marker_mine pid s i"
| "proc_inv pid s i Held = (i \<in> set (live s) \<longrightarrow> lock_mine pid s i)"
| "proc_inv pid s i RelRead = (i \<in> set (live s) \<longrightarrow> lock_mine pid s i)"
| "proc_inv pid s i RelUnlink = (i \<in> set (live s) \<longrightarrow> lock_mine pid s i)"
| "proc_inv pid s i _ = True"

definition glob_inv :: "(nat \<Rightarrow> nat) \<Rightarrow> lstate \<Rightarrow> bool" where
  "glob_inv pid s = ((\<forall>i. 0 < pid i) \<and>
     (\<forall>f. lock_file s = Some f \<longrightarrow> f_ino f < next_ino s \<and>
        (\<forall>p n. f_content f = Payload p n \<longrightarrow> p = pid n \<and> pcs s n \<noteq> Idle)))"

definition lock_inv :: "(nat \<Rightarrow> nat) \<Rightarrow> lstate \<Rightarrow> bool" where
  "lock_inv pid s = (glob_inv pid s \<and> (\<forall>i. proc_inv pid s i (pcs s i)))"

lemma lock_inv_init:
  assumes "lock_init pid s"
  shows "lock_inv pid s"
proof -
  have "proc_inv pid s i (pcs s i)" for i
    using assms by (cases "pcs s i = Idle") (auto simp: lock_init_def)
  moreover have "glob_inv pid s"
    using assms by (auto simp: lock_init_def glob_inv_def past_payload_def)
  ultimately show ?thesis by (simp add: lock_inv_def)
qed

text \<open>
  What a step of another instance leaves true. First when it touches no file: payload owners
  stay started, and nobody that has started comes back to life.
\<close>

definition grows :: "lstate \<Rightarrow> lstate \<Rightarrow> bool" where
  "grows s t = (next_ino s \<le> next_ino t \<and>
     (\<forall>n. pcs s n \<noteq> Idle \<longrightarrow> pcs t n \<noteq> Idle \<and> (n \<in> set (live t) \<longrightarrow> n \<in> set (live s))))"

lemma stale_file_grows: "grows s t \<Longrightarrow> stale_file s f \<Longrightarrow> stale_file t f"
  by (auto simp: grows_def stale_file_def split: content.splits)

lemma stale_if_grows: "grows s t \<Longrightarrow> lock_file t = lock_file s \<Longrightarrow> stale_if s x \<Longrightarrow> stale_if t x"
  by (auto simp: stale_if_def dest: stale_file_grows) (simp add: grows_def)

lemma stale_now_grows: "grows s t \<Longrightarrow> lock_file t = lock_file s \<Longrightarrow> stale_now s \<Longrightarrow> stale_now t"
  by (auto simp: stale_now_def dest: stale_file_grows)

lemmas grow_rules = stale_if_grows stale_now_grows

lemma frame_same_files:
  assumes "grows s t" and "lock_file t = lock_file s" and "marker_file t = marker_file s"
    and "pcs s j \<noteq> Idle" and "proc_inv pid s j (pcs s j)"
  shows "proc_inv pid t j (pcs s j)"
proof -
  have m: "marker_mine pid t j = marker_mine pid s j" and l: "lock_mine pid t j = lock_mine pid s j"
    and lv: "j \<in> set (live t) \<Longrightarrow> j \<in> set (live s)" and nx: "next_ino s \<le> next_ino t"
    using assms by (auto simp: marker_mine_def lock_mine_def grows_def)
  show ?thesis
  proof (cases "pcs s j")
    case (CheckActive k h obs)
    then show ?thesis using assms nx by (auto split: option.splits)
  qed (use assms m l lv grow_rules [OF assms(1,2)] in auto)
qed

text \<open>A lock file appears where there was none, outside every stat window.\<close>

lemma frame_lock_created:
  assumes "grows s t" and "lock_file s = None" and "lock_file t = Some f" and "f_ino f = next_ino s"
    and "marker_file t = marker_file s"
    and "list_all (\<lambda>j. \<not> at_stat (pcs s j)) (live s)"
    and "pcs s j \<noteq> Idle" and "proc_inv pid s j (pcs s j)"
  shows "proc_inv pid t j (pcs s j)"
proof -
  have m: "marker_mine pid t j = marker_mine pid s j" and no: "\<not> lock_mine pid s j" "\<not> stale_now s"
    and lv: "j \<in> set (live t) \<Longrightarrow> j \<in> set (live s)" and nx: "next_ino s \<le> next_ino t"
    using assms by (auto simp: marker_mine_def lock_mine_def stale_now_def grows_def)
  have st: "stale_if t x" if "stale_if s x" for x
    using that assms(3,4) nx by (auto simp: stale_if_def)
  show ?thesis
  proof (cases "pcs s j")
    case (StatLock k h)
    then have "at_stat (pcs s j)" by (simp add: at_stat_def)
    then have "j \<notin> set (live s)" using assms(6) by (auto simp: list_all_iff)
    then show ?thesis using StatLock lv by auto
  next
    case (CheckActive k h obs)
    then show ?thesis using assms nx by (auto split: option.splits)
  qed (use assms(8) m no lv st in auto)
qed

text \<open>The lock file goes away, and it was no live instance's own and nobody else's to remove.\<close>

lemma frame_lock_removed:
  assumes "grows s t" and "lock_file t = None" and "marker_file t = marker_file s"
    and "list_all (\<lambda>j. \<not> at_stat (pcs s j)) (live s)"
    and "pcs s j \<noteq> Idle" and "proc_inv pid s j (pcs s j)"
    and nolock: "j \<in> set (live s) \<Longrightarrow> \<not> lock_mine pid s j"
    and nomark: "\<not> (marker_mine pid s j \<and> stale_now s)"
  shows "proc_inv pid t j (pcs s j)"
proof -
  have m: "marker_mine pid t j = marker_mine pid s j"
    and lv: "j \<in> set (live t) \<Longrightarrow> j \<in> set (live s)" and nx: "next_ino s \<le> next_ino t"
    using assms by (auto simp: marker_mine_def grows_def)
  have st: "stale_if t x" if "stale_if s x" for x
    using that assms(2) nx by (auto simp: stale_if_def)
  show ?thesis
  proof (cases "pcs s j")
    case (StatLock k h)
    then have "at_stat (pcs s j)" by (simp add: at_stat_def)
    then have "j \<notin> set (live s)" using assms(4) by (auto simp: list_all_iff)
    then show ?thesis using StatLock lv by auto
  next
    case (CheckActive k h obs)
    then show ?thesis using assms nx by (auto split: option.splits)
  qed (use assms(6) m nolock nomark lv st in auto)
qed

text \<open>The marker file changes, and the other instance does not own it.\<close>

lemma frame_marker_changed:
  assumes "grows s t" and "lock_file t = lock_file s"
    and "\<not> marker_mine pid s j"
    and "pcs s j \<noteq> Idle" and "proc_inv pid s j (pcs s j)"
  shows "proc_inv pid t j (pcs s j)"
proof -
  have l: "lock_mine pid t j = lock_mine pid s j"
    and lv: "j \<in> set (live t) \<Longrightarrow> j \<in> set (live s)" and nx: "next_ino s \<le> next_ino t"
    using assms by (auto simp: lock_mine_def grows_def)
  show ?thesis
  proof (cases "pcs s j")
    case (CheckActive k h obs)
    then show ?thesis using assms nx by (auto split: option.splits)
  qed (use assms(2,3,5) l lv grow_rules [OF assms(1,2)] in auto)
qed

text \<open>One instance moves: the others by a frame lemma, its own new counter by hand.\<close>

lemma inv_move:
  assumes "lock_inv pid s" and "glob_inv pid t" and "pcs t = (pcs s)(i := p)"
    and "proc_inv pid t i p"
    and "\<And>j. j \<noteq> i \<Longrightarrow> pcs s j \<noteq> Idle \<Longrightarrow> proc_inv pid s j (pcs s j) \<Longrightarrow> proc_inv pid t j (pcs s j)"
  shows "lock_inv pid t"
proof -
  have "proc_inv pid t j (pcs t j)" for j
  proof (cases "j = i")
    case True
    then show ?thesis using assms(3,4) by simp
  next
    case False
    then show ?thesis
      using assms(1,3) assms(5) [OF False] by (cases "pcs s j = Idle") (auto simp: lock_inv_def)
  qed
  then show ?thesis using assms(2) by (simp add: lock_inv_def)
qed

lemma goto_simps [simp]:
  "lock_file (goto i p s) = lock_file s" "marker_file (goto i p s) = marker_file s"
  "next_ino (goto i p s) = next_ino s" "live (goto i p s) = live s"
  "pcs (goto i p s) = (pcs s)(i := p)"
  by (simp_all add: goto_def)

lemma inv_goto:
  assumes "lock_inv pid s" and "p \<noteq> Idle" and "proc_inv pid (goto i p s) i p"
  shows "lock_inv pid (goto i p s)"
proof (rule inv_move [OF assms(1), where i = i and p = p])
  show "glob_inv pid (goto i p s)"
    using assms(1,2) by (auto simp: lock_inv_def glob_inv_def)
  show "proc_inv pid (goto i p s) j (pcs s j)"
    if "j \<noteq> i" "pcs s j \<noteq> Idle" "proc_inv pid s j (pcs s j)" for j
    by (rule frame_same_files [where s = s]) (use that assms(2) in \<open>auto simp: grows_def\<close>)
qed (use assms in auto)

lemma next_try_ok [simp]: "next_try k \<noteq> Idle" "proc_inv pid s i (next_try k)"
  by (simp_all add: next_try_def)

lemma stale_file_goto [simp]:
  "p \<noteq> Idle \<Longrightarrow> stale_file s f \<Longrightarrow> stale_file (goto i p s) f"
  by (auto simp: stale_file_def split: content.splits)

lemma mine_goto [simp]:
  "marker_mine pid (goto i p s) j = marker_mine pid s j" "lock_mine pid (goto i p s) j = lock_mine pid s j"
  by (simp_all add: marker_mine_def lock_mine_def)

text \<open>The stale verdict: an inactive holder read from a file means that file is dead for good.\<close>

lemma inactive_stale:
  assumes "glob_inv pid s" and "lock_file s = Some f"
    and "\<not> isLockHolderActive pid (live s) (readLockHolder (Some f))"
  shows "stale_file s f"
  using assms by (auto simp: stale_file_def glob_inv_def isPidAlive_def split: content.splits)

lemma acquire_step_inv:
  assumes inv: "lock_inv pid s" and run: "acquire_step pid i s = Some t"
    and alive: "i \<in> set (live s)" and quiet: "stat_window_quiet s t"
  shows "lock_inv pid t"
proof -
  have g: "glob_inv pid s" and pi: "proc_inv pid s i (pcs s i)" using inv by (auto simp: lock_inv_def)
  show ?thesis
  proof (cases "pcs s i")
    case (TryLink k)
    show ?thesis
    proof (cases "lock_file s")
      case (Some f)
      then have "t = goto i (ReadHolder k) s"
        using run TryLink by (simp add: acquire_step_def publishLockAtomically_def)
      then show ?thesis using inv_goto [OF inv] by simp
    next
      case None
      let ?f = "\<lparr> f_ino = next_ino s, f_content = Payload (pid i) i \<rparr>"
      have t: "t = goto i Held (s\<lparr>lock_file := Some ?f, next_ino := Suc (next_ino s)\<rparr>)"
        using run TryLink None by (simp add: acquire_step_def publishLockAtomically_def)
      have calm: "list_all (\<lambda>j. \<not> at_stat (pcs s j)) (live s)"
        using quiet None t by (simp add: stat_window_quiet_def)
      show ?thesis
      proof (rule inv_move [OF inv, where i = i and p = Held])
        show "glob_inv pid t" using g t by (auto simp: glob_inv_def)
        show "proc_inv pid t i Held" using t by (simp add: lock_mine_def)
        show "proc_inv pid t j (pcs s j)"
          if "j \<noteq> i" "pcs s j \<noteq> Idle" "proc_inv pid s j (pcs s j)" for j
          by (rule frame_lock_created [where s = s and f = ?f])
            (use that t None calm in \<open>auto simp: grows_def\<close>)
      qed (use t in simp)
    qed
  next
    case (ReadHolder k)
    then have "t = goto i (StatLock k (readLockHolder (lock_file s))) s" using run by (simp add: acquire_step_def)
    then show ?thesis using inv_goto [OF inv] by simp
  next
    case (StatLock k h)
    then have t: "t = goto i (CheckActive k h (map_option f_ino (lock_file s))) s"
      using run by (simp add: acquire_step_def)
    have "h = readLockHolder (lock_file s)" using pi StatLock alive by simp
    then have "proc_inv pid t i (CheckActive k h (map_option f_ino (lock_file s)))"
      using g t by (auto simp: glob_inv_def split: option.splits)
    then show ?thesis using inv_goto [OF inv] t by simp
  next
    case (CheckActive k h obs)
    show ?thesis
    proof (cases "isLockHolderActive pid (live s) h \<or> obs = None")
      case True
      then have "t = goto i Refused s \<or> t = goto i (next_try k) s"
        using run CheckActive by (auto simp: acquire_step_def split: if_splits)
      then show ?thesis using inv_goto [OF inv] by auto
    next
      case False
      then obtain x where obs: "obs = Some x" by auto
      then have t: "t = goto i (MarkLink k x) s"
        using run CheckActive False by (simp add: acquire_step_def)
      have "stale_file s f" if "lock_file s = Some f" "f_ino f = x" for f
        using inactive_stale [OF g that(1)] pi CheckActive obs False that by auto
      then have "stale_if t x" using pi CheckActive obs t by (auto simp: stale_if_def)
      then show ?thesis using inv_goto [OF inv] t by simp
    qed
  qed (use run in \<open>simp_all add: acquire_step_def\<close>)
qed

lemma marker_unique: "marker_mine pid s i \<Longrightarrow> marker_mine pid s j \<Longrightarrow> i = j"
  by (auto simp: marker_mine_def)

text \<open>Moves that change the marker, seen from the other instances.\<close>

lemma inv_marker_move:
  assumes "lock_inv pid s" and "t = goto i p (s\<lparr>marker_file := m, next_ino := n\<rparr>)" and "next_ino s \<le> n"
    and "p \<noteq> Idle" and "proc_inv pid t i p"
    and "\<And>j. j \<noteq> i \<Longrightarrow> \<not> marker_mine pid s j"
  shows "lock_inv pid t"
proof (rule inv_move [OF assms(1), where i = i and p = p])
  show "glob_inv pid t"
    using assms(1-4) by (fastforce simp: lock_inv_def glob_inv_def)
  show "proc_inv pid t j (pcs s j)"
    if "j \<noteq> i" "pcs s j \<noteq> Idle" "proc_inv pid s j (pcs s j)" for j
    by (rule frame_marker_changed [where s = s])
      (use that assms(2,3,4) assms(6) [OF that(1)] in \<open>auto simp: grows_def\<close>)
qed (use assms in auto)

lemma inv_lock_removed:
  assumes "lock_inv pid s" and t: "t = goto i p (s\<lparr>lock_file := None\<rparr>)" and "lock_file s \<noteq> None"
    and "p \<noteq> Idle" and "proc_inv pid t i p" and quiet: "stat_window_quiet s t"
    and "\<And>j. j \<noteq> i \<Longrightarrow> j \<in> set (live s) \<Longrightarrow> \<not> lock_mine pid s j"
    and "\<And>j. j \<noteq> i \<Longrightarrow> \<not> (marker_mine pid s j \<and> stale_now s)"
  shows "lock_inv pid t"
proof (rule inv_move [OF assms(1), where i = i and p = p])
  have calm: "list_all (\<lambda>j. \<not> at_stat (pcs s j)) (live s)"
    using quiet t assms(3) by (auto simp: stat_window_quiet_def)
  show "glob_inv pid t"
    using assms(1) t by (auto simp: lock_inv_def glob_inv_def)
  show "proc_inv pid t j (pcs s j)"
    if "j \<noteq> i" "pcs s j \<noteq> Idle" "proc_inv pid s j (pcs s j)" for j
    by (rule frame_lock_removed [where s = s])
      (use that t assms(4) calm assms(7,8) [OF that(1)] in \<open>auto simp: grows_def\<close>)
qed (use assms in auto)

lemma stale_now_goto [simp]: "p \<noteq> Idle \<Longrightarrow> stale_now s \<Longrightarrow> stale_now (goto i p s)"
  by (auto simp: stale_now_def)

lemma read_mine: "marker_mine pid s i \<Longrightarrow> readLockHolder (marker_file s) = HPid (pid i) i"
  by (auto simp: marker_mine_def)

lemma stale_not_mine: "stale_now s \<Longrightarrow> j \<in> set (live s) \<Longrightarrow> \<not> lock_mine pid s j"
  by (auto simp: stale_now_def stale_file_def lock_mine_def)

lemma reclaim_step_inv:
  assumes inv: "lock_inv pid s" and run: "reclaim_step pid i s = Some t"
    and alive: "i \<in> set (live s)" and quiet: "stat_window_quiet s t"
    and nobreak: "\<not> breaks_marker (Run i) s"
  shows "lock_inv pid t"
proof -
  have pi: "proc_inv pid s i (pcs s i)" using inv by (auto simp: lock_inv_def)
  note go = inv_goto [OF inv]
  show ?thesis
  proof (cases "pcs s i")
    case (MarkLink k x)
    show ?thesis
    proof (cases "marker_file s")
      case (Some f)
      then have "t = goto i (BreakRead k) s"
        using run MarkLink by (simp add: reclaim_step_def publishLockAtomically_def)
      then show ?thesis using go by simp
    next
      case None
      let ?m = "Some \<lparr> f_ino = next_ino s, f_content = Payload (pid i) i \<rparr>"
      have t: "t = goto i (InStat k x) (s\<lparr>marker_file := ?m, next_ino := Suc (next_ino s)\<rparr>)"
        using run MarkLink None by (simp add: reclaim_step_def publishLockAtomically_def)
      have "stale_if t x"
        using pi MarkLink t by (auto simp: stale_if_def stale_file_def split: content.splits)
      then show ?thesis
        using None t by (intro inv_marker_move [OF inv t]) (auto simp: marker_mine_def)
    qed
  next
    case (BreakCheck k h)
    then show ?thesis using run go by (auto simp: reclaim_step_def split: if_splits)
  next
    case (BreakUnlink k)
    then show ?thesis using nobreak by (simp add: breaks_marker_def)
  next
    case (InStat k x)
    then have m: "marker_mine pid s i" and st: "stale_if s x" using pi by auto
    show ?thesis
    proof (cases "lock_file s")
      case None
      then have "t = goto i (MarkRelRead k) s" using run InStat by (simp add: reclaim_step_def)
      then show ?thesis using go m by simp
    next
      case (Some f)
      then have t: "t = goto i (InRead k x (f_ino f)) s" using run InStat by (simp add: reclaim_step_def)
      have "stale_now s" if "f_ino f = x" using st Some that by (auto simp: stale_if_def stale_now_def)
      then show ?thesis using go m t by simp
    qed
  next
    case (InRead k x c)
    then have "t = goto i (InCheck k x c (readLockHolder (lock_file s))) s" using run by (simp add: reclaim_step_def)
    then show ?thesis using go pi InRead by simp
  next
    case (InCheck k x c h)
    then have "t = goto i (MarkRelRead k) s \<or> t = goto i (InUnlink k) s \<and> c = x"
      using run by (auto simp: reclaim_step_def sameFile_def split: if_splits)
    then show ?thesis using go pi InCheck by auto
  next
    case (InUnlink k)
    then have t: "t = goto i (MarkRelRead k) (s\<lparr>lock_file := None\<rparr>)" using run by (simp add: reclaim_step_def)
    have m: "marker_mine pid s i" and st: "stale_now s" using pi InUnlink by auto
    show ?thesis
    proof (rule inv_lock_removed [OF inv t])
      show "proc_inv pid t i (MarkRelRead k)" using m t by (simp add: marker_mine_def)
      show "\<not> (marker_mine pid s j \<and> stale_now s)" if "j \<noteq> i" for j
        using marker_unique [OF m] that by auto
    qed (use st quiet stale_not_mine in \<open>auto simp: stale_now_def\<close>)
  next
    case (MarkRelRead k)
    then show ?thesis using run go pi by (auto simp: reclaim_step_def split: if_splits)
  next
    case (MarkRelUnlink k)
    then have t: "t = goto i (next_try k) (s\<lparr>marker_file := None, next_ino := next_ino s\<rparr>)"
      using run by (simp add: reclaim_step_def)
    have "marker_mine pid s i" using pi MarkRelUnlink by simp
    then show ?thesis by (intro inv_marker_move [OF inv t]) (auto dest: marker_unique)
  qed (use run go in \<open>auto simp: reclaim_step_def\<close>)
qed

lemma release_step_inv:
  assumes inv: "lock_inv pid s" and run: "release_step pid i s = Some t"
    and alive: "i \<in> set (live s)" and quiet: "stat_window_quiet s t"
  shows "lock_inv pid t"
proof -
  have pi: "proc_inv pid s i (pcs s i)" using inv by (auto simp: lock_inv_def)
  note go = inv_goto [OF inv]
  show ?thesis
  proof (cases "pcs s i")
    case RelRead
    then show ?thesis using run go pi by (auto simp: release_step_def split: if_splits)
  next
    case RelUnlink
    then have t: "t = goto i Done (s\<lparr>lock_file := None\<rparr>)" using run by (simp add: release_step_def)
    have mine: "lock_mine pid s i" using pi RelUnlink alive by simp
    show ?thesis
    proof (rule inv_lock_removed [OF inv t])
      show "\<not> (marker_mine pid s j \<and> stale_now s)" for j
        using stale_not_mine [OF _ alive] mine by blast
      show "\<not> lock_mine pid s j" if "j \<noteq> i" for j
        using mine that by (auto simp: lock_mine_def)
    qed (use mine quiet in \<open>auto simp: lock_mine_def\<close>)
  qed (use run in \<open>auto simp: release_step_def\<close>)
qed

text \<open>Starting and dying only change who is alive.\<close>

lemma inv_start:
  assumes inv: "lock_inv pid s" and idle: "pcs s i = Idle" and t: "t = goto i (TryLink 0) (s\<lparr>live := i # live s\<rparr>)"
  shows "lock_inv pid t"
proof (rule inv_move [OF inv, where i = i and p = "TryLink 0"])
  show "glob_inv pid t" using inv t by (auto simp: lock_inv_def glob_inv_def)
  show "proc_inv pid t j (pcs s j)"
    if "j \<noteq> i" "pcs s j \<noteq> Idle" "proc_inv pid s j (pcs s j)" for j
    by (rule frame_same_files [where s = s]) (use that t idle in \<open>auto simp: grows_def\<close>)
qed (use t in auto)

lemma inv_die:
  assumes inv: "lock_inv pid s" and t: "t = s\<lparr>live := removeAll i (live s)\<rparr>"
  shows "lock_inv pid t"
proof -
  have "proc_inv pid t j (pcs t j)" for j
  proof (cases "pcs s j = Idle")
    case True
    then show ?thesis using t by simp
  next
    case False
    have "proc_inv pid t j (pcs s j)"
      by (rule frame_same_files [where s = s]) (use t False inv in \<open>auto simp: grows_def lock_inv_def\<close>)
    then show ?thesis using t by simp
  qed
  moreover have "glob_inv pid t" using inv t by (auto simp: lock_inv_def glob_inv_def)
  ultimately show ?thesis by (simp add: lock_inv_def)
qed

lemma exec_action_inv:
  assumes inv: "lock_inv pid s" and run: "exec_action pid a s = Some t"
    and nobreak: "\<not> breaks_marker a s" and quiet: "stat_window_quiet s t"
  shows "lock_inv pid t"
proof (cases a)
  case (Start i)
  then show ?thesis using run inv_start [OF inv] by (auto split: if_splits)
next
  case (Run i)
  then have i: "i \<in> set (live s)" "run_step pid i s = Some t" using run by (auto split: if_splits)
  then consider "acquire_step pid i s = Some t" | "reclaim_step pid i s = Some t" | "release_step pid i s = Some t"
    by (auto simp: run_step_def split: option.splits)
  then show ?thesis
    using acquire_step_inv [OF inv _ i(1) quiet] reclaim_step_inv [OF inv _ i(1) quiet]
      release_step_inv [OF inv _ i(1) quiet] nobreak Run by cases auto
next
  case (Wait i)
  then show ?thesis using run inv_goto [OF inv] by (auto split: if_splits)
next
  case (Finish i)
  then have "i \<in> set (live s)" "pcs s i = Held" "t = goto i RelRead s" using run by (auto split: if_splits)
  moreover have "proc_inv pid s i (pcs s i)" using inv by (simp add: lock_inv_def)
  ultimately show ?thesis using inv_goto [OF inv, of RelRead i] by simp
next
  case (Die i)
  then show ?thesis using run inv_die [OF inv] by (auto split: if_splits)
qed

lemma calm_reach_inv: "calm_reach pid s \<Longrightarrow> lock_inv pid s"
  by (induction rule: calm_reach.induct) (auto intro: lock_inv_init exec_action_inv)

section \<open>Mutual exclusion\<close>

text \<open>
  C18. Mutual exclusion of the command lock. In every run, of any number of processes
  interleaving at every system call, crashing or exiting anywhere and with pids recycled at
  will, in which no reclaim marker is broken and no lock file is created or removed
  between a contender's read and its stat of the lock: two live processes never hold the
  lock together, and the file of whoever holds it carries that process's pid and nonce.
\<close>

theorem command_lock_mutual_exclusion:
  assumes "calm_reach pid s" and "holds_lock s i" and "holds_lock s j"
  shows "i = j \<and> (\<exists>f. lock_file s = Some f \<and> f_content f = Payload (pid i) i)"
proof -
  have "proc_inv pid s i (pcs s i)" "proc_inv pid s j (pcs s j)"
    using calm_reach_inv [OF assms(1)] by (auto simp: lock_inv_def)
  then have "lock_mine pid s i" "lock_mine pid s j" using assms(2,3) by (auto simp: holds_lock_def)
  then show ?thesis by (auto simp: lock_mine_def)
qed

text \<open>A start with a lock left by a crashed run, and the runs on it the witnesses use.\<close>

definition demo_pid :: "nat \<Rightarrow> nat" where
  "demo_pid i = i + 100"

definition stale_start :: "lfile option \<Rightarrow> lstate" where
  "stale_start marker = \<lparr> lock_file = Some \<lparr> f_ino = 0, f_content = Payload 109 9 \<rparr>, marker_file = marker,
     next_ino = 2, pcs = (\<lambda>i. if i = 9 \<or> i = 8 then Done else Idle), live = [] \<rparr>"

lemma stale_start_init: "lock_init demo_pid (stale_start None)"
  by (simp add: lock_init_def stale_start_def demo_pid_def past_payload_def)

lemmas lock_eval = stale_start_def demo_pid_def goto_def run_step_def acquire_step_def reclaim_step_def
  release_step_def publishLockAtomically_def ownedBy_def isPidAlive_def sameFile_def next_try_def
  MAX_ACQUIRE_ATTEMPTS_def breaks_marker_def stat_window_quiet_def at_stat_def

definition reclaim_and_hold :: "action list" where
  "reclaim_and_hold = Start 1 # replicate 12 (Run 1)"

lemma reclaim_and_hold_runs:
  "\<exists>t. calm_exec demo_pid reclaim_and_hold (stale_start None) = Some t \<and> holds_lock t 1"
  by (simp add: reclaim_and_hold_def lock_eval holds_lock_def numeral_eq_Suc)

theorem command_lock_mutual_exclusion_witness:
  "\<exists>t f. calm_exec demo_pid reclaim_and_hold (stale_start None) = Some t \<and> holds_lock t 1 \<and>
     lock_file t = Some f \<and> f_content f = Payload 101 1"
proof -
  obtain t where t: "calm_exec demo_pid reclaim_and_hold (stale_start None) = Some t" "holds_lock t 1"
    using reclaim_and_hold_runs by blast
  have "calm_reach demo_pid t" by (rule calm_exec_reach [OF calm_init [OF stale_start_init] t(1)])
  from command_lock_mutual_exclusion [OF this t(2) t(2)] t show ?thesis by (auto simp: demo_pid_def)
qed

section \<open>The two windows that break exclusion\<close>

text \<open>
  The hypotheses of the theorem above are the windows the code leaves open. First: an
  abandoned marker, and one contender that has read its dead owner but not yet unlinked
  it. A second contender breaks the marker, publishes its own and passes the in-marker
  checks; the first then unlinks the second's live marker, enters, reclaims and acquires;
  the second unlinks that live lock and acquires as well.
\<close>

definition marker_race :: "action list" where
  "marker_race = Start 0 # replicate 7 (Run 0) @ Start 1 # replicate 16 (Run 1) @
     replicate 13 (Run 0) @ replicate 3 (Run 1)"

lemma lock_lost_by_marker_break:
  "\<exists>t. exec_actions demo_pid marker_race (stale_start (Some \<lparr> f_ino = 1, f_content = Payload 108 8 \<rparr>)) = Some t \<and>
     holds_lock t 0 \<and> holds_lock t 1"
  by (simp add: marker_race_def lock_eval holds_lock_def numeral_eq_Suc)

text \<open>
  Second, with no abandoned marker and no crash but the one that left the stale lock: a
  contender reads the dead holder, the lock is replaced by a live one before its stat, and
  that live holder releases while the contender is inside the marker. The contender's
  stat and its in-marker stat agree, its in-marker read finds no file, and it unlinks the
  lock a third process has just taken.
\<close>

definition stat_race :: "action list" where
  "stat_race = Start 0 # replicate 2 (Run 0) @ Start 1 # replicate 12 (Run 1) @
     replicate 4 (Run 0) @ [Finish 1, Run 1, Run 1, Run 0, Start 2, Run 2] @ replicate 5 (Run 0)"

lemma lock_lost_by_stat_window:
  "\<exists>t. exec_actions demo_pid stat_race (stale_start None) = Some t \<and> holds_lock t 0 \<and> holds_lock t 2"
  by (simp add: stat_race_def lock_eval holds_lock_def numeral_eq_Suc)

lemma stat_race_no_deaths: "list_all (\<lambda>a. \<forall>i. a \<noteq> Die i) stat_race"
  by (simp add: stat_race_def list_all_iff)


section \<open>Bounded acquisition\<close>

fun pc_rank :: "pc \<Rightarrow> nat" where
  "pc_rank (TryLink k) = 12 * (MAX_ACQUIRE_ATTEMPTS - k)"
| "pc_rank (ReadHolder k) = 12 * (MAX_ACQUIRE_ATTEMPTS - k) - 1"
| "pc_rank (StatLock k h) = 12 * (MAX_ACQUIRE_ATTEMPTS - k) - 2"
| "pc_rank (CheckActive k h obs) = 12 * (MAX_ACQUIRE_ATTEMPTS - k) - 3"
| "pc_rank (MarkLink k x) = 12 * (MAX_ACQUIRE_ATTEMPTS - k) - 4"
| "pc_rank (BreakRead k) = 12 * (MAX_ACQUIRE_ATTEMPTS - k) - 5"
| "pc_rank (BreakCheck k h) = 12 * (MAX_ACQUIRE_ATTEMPTS - k) - 6"
| "pc_rank (BreakUnlink k) = 12 * (MAX_ACQUIRE_ATTEMPTS - k) - 7"
| "pc_rank (InStat k x) = 12 * (MAX_ACQUIRE_ATTEMPTS - k) - 5"
| "pc_rank (InRead k x c) = 12 * (MAX_ACQUIRE_ATTEMPTS - k) - 6"
| "pc_rank (InCheck k x c h) = 12 * (MAX_ACQUIRE_ATTEMPTS - k) - 7"
| "pc_rank (InUnlink k) = 12 * (MAX_ACQUIRE_ATTEMPTS - k) - 8"
| "pc_rank (MarkRelRead k) = 12 * (MAX_ACQUIRE_ATTEMPTS - k) - 9"
| "pc_rank (MarkRelUnlink k) = 12 * (MAX_ACQUIRE_ATTEMPTS - k) - 10"
| "pc_rank RelRead = 2"
| "pc_rank RelUnlink = 1"
| "pc_rank _ = 0"

fun attempt_ok :: "pc \<Rightarrow> bool" where
  "attempt_ok (TryLink k) = (k < MAX_ACQUIRE_ATTEMPTS)"
| "attempt_ok (ReadHolder k) = (k < MAX_ACQUIRE_ATTEMPTS)"
| "attempt_ok (StatLock k h) = (k < MAX_ACQUIRE_ATTEMPTS)"
| "attempt_ok (CheckActive k h obs) = (k < MAX_ACQUIRE_ATTEMPTS)"
| "attempt_ok (MarkLink k x) = (k < MAX_ACQUIRE_ATTEMPTS)"
| "attempt_ok (BreakRead k) = (k < MAX_ACQUIRE_ATTEMPTS)"
| "attempt_ok (BreakCheck k h) = (k < MAX_ACQUIRE_ATTEMPTS)"
| "attempt_ok (BreakUnlink k) = (k < MAX_ACQUIRE_ATTEMPTS)"
| "attempt_ok (InStat k x) = (k < MAX_ACQUIRE_ATTEMPTS)"
| "attempt_ok (InRead k x c) = (k < MAX_ACQUIRE_ATTEMPTS)"
| "attempt_ok (InCheck k x c h) = (k < MAX_ACQUIRE_ATTEMPTS)"
| "attempt_ok (InUnlink k) = (k < MAX_ACQUIRE_ATTEMPTS)"
| "attempt_ok (MarkRelRead k) = (k < MAX_ACQUIRE_ATTEMPTS)"
| "attempt_ok (MarkRelUnlink k) = (k < MAX_ACQUIRE_ATTEMPTS)"
| "attempt_ok _ = True"

definition pc_progress :: "pc \<Rightarrow> pc \<Rightarrow> bool" where
  "pc_progress p q = (attempt_ok q \<and> pc_rank q < pc_rank p)"

lemma progress_next_try:
  "k < MAX_ACQUIRE_ATTEMPTS \<Longrightarrow> attempt_ok (next_try k) \<and> pc_rank (next_try k) + 12 \<le> 12 * (MAX_ACQUIRE_ATTEMPTS - k)"
  by (auto simp: next_try_def)

lemma acquire_progress:
  "attempt_ok (pcs s i) \<Longrightarrow> acquire_step pid i s = Some t \<Longrightarrow> pc_progress (pcs s i) (pcs t i)"
  using progress_next_try
  by (cases "pcs s i") (fastforce simp: acquire_step_def pc_progress_def split: option.splits if_splits)+

lemma reclaim_progress:
  "attempt_ok (pcs s i) \<Longrightarrow> reclaim_step pid i s = Some t \<Longrightarrow> pc_progress (pcs s i) (pcs t i)"
  using progress_next_try
  by (cases "pcs s i") (fastforce simp: reclaim_step_def pc_progress_def split: option.splits if_splits)+

lemma release_progress:
  "release_step pid i s = Some t \<Longrightarrow> pc_progress (pcs s i) (pcs t i)"
  by (cases "pcs s i") (auto simp: release_step_def pc_progress_def split: if_splits)

lemma run_progress:
  "attempt_ok (pcs s i) \<Longrightarrow> run_step pid i s = Some t \<Longrightarrow> pc_progress (pcs s i) (pcs t i)"
  by (auto simp: run_step_def split: option.splits
      dest: acquire_progress reclaim_progress release_progress)

lemma run_step_frame: "run_step pid i s = Some t \<Longrightarrow> j \<noteq> i \<Longrightarrow> pcs t j = pcs s j"
  by (auto simp: run_step_def acquire_step_def reclaim_step_def release_step_def
      split: option.splits pc.splits if_splits)

definition retries :: "nat \<Rightarrow> action \<Rightarrow> bool" where
  "retries i a = (a \<in> {Start i, Wait i, Finish i})"

lemma action_progress:
  assumes "exec_action pid a s = Some t" and "\<not> retries i a" and "attempt_ok (pcs s i)"
  shows "attempt_ok (pcs t i) \<and> (if a = Run i then pc_rank (pcs t i) < pc_rank (pcs s i)
    else pcs t i = pcs s i)"
proof (cases a)
  case (Run j)
  then show ?thesis using assms run_progress [of s i pid t] run_step_frame [of pid j s t i]
    by (cases "j = i") (auto simp: pc_progress_def split: if_splits)
qed (use assms in \<open>auto simp: retries_def split: if_splits\<close>)



end
