(* ===== verification/JsJson.thy ===== *)
theory JsJson
  imports JsPrelude
begin

text \<open>
  The parts of the JavaScript standard library the services use on the text other programs
  print: decimal rendering of a count, splitting a line into fields or white-space separated
  tokens, \<open>toLowerCase\<close> and \<open>toUpperCase\<close>, hexadecimal decoding, and \<open>JSON.parse\<close>. Text is ASCII
  throughout; a \<open>\\u\<close> escape above 127 becomes the UTF-8 bytes of its code unit.
  Keys of an object keep the order of their first occurrence.
\<close>

section \<open>Decimal rendering\<close>

definition digit_char :: "nat \<Rightarrow> char" where
  "digit_char d = char_of (48 + d)"

fun show_nat :: "nat \<Rightarrow> string" where
  "show_nat n = (if n < 10 then [digit_char n] else show_nat (n div 10) @ [digit_char (n mod 10)])"

declare show_nat.simps [simp del]

lemma digit_char_literals:
  "digit_char 0 = CHR ''0''" "digit_char (Suc 0) = CHR ''1''" "digit_char 2 = CHR ''2''" "digit_char 3 = CHR ''3''"
  "digit_char 4 = CHR ''4''" "digit_char 5 = CHR ''5''" "digit_char 6 = CHR ''6''" "digit_char 7 = CHR ''7''"
  "digit_char 8 = CHR ''8''" "digit_char 9 = CHR ''9''"
  by code_simp+

text \<open>Texts of concrete numbers and back.\<close>

lemmas number_text_eval = show_nat.simps digit_char_literals
lemmas text_number_eval = decimal_nat_def nat_of_digits_def digit_val_def char_code_def is_digit_def

lemma char_code_digit_char: "d < 10 \<Longrightarrow> char_code (digit_char d) = 48 + d"
  by (simp add: char_code_def digit_char_def)

lemma is_digit_digit_char [simp]: "d < 10 \<Longrightarrow> is_digit (digit_char d)"
  by (simp add: is_digit_def char_code_digit_char)

lemma digit_val_digit_char [simp]: "d < 10 \<Longrightarrow> digit_val (digit_char d) = d"
  by (simp add: digit_val_def char_code_digit_char)

lemma is_digit_not_ws: "is_digit c \<Longrightarrow> \<not> is_ws c"
  by (auto simp: is_digit_def is_ws_def char_code_def)

lemma decimal_nat_snoc [simp]: "decimal_nat (ds @ [d]) = 10 * decimal_nat ds + digit_val d"
  by (simp add: decimal_nat_def nat_of_digits_def)

lemma decimal_nat_single [simp]: "decimal_nat [d] = digit_val d"
  by (simp add: decimal_nat_def nat_of_digits_def)

lemma show_nat_not_Nil [simp]: "show_nat n \<noteq> []"
  by (subst show_nat.simps) simp

lemma show_nat_digits: "list_all is_digit (show_nat n)"
proof (induction n rule: show_nat.induct)
  case (1 n) then show ?case by (subst show_nat.simps) simp
qed

lemma decimal_nat_show [simp]: "decimal_nat (show_nat n) = n"
proof (induction n rule: show_nat.induct)
  case (1 n) then show ?case by (subst show_nat.simps) simp
qed

lemma digits_no_ws: "list_all is_digit ds \<Longrightarrow> list_all (\<lambda>c. \<not> is_ws c) ds"
  by (induction ds) (auto simp: is_digit_not_ws)

lemma parseInt_digits:
  assumes "list_all is_digit ds" "ds \<noteq> []"
  shows "parseInt10 ds = Some (int (decimal_nat ds))"
proof -
  obtain c cs where ds: "ds = c # cs" using assms(2) by (cases ds) auto
  have c: "is_digit c" using assms(1) ds by simp
  then have "\<not> is_ws c" "c \<noteq> CHR ''-''" "c \<noteq> CHR ''+''"
    using is_digit_not_ws by (auto simp: is_digit_def char_code_def)
  moreover have "takeWhile is_digit ds = ds" using assms(1) by (auto simp: list_all_iff takeWhile_eq_all_conv)
  ultimately show ?thesis using ds by (simp add: parseInt10_def trim_start_def)
qed

text \<open>A number printed on a line of its own.\<close>

lemma trim_number_line [simp]: "trim (show_nat n @ [CHR 0x0A]) = show_nat n"
proof -
  have nows: "list_all (\<lambda>c. \<not> is_ws c) (show_nat n)" by (rule digits_no_ws [OF show_nat_digits])
  then have "dropWhile is_ws (show_nat n @ [CHR 0x0A]) = show_nat n @ [CHR 0x0A]"
    by (cases "show_nat n") auto
  moreover have "is_ws (CHR 0x0A)" by (simp add: is_ws_def)
  moreover have "dropWhile is_ws (rev (show_nat n)) = rev (show_nat n)"
    using nows by (cases "rev (show_nat n)") (auto simp: list_all_iff)
  ultimately show ?thesis by (simp add: trim_def)
qed

section \<open>Lines, fields and tokens\<close>

text \<open>\<open>s.split(d)\<close> on a one-character separator: never empty.\<close>

fun split_on :: "char \<Rightarrow> string \<Rightarrow> string list" where
  "split_on d [] = [[]]"
| "split_on d (c # cs) =
     (if c = d then [] # split_on d cs
      else (case split_on d cs of x # xs \<Rightarrow> (c # x) # xs | [] \<Rightarrow> [[c]]))"

text \<open>\<open>s.trim().split(/\s+/)\<close> with no token for the empty string.\<close>

fun tokens_from :: "string \<Rightarrow> string \<Rightarrow> string list" where
  "tokens_from acc [] = (if acc = [] then [] else [rev acc])"
| "tokens_from acc (c # cs) =
     (if is_ws c then (if acc = [] then tokens_from [] cs else rev acc # tokens_from [] cs)
      else tokens_from (c # acc) cs)"

definition tokens :: "string \<Rightarrow> string list" where
  "tokens s = tokens_from [] s"

text \<open>\<open>s.replace(/\r?\n$/, '')\<close>.\<close>

definition chomp :: "string \<Rightarrow> string" where
  "chomp s = (case rev s of
     c # r \<Rightarrow> if c = CHR 0x0A
               then (case r of d # r' \<Rightarrow> if d = CHR 0x0D then rev r' else rev r | [] \<Rightarrow> [])
               else s
   | [] \<Rightarrow> [])"

definition lower_char :: "char \<Rightarrow> char" where
  "lower_char c = (let n = char_code c in if 65 \<le> n \<and> n \<le> 90 then char_of (n + 32) else c)"

definition upper_char :: "char \<Rightarrow> char" where
  "upper_char c = (let n = char_code c in if 97 \<le> n \<and> n \<le> 122 then char_of (n - 32) else c)"

definition to_lower :: "string \<Rightarrow> string" where
  "to_lower s = map lower_char s"

text \<open>The n-th field of a split line; a missing one is \<open>undefined\<close>.\<close>

definition nth_field :: "string list \<Rightarrow> nat \<Rightarrow> string option" where
  "nth_field fs n = (if n < length fs then Some (fs ! n) else None)"

text \<open>\<open>parseInt(x, 10)\<close> of a string or of \<open>undefined\<close> as a number, and \<open>Math.round\<close>.\<close>

definition parse_int_num :: "string option \<Rightarrow> jsnum" where
  "parse_int_num v = (case v of
     None \<Rightarrow> NaN
   | Some s \<Rightarrow> (case parseInt10 s of None \<Rightarrow> NaN | Some i \<Rightarrow> to_num (of_int i)))"

definition js_round :: "rat \<Rightarrow> int" where
  "js_round r = \<lfloor>r + 1 / 2\<rfloor>"

lemma split_on_not_Nil [simp]: "split_on d s \<noteq> []"
  by (cases "(d, s)" rule: split_on.cases) (auto split: list.splits)

lemma split_on_none: "d \<notin> set s \<Longrightarrow> split_on d s = [s]"
  by (induction s) auto

lemma split_on_append: "d \<notin> set x \<Longrightarrow> split_on d (x @ d # y) = x # split_on d y"
  by (induction x) auto

lemma tokens_from_word:
  "list_all (\<lambda>c. \<not> is_ws c) w \<Longrightarrow> tokens_from acc (w @ s) = tokens_from (rev w @ acc) s"
  by (induction w arbitrary: acc) auto

lemma tokens_word:
  assumes "list_all (\<lambda>c. \<not> is_ws c) w" "w \<noteq> []"
  shows "tokens w = [w]"
  using tokens_from_word [OF assms(1), of "[]" "[]"] assms(2) by (simp add: tokens_def)

lemma tokens_word_sep:
  assumes "list_all (\<lambda>c. \<not> is_ws c) w" "w \<noteq> []" "is_ws d"
  shows "tokens (w @ d # s) = w # tokens s"
  using tokens_from_word [OF assms(1), of "[]" "d # s"] assms(2,3) by (simp add: tokens_def)

lemma chomp_newline: "c \<noteq> CHR 0x0D \<Longrightarrow> chomp (xs @ [c, CHR 0x0A]) = xs @ [c]"
  by (simp add: chomp_def)

section \<open>Hexadecimal\<close>

text \<open>\<open>Buffer.from(hex, 'hex')\<close> on an even number of digits.\<close>

fun hex_bytes :: "string \<Rightarrow> string" where
  "hex_bytes (a # b # r) = char_of (16 * the (hex_val a) + the (hex_val b)) # hex_bytes r"
| "hex_bytes _ = []"

definition upper_hex_digit :: "char \<Rightarrow> bool" where
  "upper_hex_digit c = (is_digit c \<or> (65 \<le> char_code c \<and> char_code c \<le> 70))"

text \<open>\<open>/^(?:[0-9A-F]{2})*$/\<close>.\<close>

definition upper_hex_pairs :: "string \<Rightarrow> bool" where
  "upper_hex_pairs s = (list_all upper_hex_digit s \<and> even (length s))"

definition hex_digit :: "nat \<Rightarrow> char" where
  "hex_digit d = (if d < 10 then char_of (48 + d) else char_of (55 + d))"

definition hex_encode :: "string \<Rightarrow> string" where
  "hex_encode s = concat (map (\<lambda>c. [hex_digit (char_code c div 16), hex_digit (char_code c mod 16)]) s)"

lemma char_code_less: "char_code c < 256"
  unfolding char_code_def by (metis nat_of_char_less_256)

lemma char_code_hex_digit: "d < 16 \<Longrightarrow> char_code (hex_digit d) = (if d < 10 then 48 + d else 55 + d)"
  by (auto simp: hex_digit_def char_code_def)

lemma hex_val_hex_digit: "d < 16 \<Longrightarrow> hex_val (hex_digit d) = Some d"
  by (auto simp: hex_val_def char_code_hex_digit Let_def)

lemma upper_hex_digit_hex_digit: "d < 16 \<Longrightarrow> upper_hex_digit (hex_digit d)"
  by (auto simp: upper_hex_digit_def is_digit_def char_code_hex_digit)

lemma div16_less: "char_code c div 16 < 16"
  using char_code_less [of c] by simp

lemma hex_bytes_encode [simp]: "hex_bytes (hex_encode s) = s"
proof (induction s)
  case (Cons c s)
  have "16 * (char_code c div 16) + char_code c mod 16 = char_code c"
    by simp
  then show ?case
    using Cons by (simp add: hex_encode_def hex_val_hex_digit div16_less)
      (simp add: char_code_def)
qed (simp add: hex_encode_def)

lemma hex_encode_pairs [simp]: "upper_hex_pairs (hex_encode s)"
  by (induction s)
    (auto simp: hex_encode_def upper_hex_pairs_def upper_hex_digit_hex_digit div16_less)

lemma hex_encode_Nil_iff [simp]: "hex_encode s = [] \<longleftrightarrow> s = []"
  by (cases s) (simp_all add: hex_encode_def)

section \<open>\<open>JSON.parse\<close>\<close>

definition json_ws :: "char \<Rightarrow> bool" where
  "json_ws c = (c = CHR '' '' \<or> c = CHR 0x09 \<or> c = CHR 0x0A \<or> c = CHR 0x0D)"

definition skip_ws :: "string \<Rightarrow> string" where
  "skip_ws s = dropWhile json_ws s"

definition utf8_unit :: "nat \<Rightarrow> string" where
  "utf8_unit n = (if n < 128 then [char_of n]
     else if n < 2048 then [char_of (192 + n div 64), char_of (128 + n mod 64)]
     else [char_of (224 + n div 4096), char_of (128 + n div 64 mod 64), char_of (128 + n mod 64)])"

definition hex4 :: "char \<Rightarrow> char \<Rightarrow> char \<Rightarrow> char \<Rightarrow> nat option" where
  "hex4 a b c d = (case (hex_val a, hex_val b, hex_val c, hex_val d) of
     (Some w, Some x, Some y, Some z) \<Rightarrow> Some (4096 * w + 256 * x + 16 * y + z) | _ \<Rightarrow> None)"

definition simple_escape :: "char \<Rightarrow> char option" where
  "simple_escape e =
     (if e = CHR 0x22 \<or> e = CHR 0x5C \<or> e = CHR ''/'' then Some e
      else if e = CHR ''b'' then Some (CHR 0x08)
      else if e = CHR ''f'' then Some (CHR 0x0C)
      else if e = CHR ''n'' then Some (CHR 0x0A)
      else if e = CHR ''r'' then Some (CHR 0x0D)
      else if e = CHR ''t'' then Some (CHR 0x09) else None)"

text \<open>The characters of a string literal after its opening quote, and what follows it.\<close>

fun parse_string :: "string \<Rightarrow> (string \<times> string) option" where
  "parse_string [] = None"
| "parse_string (c # cs) =
     (if c = CHR 0x22 then Some ([], cs)
      else if c = CHR 0x5C then
        (case cs of
           [] \<Rightarrow> None
         | e # r \<Rightarrow>
             if e = CHR ''u'' then
               (case r of
                  h1 # h2 # h3 # h4 # r' \<Rightarrow>
                    (case hex4 h1 h2 h3 h4 of
                       None \<Rightarrow> None
                     | Some n \<Rightarrow> map_option (\<lambda>(s, t). (utf8_unit n @ s, t)) (parse_string r'))
                | _ \<Rightarrow> None)
             else (case simple_escape e of
                     None \<Rightarrow> None
                   | Some d \<Rightarrow> map_option (\<lambda>(s, t). (d # s, t)) (parse_string r)))
      else if char_code c < 32 then None
      else map_option (\<lambda>(s, t). (c # s, t)) (parse_string cs))"

definition int_part :: "string \<Rightarrow> (string \<times> string) option" where
  "int_part s = (case s of
     [] \<Rightarrow> None
   | c # r \<Rightarrow> if c = CHR ''0'' then Some ([c], r)
              else if is_digit c then Some (takeWhile is_digit s, dropWhile is_digit s) else None)"

definition frac_part :: "string \<Rightarrow> (string \<times> string) option" where
  "frac_part s = (case s of
     c # r \<Rightarrow> if c = CHR ''.'' then
                (if takeWhile is_digit r = [] then None
                 else Some (takeWhile is_digit r, dropWhile is_digit r))
              else Some ([], s)
   | [] \<Rightarrow> Some ([], []))"

definition exp_part :: "string \<Rightarrow> (int \<times> string) option" where
  "exp_part s = (case s of
     c # r \<Rightarrow> if c = CHR ''e'' \<or> c = CHR ''E'' then
                (let neg = (case r of d # _ \<Rightarrow> d = CHR ''-'' | [] \<Rightarrow> False);
                     u = (case r of d # r' \<Rightarrow> if d = CHR ''-'' \<or> d = CHR ''+'' then r' else r | [] \<Rightarrow> []);
                     ds = takeWhile is_digit u
                 in if ds = [] then None
                    else Some (if neg then - int (decimal_nat ds) else int (decimal_nat ds), dropWhile is_digit u))
              else Some (0, s)
   | [] \<Rightarrow> Some (0, []))"

definition parse_number :: "string \<Rightarrow> (jsnum \<times> string) option" where
  "parse_number s =
     (let neg = (case s of c # _ \<Rightarrow> c = CHR ''-'' | [] \<Rightarrow> False);
          u = (if neg then tl s else s)
      in case int_part u of
           None \<Rightarrow> None
         | Some (ip, r1) \<Rightarrow>
             (case frac_part r1 of
                None \<Rightarrow> None
              | Some (fp, r2) \<Rightarrow>
                  (case exp_part r2 of
                     None \<Rightarrow> None
                   | Some (e, r3) \<Rightarrow>
                       let v = to_num (scale10 (of_nat (decimal_nat (ip @ fp))) (e - int (length fp)))
                       in Some (if neg then js_neg v else v, r3))))"

text \<open>A string, a literal or a number; \<open>next_is d s\<close> is what follows \<open>d\<close> when it comes next.\<close>

definition parse_scalar :: "char \<Rightarrow> string \<Rightarrow> (json \<times> string) option" where
  "parse_scalar c r =
     (if c = CHR 0x22 then map_option (\<lambda>(x, t). (JStr x, t)) (parse_string r)
      else if take 4 (c # r) = ''true'' then Some (JBool True, drop 3 r)
      else if take 5 (c # r) = ''false'' then Some (JBool False, drop 4 r)
      else if take 4 (c # r) = ''null'' then Some (JNull, drop 3 r)
      else map_option (\<lambda>(x, t). (JNum x, t)) (parse_number (c # r)))"

definition next_is :: "char \<Rightarrow> string \<Rightarrow> string option" where
  "next_is d s = (case skip_ws s of c # r \<Rightarrow> if c = d then Some r else None | [] \<Rightarrow> None)"

text \<open>\<open>"key":\<close> of an object member.\<close>

definition parse_key :: "string \<Rightarrow> (string \<times> string) option" where
  "parse_key s = (case next_is (CHR 0x22) s of
     None \<Rightarrow> None
   | Some r \<Rightarrow> (case parse_string r of
       None \<Rightarrow> None
     | Some (k, r1) \<Rightarrow> map_option (\<lambda>t. (k, t)) (next_is (CHR '':'') r1)))"

text \<open>
  Values, the elements of an array after \<open>[\<close> or a comma, and the members of an object
  after \<open>{\<close> or a comma. Every second call consumes a character, so twice the length of
  the text is enough fuel (\<open>parse_fuel_enough\<close> below).
\<close>

fun parse_value :: "nat \<Rightarrow> string \<Rightarrow> (json \<times> string) option"
and parse_elems :: "nat \<Rightarrow> string \<Rightarrow> (json list \<times> string) option"
and parse_members :: "nat \<Rightarrow> string \<Rightarrow> ((string \<times> json) list \<times> string) option" where
  "parse_value 0 s = None"
| "parse_value (Suc n) s =
     (case skip_ws s of
        [] \<Rightarrow> None
      | c # r \<Rightarrow>
          if c = CHR ''['' then
            (case next_is (CHR '']'') r of
               Some t \<Rightarrow> Some (JArr [], t)
             | None \<Rightarrow> map_option (\<lambda>(x, u). (JArr x, u)) (parse_elems n r))
          else if c = CHR 0x7B then
            (case next_is (CHR 0x7D) r of
               Some t \<Rightarrow> Some (JObj [], t)
             | None \<Rightarrow> map_option (\<lambda>(x, u). (JObj (fold (\<lambda>(k, v). AList.update k v) x []), u)) (parse_members n r))
          else parse_scalar c r)"
| "parse_elems 0 s = None"
| "parse_elems (Suc n) s =
     (case parse_value n s of
        None \<Rightarrow> None
      | Some (v, r) \<Rightarrow>
          (case next_is (CHR '']'') r of
             Some t \<Rightarrow> Some ([v], t)
           | None \<Rightarrow>
               (case next_is (CHR '','') r of
                  None \<Rightarrow> None
                | Some t \<Rightarrow> map_option (\<lambda>(vs, u). (v # vs, u)) (parse_elems n t))))"
| "parse_members 0 s = None"
| "parse_members (Suc n) s =
     (case parse_key s of
        None \<Rightarrow> None
      | Some (k, r1) \<Rightarrow>
          (case parse_value n r1 of
             None \<Rightarrow> None
           | Some (v, r) \<Rightarrow>
               (case next_is (CHR 0x7D) r of
                  Some t \<Rightarrow> Some ([(k, v)], t)
                | None \<Rightarrow>
                    (case next_is (CHR '','') r of
                       None \<Rightarrow> None
                     | Some t \<Rightarrow> map_option (\<lambda>(ms, u). ((k, v) # ms, u)) (parse_members n t)))))"

definition json_parse :: "string \<Rightarrow> json option" where
  "json_parse s = (case parse_value (2 * length s + 1) s of
     Some (v, r) \<Rightarrow> if skip_ws r = [] then Some v else None
   | None \<Rightarrow> None)"

text \<open>
  Parsing consumes text, and from twice the length of the text on, more fuel changes nothing.
\<close>

lemma skip_ws_length: "length (skip_ws s) \<le> length s"
  by (simp add: skip_ws_def length_dropWhile_le)

lemma parse_string_length: "parse_string s = Some (x, r) \<Longrightarrow> length r < length s"
  by (induction s arbitrary: x rule: parse_string.induct)
    (auto split: if_splits list.splits option.splits, fastforce+)

lemma int_part_length: "int_part s = Some (x, r) \<Longrightarrow> length r < length s"
  by (auto simp: int_part_def length_dropWhile_le le_imp_less_Suc split: list.splits if_splits)

lemma frac_part_length: "frac_part s = Some (x, r) \<Longrightarrow> length r \<le> length s"
  by (auto simp: frac_part_def length_dropWhile_le le_SucI split: list.splits if_splits)

lemma exp_part_length: "exp_part s = Some (x, r) \<Longrightarrow> length r \<le> length s"
  using length_dropWhile_le [of is_digit]
  by (auto simp: exp_part_def Let_def le_Suc_eq split: list.splits if_splits)

lemma parse_number_length: "parse_number s = Some (x, r) \<Longrightarrow> length r < length s"
  by (auto simp: parse_number_def Let_def split: option.splits list.splits if_splits
      dest!: int_part_length frac_part_length exp_part_length)

lemma next_is_length: "next_is d s = Some r \<Longrightarrow> length r < length s"
  using skip_ws_length [of s] by (auto simp: next_is_def split: list.splits if_splits)

lemma parse_key_length: "parse_key s = Some (k, r) \<Longrightarrow> length r < length s"
  by (auto simp: parse_key_def split: option.splits dest!: next_is_length parse_string_length)

lemma parse_scalar_length: "parse_scalar c t = Some (v, r) \<Longrightarrow> length r \<le> length t"
  using parse_number_length [of "c # t"]
  by (auto simp: parse_scalar_def split: if_splits dest!: parse_string_length)

lemma parse_length:
  "parse_value n s = Some (v, r) \<Longrightarrow> length r < length s"
  "parse_elems n s = Some (vs, r) \<Longrightarrow> length r < length s"
  "parse_members n s = Some (ms, r) \<Longrightarrow> length r < length s"
proof (induction n s and n s and n s arbitrary: v r and vs r and ms r
    rule: parse_value_parse_elems_parse_members.induct)
  case (2 n s)
  show ?case
  proof (cases "skip_ws s")
    case Nil then show ?thesis using 2 by simp
  next
    case (Cons c t)
    have len: "length t < length s" using skip_ws_length [of s] Cons by simp
    show ?thesis
      using 2(3) Cons len 2(1) [OF Cons] 2(2) [OF Cons]
      by (auto split: option.splits if_splits dest: parse_scalar_length next_is_length)
  qed
next
  case (4 n s)
  show ?case
    using 4(3) 4(1,2)
    by (auto split: option.splits dest!: next_is_length) fastforce+
next
  case (6 n s)
  show ?case
    using 6(3) 6(1,2)
    by (auto split: option.splits dest!: next_is_length parse_key_length) fastforce+
qed simp_all

lemma parse_fuel_suc:
  "2 * length s < n \<Longrightarrow> parse_value (Suc n) s = parse_value n s"
  "2 * length s + 1 < n \<Longrightarrow> parse_elems (Suc n) s = parse_elems n s"
  "2 * length s + 1 < n \<Longrightarrow> parse_members (Suc n) s = parse_members n s"
proof (induction n s and n s and n s rule: parse_value_parse_elems_parse_members.induct)
  case (2 n s)
  show ?case
  proof (cases "skip_ws s")
    case Nil then show ?thesis by simp
  next
    case (Cons c t)
    have "length t < length s" using skip_ws_length [of s] Cons by simp
    then have "2 * length t + 1 < n" using 2(3) by linarith
    then have "c = CHR ''['' \<Longrightarrow> next_is (CHR '']'') t = None \<Longrightarrow> parse_elems (Suc n) t = parse_elems n t"
      "c \<noteq> CHR ''['' \<Longrightarrow> c = CHR 0x7B \<Longrightarrow> next_is (CHR 0x7D) t = None \<Longrightarrow> parse_members (Suc n) t = parse_members n t"
      using 2(1) [OF Cons] 2(2) [OF Cons] by simp_all
    then show ?thesis
      using Cons by (simp del: parse_elems.simps parse_members.simps split: option.splits)
  qed
next
  case (4 n s)
  have v: "parse_value (Suc n) s = parse_value n s" using 4 by simp
  have e: "parse_elems (Suc n) t = parse_elems n t"
    if "parse_value n s = Some (x, r)" "next_is (CHR '']'') r = None" "next_is (CHR '','') r = Some t" for x r t
    using that 4 parse_length(1) [OF that(1)] next_is_length [OF that(3)] by simp
  show ?case
    unfolding parse_elems.simps(2) [of "Suc n" s] parse_elems.simps(2) [of n s] v
    by (auto split: option.splits simp del: parse_elems.simps parse_value.simps simp: e)
next
  case (6 n s)
  have v: "parse_value (Suc n) r = parse_value n r" if "parse_key s = Some (k, r)" for k r
    using that 6 parse_key_length [OF that] by simp
  have e: "parse_members (Suc n) t = parse_members n t"
    if "parse_key s = Some (k, r1)" "parse_value n r1 = Some (x, r)"
      "next_is (CHR 0x7D) r = None" "next_is (CHR '','') r = Some t" for k r1 x r t
    using that 6 parse_key_length [OF that(1)] parse_length(1) [OF that(2)] next_is_length [OF that(4)] by simp
  show ?case
    unfolding parse_members.simps(2) [of "Suc n" s] parse_members.simps(2) [of n s]
    by (auto split: option.splits simp del: parse_members.simps parse_value.simps simp: e v)
qed simp_all

lemma parse_fuel_enough:
  assumes "2 * length s < n"
  shows "parse_value n s = parse_value (2 * length s + 1) s"
proof -
  have "parse_value (2 * length s + 1 + k) s = parse_value (2 * length s + 1) s" for k
    by (induction k) (simp_all add: parse_fuel_suc(1) del: parse_value.simps)
  then show ?thesis
    using assms by (metis Suc_eq_plus1 Suc_leI le_iff_add)
qed

text \<open>What evaluating the parser on a concrete text unfolds.\<close>

lemmas json_parse_eval = json_parse_def skip_ws_def json_ws_def parse_scalar_def next_is_def
  parse_key_def parse_number_def int_part_def frac_part_def exp_part_def is_digit_def char_code_def
  decimal_nat_def nat_of_digits_def digit_val_def scale10_def to_num_def double_limit_def
  simple_escape_def eval_nat_numeral

end
