(* ===== verification/StatusGate.thy ===== *)
theory StatusGate
  imports JsJson
begin

text \<open>
  \<open>services/bootstrap_health_gate/status_evaluation.js\<close>: the verdicts of the bootstrap
  source health gate over a container's \<open>docker inspect\<close> line and over the service's own
  status payload. A verdict is a list of refusal reasons; a reason is a constructor carrying
  the values its text interpolates. \<open>Date.parse\<close>, whose value outside the ISO format is
  implementation-defined, is an argument.
\<close>

datatype reason =
    ContainerUnreadable
  | NotRunning string
  | ContainerRestarting
  | CrashLooping rat int
  | HealthcheckUnhealthy
  | HealthcheckStarting
  | NoPayload
  | StatusWord json
  | Halted "json option"
  | ReorgHalted "json option"
  | NeverProbed
  | Parked "json option"
  | UpstreamReorgHalted
  | Wedged "json option"
  | OperatorHold "json option"
  | ProofStuck json "json option"
  | TrainHalt json
  | FetchDesync json
  | StaleTip
  | NoLagField
  | NullLag string
  | UnreadableLag string json
  | NegativeLag string jsnum
  | TooFarBehind jsnum rat
  | LookupFailed
  | NotRegistered
  | InspectFailed
  | PortUnresolved
  | NoPort
  | ProbeFailed
  | MarkersUnreadable
  | MarkerReorgHalt bool
  | MarkerSyncHalt bool
  | MarkerPendingSync bool
  | MarkerRollbackGuard bool
  | RaisedReorgHalt
  | RaisedSyncHalt
  | WindowUnreadable string

type_synonym date_ms = "string \<Rightarrow> rat option"

section \<open>Container state\<close>

definition CRASH_LOOP_UPTIME_MS :: rat where "CRASH_LOOP_UPTIME_MS = 10 * 60 * 1000"
definition DEFAULT_MAX_LAG_BLOCKS :: rat where "DEFAULT_MAX_LAG_BLOCKS = 100"

definition crash_loop_reasons :: "jsnum \<Rightarrow> rat option \<Rightarrow> rat \<Rightarrow> reason list" where
  "crash_loop_reasons count started now = (case (count, started) of
     (Fin n, Some ms) \<Rightarrow>
       if 0 < n \<and> now - ms < CRASH_LOOP_UPTIME_MS
       then [CrashLooping n (max 0 (js_round ((now - ms) / 1000)))] else []
   | _ \<Rightarrow> [])"

definition evaluateContainerState :: "date_ms \<Rightarrow> string \<Rightarrow> rat \<Rightarrow> reason list" where
  "evaluateContainerState dp raw now =
     (let fs = split_on (CHR ''|'') (trim raw);
          status = fs ! 0;
          health = nth_field fs 4
      in if status = [] then [ContainerUnreadable]
         else (if status \<noteq> ''running'' then [NotRunning status] else [])
            @ (if nth_field fs 1 = Some ''true'' then [ContainerRestarting] else [])
            @ crash_loop_reasons (parse_int_num (nth_field fs 2))
                (case nth_field fs 3 of None \<Rightarrow> None | Some s \<Rightarrow> dp s) now
            @ (if health = Some ''unhealthy'' then [HealthcheckUnhealthy] else [])
            @ (if health = Some ''starting'' then [HealthcheckStarting] else []))"

section \<open>Status payload\<close>

text \<open>
  \<open>['ok', 'healthy'].includes(String(v).toLowerCase())\<close>: a string is its own text, an
  array of one element has that element's text, and no other value prints as such a word.
\<close>

fun healthy_word :: "json \<Rightarrow> bool" where
  "healthy_word (JStr s) = (to_lower s = ''ok'' \<or> to_lower s = ''healthy'')"
| "healthy_word (JArr [v]) = healthy_word v"
| "healthy_word _ = False"

definition is_true :: "json option \<Rightarrow> bool" where
  "is_true v = (v = Some (JBool True))"

definition null_or_undefined :: "json option \<Rightarrow> bool" where
  "null_or_undefined v = (v = None \<or> v = Some JNull)"

definition stallReasons :: "json \<Rightarrow> reason list" where
  "stallReasons p =
     (let cls = field p ''stallClass''; why = field p ''stallReason''
      in (if cls = Some (JStr ''wedged'') then [Wedged why] else [])
       @ (if cls = Some (JStr ''operator_action_hold'') then [OperatorHold why] else [])
       @ (case cls of
            Some c \<Rightarrow> if c = JStr ''rollcall_proof_stuck'' \<or> c = JStr ''capability_proof_stuck''
                      then [ProofStuck c why] else []
          | None \<Rightarrow> [])
       @ (case field p ''train_activation'' of
            Some t \<Rightarrow> if truthy t \<and> is_object t \<and> field t ''status'' = Some (JStr ''halt'')
                      then [TrainHalt t] else []
          | None \<Rightarrow> []))"

definition reorgParkReasons :: "json \<Rightarrow> reason list" where
  "reorgParkReasons p =
     (if is_true (field p ''reorg_halt_parked'') then [Parked (field p ''reorg_halt_parked_at'')] else [])"

definition statusFlagReasons :: "json \<Rightarrow> reason list" where
  "statusFlagReasons p =
     (case field p ''status'' of
        Some s \<Rightarrow> if truthy s \<and> \<not> healthy_word s then [StatusWord s] else []
      | None \<Rightarrow> [])
   @ (if is_true (field p ''halted'') then [Halted (field p ''halt_reason'')] else [])
   @ (if is_true (field p ''reorg_halted'') then [ReorgHalted (field p ''reorg_halt_reason'')] else [])
   @ (if field p ''reorg_halted'' \<noteq> None \<and> null_or_undefined (field p ''reorg_halt_checked_at'')
      then [NeverProbed] else [])
   @ reorgParkReasons p
   @ (if is_true (field p ''decoderReorgHalted'') then [UpstreamReorgHalted] else [])
   @ stallReasons p
   @ (case field p ''block_fetch_desync'' of
        Some d \<Rightarrow> if truthy d then [FetchDesync d] else []
      | None \<Rightarrow> [])
   @ (if is_true (field p ''node_height_stale'') then [StaleTip] else [])"

fun strictLagValue :: "json \<Rightarrow> jsnum option" where
  "strictLagValue (JNum n) = (if is_finite n then Some n else None)"
| "strictLagValue (JStr s) =
     (if trim s = [] then None
      else if is_finite (js_Number (trim s)) then Some (js_Number (trim s)) else None)"
| "strictLagValue _ = None"

definition lag_keys :: "string list" where
  "lag_keys = [''lag_blocks'', ''blockLag'', ''lag'']"

definition lagReasons :: "json \<Rightarrow> rat \<Rightarrow> reason list" where
  "lagReasons p maxLag = (case List.find (\<lambda>k. field p k \<noteq> None) lag_keys of
     None \<Rightarrow> [NoLagField]
   | Some k \<Rightarrow>
       let lag = the (field p k) in
       if lag = JNull then [NullLag k]
       else (case strictLagValue lag of
               None \<Rightarrow> [UnreadableLag k lag]
             | Some v \<Rightarrow> if js_lt v (Fin 0) then [NegativeLag k v]
                         else if js_gt v (Fin maxLag) then [TooFarBehind v maxLag]
                         else []))"

definition evaluateStatusPayload :: "json \<Rightarrow> rat \<Rightarrow> reason list" where
  "evaluateStatusPayload p maxLag =
     (if \<not> is_object p then [NoPayload] else statusFlagReasons p @ lagReasons p maxLag)"

section \<open>What passes\<close>

lemma lagReasons_Nil:
  assumes "lagReasons p maxLag = []"
  obtains k lag r where "k \<in> set lag_keys" "field p k = Some lag" "strictLagValue lag = Some (Fin r)"
    "0 \<le> r" "r \<le> maxLag"
proof -
  obtain k where k: "List.find (\<lambda>k. field p k \<noteq> None) lag_keys = Some k"
    using assms by (auto simp: lagReasons_def split: option.splits)
  then have mem: "k \<in> set lag_keys" and "field p k \<noteq> None"
    by (auto simp: find_Some_iff)
  then obtain lag where lag: "field p k = Some lag" by auto
  from assms k lag obtain v where v: "strictLagValue lag = Some v" "\<not> js_lt v (Fin 0)" "\<not> js_gt v (Fin maxLag)"
    by (auto simp: lagReasons_def Let_def split: if_splits option.splits)
  have "is_finite v"
    using v(1) by (cases lag) (auto split: if_splits)
  then obtain r where "v = Fin r" by (rule is_finiteE)
  with that mem lag v show ?thesis by (auto simp: js_gt_def)
qed

lemma stallReasons_Nil:
  assumes "stallReasons p = []"
  shows "(\<forall>c. field p ''stallClass'' = Some (JStr c) \<longrightarrow>
             c \<notin> {''wedged'', ''operator_action_hold'', ''rollcall_proof_stuck'', ''capability_proof_stuck''})
       \<and> (\<forall>t. field p ''train_activation'' = Some t \<longrightarrow> field t ''status'' \<noteq> Some (JStr ''halt''))"
proof (intro conjI allI impI)
  fix c assume "field p ''stallClass'' = Some (JStr c)"
  then show "c \<notin> {''wedged'', ''operator_action_hold'', ''rollcall_proof_stuck'', ''capability_proof_stuck''}"
    using assms by (auto simp: stallReasons_def Let_def)
next
  fix t assume "field p ''train_activation'' = Some t"
  then show "field t ''status'' \<noteq> Some (JStr ''halt'')"
    using assms by (cases t) (auto simp: stallReasons_def Let_def field_def fields_def split: if_splits)
qed

lemma statusFlagReasons_Nil:
  assumes "statusFlagReasons p = []"
  shows "(\<forall>s. field p ''status'' = Some s \<longrightarrow> \<not> truthy s \<or> healthy_word s)
       \<and> \<not> is_true (field p ''halted'') \<and> \<not> is_true (field p ''reorg_halted'')
       \<and> (field p ''reorg_halted'' \<noteq> None \<longrightarrow> \<not> null_or_undefined (field p ''reorg_halt_checked_at''))
       \<and> \<not> is_true (field p ''reorg_halt_parked'') \<and> \<not> is_true (field p ''decoderReorgHalted'')
       \<and> stallReasons p = []
       \<and> (\<forall>d. field p ''block_fetch_desync'' = Some d \<longrightarrow> \<not> truthy d)
       \<and> \<not> is_true (field p ''node_height_stale'')"
  using assms unfolding statusFlagReasons_def reorgParkReasons_def
  by (simp split: if_splits option.splits) auto

text \<open>
  C8. A status payload passes the gate only when it shows a caught-up, healthy, unhalted
  service: no status word other than ok or healthy, no halt, park or upstream-halt flag, a
  reorg flag only together with a completed probe, no wedged or stuck stall class, no train
  halt, no block-fetch desync, no stale tip, and a readable lag between 0 and the limit.
\<close>

theorem status_payload_fail_closed:
  assumes "evaluateStatusPayload p maxLag = []"
  shows "(\<exists>k lag r. k \<in> set lag_keys \<and> field p k = Some lag \<and> strictLagValue lag = Some (Fin r)
             \<and> 0 \<le> r \<and> r \<le> maxLag)
       \<and> (\<forall>s. field p ''status'' = Some s \<longrightarrow> \<not> truthy s \<or> healthy_word s)
       \<and> \<not> is_true (field p ''halted'') \<and> \<not> is_true (field p ''reorg_halted'')
       \<and> (field p ''reorg_halted'' \<noteq> None \<longrightarrow> \<not> null_or_undefined (field p ''reorg_halt_checked_at''))
       \<and> \<not> is_true (field p ''reorg_halt_parked'') \<and> \<not> is_true (field p ''decoderReorgHalted'')
       \<and> (\<forall>c. field p ''stallClass'' = Some (JStr c) \<longrightarrow>
             c \<notin> {''wedged'', ''operator_action_hold'', ''rollcall_proof_stuck'', ''capability_proof_stuck''})
       \<and> (\<forall>t. field p ''train_activation'' = Some t \<longrightarrow> field t ''status'' \<noteq> Some (JStr ''halt''))
       \<and> (\<forall>d. field p ''block_fetch_desync'' = Some d \<longrightarrow> \<not> truthy d)
       \<and> \<not> is_true (field p ''node_height_stale'')"
proof -
  have st: "statusFlagReasons p = []" and lag: "lagReasons p maxLag = []"
    using assms by (auto simp: evaluateStatusPayload_def split: if_splits)
  note sf = statusFlagReasons_Nil [OF st]
  have sr: "stallReasons p = []" using sf by simp
  have ex: "\<exists>k lag r. k \<in> set lag_keys \<and> field p k = Some lag \<and> strictLagValue lag = Some (Fin r)
             \<and> 0 \<le> r \<and> r \<le> maxLag"
    by (rule lagReasons_Nil [OF lag]) blast
  show ?thesis
    using ex sf stallReasons_Nil [OF sr] by (intro conjI) ((elim conjE)?, assumption)+
qed

definition healthy_payload :: json where
  "healthy_payload = JObj [(''status'', JStr ''ok''), (''reorg_halted'', JBool False),
     (''reorg_halt_checked_at'', JNum (Fin 1)), (''lag_blocks'', JStr '' 3 '')]"

lemma healthy_payload_passes: "evaluateStatusPayload healthy_payload 100 = []"
  by (simp add: evaluateStatusPayload_def statusFlagReasons_def lagReasons_def stallReasons_def
      reorgParkReasons_def healthy_payload_def field_def fields_def lag_keys_def is_true_def
      null_or_undefined_def to_lower_def lower_char_def char_code_def js_Number_def trim_def is_ws_def
      unsigned_decimal_def is_digit_def exponent_part_def decimal_nat_def nat_of_digits_def
      digit_val_def scale10_def to_num_def double_limit_def the_default_nan_def js_gt_def Let_def)

theorem status_payload_fail_closed_witness:
  "\<not> is_true (field healthy_payload ''halted'')
   \<and> (\<exists>k lag r. k \<in> set lag_keys \<and> field healthy_payload k = Some lag
        \<and> strictLagValue lag = Some (Fin r) \<and> 0 \<le> r \<and> r \<le> 100)"
  using status_payload_fail_closed [OF healthy_payload_passes] by blast

end
