(* ===== verification/Naming.thy ===== *)
theory Naming
  imports JsJson
begin

text \<open>
  The names the node gives to containers, volumes, networks and databases
  (\<open>services/config_service/naming.js\<close>, \<open>utils/module_database_name.js\<close>,
  \<open>config/module_names.js\<close>) and the helpers that keep them and passwords injection-safe
  in SQL text (\<open>utils/sql_safety.js\<close>). The node prefix is an argument, as is the
  hexadecimal SHA-256 of a text. A function that throws returns \<open>None\<close>.
\<close>

section \<open>Module names\<close>

definition DB_MODULE_NAME :: string where "DB_MODULE_NAME = ''database''"
definition HUB_MODULE_NAME :: string where "HUB_MODULE_NAME = ''xchain-hub''"
definition EXPLORER_MODULE_NAME :: string where "EXPLORER_MODULE_NAME = ''xchain-explorer''"
definition SYNC_MODULE_NAME :: string where "SYNC_MODULE_NAME = ''xchain-sync''"
definition XCHAIN_ENCODER :: string where "XCHAIN_ENCODER = ''xchain-encoder''"
definition XCHAIN_DECODER :: string where "XCHAIN_DECODER = ''xchain-decoder''"
definition XCHAIN_UTXO_TRACKER :: string where "XCHAIN_UTXO_TRACKER = ''xchain-utxo-tracker''"
definition XCHAIN_REGTEST_MINER :: string where "XCHAIN_REGTEST_MINER = ''xchain-regtest-miner''"
definition XCHAIN_INDEXER :: string where "XCHAIN_INDEXER = ''xchain-indexer''"
definition XCHAIN_E2E_TEST :: string where "XCHAIN_E2E_TEST = ''xchain-e2e-test''"

definition SEP :: string where "SEP = ''-''"
definition DB_SEP :: string where "DB_SEP = ''_''"
definition DEFAULT_NODE_PREFIX :: string where "DEFAULT_NODE_PREFIX = ''xchain-node''"

definition Networks :: "string list" where
  "Networks = [''mainnet'', ''testnet'', ''regtest'']"

text \<open>\<open>CoinTickerSymbol[coin]\<close> for the full names of the coin registry.\<close>

definition CoinTickerSymbol :: "string \<Rightarrow> string option" where
  "CoinTickerSymbol coin = map_of [(''bitcoin'', ''BTC''), (''litecoin'', ''LTC''), (''dogecoin'', ''DOGE'')] coin"

lemmas module_name_defs = DB_MODULE_NAME_def HUB_MODULE_NAME_def EXPLORER_MODULE_NAME_def
  SYNC_MODULE_NAME_def XCHAIN_ENCODER_def XCHAIN_DECODER_def XCHAIN_UTXO_TRACKER_def
  XCHAIN_REGTEST_MINER_def XCHAIN_INDEXER_def XCHAIN_E2E_TEST_def

definition is_lower :: "char \<Rightarrow> bool" where
  "is_lower c = (97 \<le> char_code c \<and> char_code c \<le> 122)"

definition is_upper :: "char \<Rightarrow> bool" where
  "is_upper c = (65 \<le> char_code c \<and> char_code c \<le> 90)"

definition is_alnum :: "char \<Rightarrow> bool" where
  "is_alnum c = (is_lower c \<or> is_upper c \<or> is_digit c)"

text \<open>\<open>/^[a-z0-9][a-z0-9._-]*$/\<close>.\<close>

definition valid_node_prefix :: "string \<Rightarrow> bool" where
  "valid_node_prefix p = (case p of
     [] \<Rightarrow> False
   | c # r \<Rightarrow> (is_lower c \<or> is_digit c)
       \<and> list_all (\<lambda>d. is_lower d \<or> is_digit d \<or> d = CHR ''.'' \<or> d = CHR ''_'' \<or> d = CHR ''-'') r)"

section \<open>Container, volume and network names\<close>

definition getDockerContainerImageNamePrefix :: "string \<Rightarrow> string \<Rightarrow> string \<Rightarrow> string \<Rightarrow> string" where
  "getDockerContainerImageNamePrefix prefix md coin network =
     (if md \<in> {DB_MODULE_NAME, HUB_MODULE_NAME, EXPLORER_MODULE_NAME, SYNC_MODULE_NAME} then prefix
      else prefix @ SEP @ coin @ SEP @ network)"

definition getDockerContainerImageName :: "string \<Rightarrow> string \<Rightarrow> string \<Rightarrow> string \<Rightarrow> string" where
  "getDockerContainerImageName prefix md coin network =
     getDockerContainerImageNamePrefix prefix md coin network @ SEP @ md"

definition getUtxoTrackerVolumeName :: "string \<Rightarrow> string \<Rightarrow> string \<Rightarrow> string" where
  "getUtxoTrackerVolumeName prefix coin network =
     (if prefix = DEFAULT_NODE_PREFIX then [] else prefix @ SEP)
     @ XCHAIN_UTXO_TRACKER @ SEP @ coin @ ''-'' @ network @ ''-data''"

definition getDockerNetwork :: "string \<Rightarrow> string \<Rightarrow> string \<Rightarrow> string" where
  "getDockerNetwork prefix coin network =
     prefix @ (if coin \<noteq> [] then SEP @ coin else []) @ (if network \<noteq> [] then SEP @ network else [])"

section \<open>Database names\<close>

definition DB_NAME_MAX :: nat where "DB_NAME_MAX = 64"
definition HUB_MIRROR_SUFFIX :: string where "HUB_MIRROR_SUFFIX = ''_HubMirror''"
definition SCOPE_SEGMENT_MAX :: nat where "SCOPE_SEGMENT_MAX = 24"

definition nodePrefixSegment :: "string \<Rightarrow> string \<Rightarrow> string \<Rightarrow> string" where
  "nodePrefixSegment nodePrefix defaultPrefix sep =
     (if nodePrefix = defaultPrefix then []
      else map (\<lambda>c. if is_alnum c then c else CHR ''_'') nodePrefix @ sep)"

definition scopedNodePrefixSegment :: "(string \<Rightarrow> string) \<Rightarrow> string \<Rightarrow> string \<Rightarrow> string \<Rightarrow> string" where
  "scopedNodePrefixSegment sha raw defaultPrefix sep =
     (if raw = defaultPrefix then []
      else (let readable = nodePrefixSegment raw defaultPrefix sep
            in if take (length readable - length sep) readable = raw \<and> length readable \<le> SCOPE_SEGMENT_MAX
               then readable
               else (let digest = take 8 (sha raw);
                         head = take (SCOPE_SEGMENT_MAX - length sep * 2 - length digest) readable
                     in head @ sep @ digest @ sep)))"

definition cap :: "string \<Rightarrow> string" where
  "cap s = (case s of [] \<Rightarrow> [] | c # r \<Rightarrow> upper_char c # r)"

definition getModuleDatabaseName :: "(string \<Rightarrow> string) \<Rightarrow> string \<Rightarrow> string \<Rightarrow> string \<Rightarrow> string \<Rightarrow> string option" where
  "getModuleDatabaseName sha prefix md coin network =
     (if coin \<noteq> [] \<and> CoinTickerSymbol coin = None then None
      else if network \<noteq> [] \<and> network \<notin> set Networks then None
      else Some (''XChain'' @ DB_SEP
             @ scopedNodePrefixSegment sha prefix DEFAULT_NODE_PREFIX DB_SEP
             @ (case CoinTickerSymbol coin of Some t \<Rightarrow> t | None \<Rightarrow> ''undefined'') @ DB_SEP
             @ cap network @ DB_SEP @ cap (drop 7 md)))"

definition unscopedDefaultDatabaseName :: "string \<Rightarrow> string \<Rightarrow> string \<Rightarrow> string \<Rightarrow> string" where
  "unscopedDefaultDatabaseName md ticker network sep =
     ''XChain'' @ sep @ ticker @ sep @ cap network @ sep @ cap (drop 7 md)"

definition applyPrefixedModuleDbUsers ::
  "(string \<Rightarrow> string) \<Rightarrow> string \<Rightarrow> (string \<rightharpoonup> string) \<Rightarrow> string \<Rightarrow> string \<Rightarrow> (string \<rightharpoonup> string)" where
  "applyPrefixedModuleDbUsers sha prefix defaults coin network =
     (let segment = scopedNodePrefixSegment sha prefix DEFAULT_NODE_PREFIX DB_SEP;
          user = (\<lambda>name. ''xchain'' @ DB_SEP @ segment @ name @ DB_SEP @ coin @ DB_SEP @ network)
      in if segment = [] then defaults
         else defaults(''DECODER_DB_USER'' \<mapsto> user ''decoder'', ''INDEXER_DB_USER'' \<mapsto> user ''indexer''))"

section \<open>SQL safety\<close>

definition assertSafeDbIdentifier :: "string \<Rightarrow> string option" where
  "assertSafeDbIdentifier v =
     (if v \<noteq> [] \<and> list_all (\<lambda>c. is_alnum c \<or> c = CHR ''_'') v then Some v else None)"

definition DATABASE_NAME_KEY :: "string \<Rightarrow> string option" where
  "DATABASE_NAME_KEY m = (if m = XCHAIN_DECODER then Some ''DECODER_DB_NAME''
     else if m = XCHAIN_INDEXER then Some ''INDEXER_DB_NAME'' else None)"

definition configuredDatabaseName :: "string \<Rightarrow> (string \<rightharpoonup> string) \<Rightarrow> string \<Rightarrow> string option" where
  "configuredDatabaseName md cfg dflt =
     (let configured = (case DATABASE_NAME_KEY md of None \<Rightarrow> None | Some k \<Rightarrow> cfg k)
      in assertSafeDbIdentifier
           (case configured of Some c \<Rightarrow> if trim c \<noteq> [] then trim c else dflt | None \<Rightarrow> dflt))"

definition escape_char :: "char \<Rightarrow> string" where
  "escape_char c =
     (if c = CHR 0x00 then [CHR 0x5C, CHR ''0'']
      else if c = CHR 0x08 then [CHR 0x5C, CHR ''b'']
      else if c = CHR 0x09 then [CHR 0x5C, CHR ''t'']
      else if c = CHR 0x0A then [CHR 0x5C, CHR ''n'']
      else if c = CHR 0x0D then [CHR 0x5C, CHR ''r'']
      else if c = CHR 0x1A then [CHR 0x5C, CHR ''Z'']
      else if c = CHR 0x5C then [CHR 0x5C, CHR 0x5C]
      else if c = CHR 0x27 then [CHR 0x5C, CHR 0x27]
      else if c = CHR 0x22 then [CHR 0x5C, CHR 0x22]
      else [c])"

definition escapeSqlStringLiteral :: "string \<Rightarrow> string" where
  "escapeSqlStringLiteral v = CHR 0x27 # concat (map escape_char v) @ [CHR 0x27]"

text \<open>
  How MariaDB reads a single-quoted string literal under its default \<open>sql_mode\<close>, where
  the backslash escapes: the value, and the text after the closing quote. A doubled quote
  stands for a quote.
\<close>

definition unescape_char :: "char \<Rightarrow> char" where
  "unescape_char c =
     (if c = CHR ''0'' then CHR 0x00 else if c = CHR ''b'' then CHR 0x08
      else if c = CHR ''t'' then CHR 0x09 else if c = CHR ''n'' then CHR 0x0A
      else if c = CHR ''r'' then CHR 0x0D else if c = CHR ''Z'' then CHR 0x1A else c)"

fun literal_body :: "string \<Rightarrow> (string \<times> string) option" where
  "literal_body [] = None"
| "literal_body (c # cs) =
     (if c = CHR 0x5C then
        (case cs of [] \<Rightarrow> None
         | d # r \<Rightarrow> map_option (\<lambda>(v, t). (unescape_char d # v, t)) (literal_body r))
      else if c = CHR 0x27 then
        (case cs of
           d # r \<Rightarrow> if d = CHR 0x27 then map_option (\<lambda>(v, t). (CHR 0x27 # v, t)) (literal_body r)
                    else Some ([], cs)
         | [] \<Rightarrow> Some ([], []))
      else map_option (\<lambda>(v, t). (c # v, t)) (literal_body cs))"

definition read_sql_literal :: "string \<Rightarrow> (string \<times> string) option" where
  "read_sql_literal s = (case s of c # r \<Rightarrow> if c = CHR 0x27 then literal_body r else None | [] \<Rightarrow> None)"

lemma literal_body_escape:
  assumes "literal_body t = Some (v, r)"
  shows "literal_body (escape_char c @ t) = Some (c # v, r)"
  using assms by (auto simp: escape_char_def unescape_char_def)

lemma literal_body_end: "(case r of d # _ \<Rightarrow> d \<noteq> CHR 0x27 | [] \<Rightarrow> True) \<Longrightarrow> literal_body (CHR 0x27 # r) = Some ([], r)"
  by (auto split: list.splits)

text \<open>
  C9. A password escaped by escapeSqlStringLiteral is read back by MariaDB as exactly that
  password, and the literal ends where the escaped text ends, so no byte of the password
  reaches the statement around it. Two statements differ in nothing but the literal.
\<close>

theorem sql_literal_round_trip:
  assumes "case rest of d # _ \<Rightarrow> d \<noteq> CHR 0x27 | [] \<Rightarrow> True"
  shows "read_sql_literal (escapeSqlStringLiteral v @ rest) = Some (v, rest)"
proof -
  have "literal_body (concat (map escape_char v) @ CHR 0x27 # rest) = Some (v, rest)"
  proof (induction v)
    case Nil then show ?case using literal_body_end [OF assms] by simp
  next
    case (Cons c v) then show ?case using literal_body_escape [OF Cons] by simp
  qed
  then show ?thesis
    by (simp add: read_sql_literal_def escapeSqlStringLiteral_def)
qed

theorem sql_literal_round_trip_witness:
  "read_sql_literal (escapeSqlStringLiteral [CHR 0x27, CHR 0x5C, CHR 0x00] @ '';'')
     = Some ([CHR 0x27, CHR 0x5C, CHR 0x00], '';'')"
  by (rule sql_literal_round_trip) simp

section \<open>Database names are safe and fit\<close>

definition safe_char :: "char \<Rightarrow> bool" where
  "safe_char c = (is_alnum c \<or> c = CHR ''_'')"

text \<open>What the code relies on of the digest: eight leading characters of \<open>[0-9a-f]\<close>.\<close>

definition hex_digest :: "(string \<Rightarrow> string) \<Rightarrow> bool" where
  "hex_digest sha = (\<forall>x. 8 \<le> length (sha x) \<and> list_all (\<lambda>c. is_lower c \<or> is_digit c) (sha x))"

lemma assertSafe_iff: "assertSafeDbIdentifier v = Some v \<longleftrightarrow> v \<noteq> [] \<and> list_all safe_char v"
  by (simp add: assertSafeDbIdentifier_def safe_char_def [abs_def])

lemma safe_char_const [simp]: "safe_char (CHR ''_'')"
  by (simp add: safe_char_def)

lemma lower_digit_safe: "is_lower c \<or> is_digit c \<Longrightarrow> safe_char c"
  by (auto simp: safe_char_def is_alnum_def)

lemma nodePrefixSegment_safe: "list_all safe_char (nodePrefixSegment p d DB_SEP)"
  by (auto simp: nodePrefixSegment_def list_all_iff DB_SEP_def safe_char_def)

lemma list_all_take: "list_all P xs \<Longrightarrow> list_all P (take n xs)"
  by (auto simp: list_all_iff dest: in_set_takeD)

lemma digest_safe: "hex_digest sha \<Longrightarrow> list_all safe_char (take 8 (sha x))"
  using list_all_take [of "\<lambda>c. is_lower c \<or> is_digit c" "sha x" 8]
  by (auto simp: hex_digest_def list_all_iff intro: lower_digit_safe)

lemma scoped_segment_safe:
  "hex_digest sha \<Longrightarrow> list_all safe_char (scopedNodePrefixSegment sha p d DB_SEP)"
  using nodePrefixSegment_safe [of p d] digest_safe [of sha p]
  by (auto simp: scopedNodePrefixSegment_def Let_def DB_SEP_def list_all_append
      intro: list_all_take [where n = "SCOPE_SEGMENT_MAX - 2 - length (take 8 (sha p))"]
        list_all_take)

lemma scoped_segment_length:
  "hex_digest sha \<Longrightarrow> length (scopedNodePrefixSegment sha p d DB_SEP) \<le> SCOPE_SEGMENT_MAX"
  by (auto simp: scopedNodePrefixSegment_def Let_def DB_SEP_def SCOPE_SEGMENT_MAX_def hex_digest_def)

definition db_modules :: "string list" where
  "db_modules = [XCHAIN_DECODER, XCHAIN_INDEXER]"

lemma CoinTickerSymbol_cases:
  assumes "CoinTickerSymbol coin = Some t"
  shows "(coin, t) \<in> {(''bitcoin'', ''BTC''), (''litecoin'', ''LTC''), (''dogecoin'', ''DOGE'')}"
  using assms by (auto simp: CoinTickerSymbol_def split: if_splits)

lemma cap_evals:
  "cap ''mainnet'' = ''Mainnet''" "cap ''testnet'' = ''Testnet''" "cap ''regtest'' = ''Regtest''"
  "cap ''decoder'' = ''Decoder''" "cap ''indexer'' = ''Indexer''"
  by code_simp+

lemma db_modules_cap: "md \<in> set db_modules \<Longrightarrow> cap (drop 7 md) \<in> {''Decoder'', ''Indexer''}"
  by (auto simp: db_modules_def XCHAIN_DECODER_def XCHAIN_INDEXER_def cap_evals)

lemma networks_cap: "n \<in> set Networks \<Longrightarrow> cap n \<in> {''Mainnet'', ''Testnet'', ''Regtest''}"
  by (auto simp: Networks_def cap_evals)

lemma safe_words:
  "list_all safe_char ''XChain''" "list_all safe_char ''BTC''" "list_all safe_char ''LTC''"
  "list_all safe_char ''DOGE''" "list_all safe_char ''Mainnet''" "list_all safe_char ''Testnet''"
  "list_all safe_char ''Regtest''" "list_all safe_char ''Decoder''" "list_all safe_char ''Indexer''"
  by code_simp+

text \<open>
  C10. For every node prefix, the derived database name of a decoder or indexer is one that
  assertSafeDbIdentifier accepts unchanged, and the name with the hub mirror suffix stays
  within MariaDB's 64 characters, so the digest fallback of the scope segment is enough.
\<close>

theorem module_database_name_safe_and_fits:
  assumes "hex_digest sha" and "md \<in> set db_modules"
    and "CoinTickerSymbol coin = Some t" and "network \<in> set Networks"
  shows "\<exists>n. getModuleDatabaseName sha prefix md coin network = Some n
           \<and> assertSafeDbIdentifier n = Some n
           \<and> length (n @ HUB_MIRROR_SUFFIX) \<le> DB_NAME_MAX"
proof -
  let ?seg = "scopedNodePrefixSegment sha prefix DEFAULT_NODE_PREFIX DB_SEP"
  let ?n = "''XChain'' @ DB_SEP @ ?seg @ t @ DB_SEP @ cap network @ DB_SEP @ cap (drop 7 md)"
  have eq: "getModuleDatabaseName sha prefix md coin network = Some ?n"
    using assms(3,4) by (simp add: getModuleDatabaseName_def)
  have seg: "list_all safe_char ?seg" "length ?seg \<le> 24"
    using scoped_segment_safe [OF assms(1)] scoped_segment_length [OF assms(1)]
    by (simp_all add: SCOPE_SEGMENT_MAX_def)
  have t: "list_all safe_char t" "length t \<le> 4"
    using CoinTickerSymbol_cases [OF assms(3)] safe_words by auto
  have n: "list_all safe_char (cap network)" "length (cap network) = 7"
    using networks_cap [OF assms(4)] safe_words by auto
  have m: "list_all safe_char (cap (drop 7 md))" "length (cap (drop 7 md)) = 7"
    using db_modules_cap [OF assms(2)] safe_words by auto
  have "assertSafeDbIdentifier ?n = Some ?n"
    using seg t n m safe_words(1) by (simp add: assertSafe_iff DB_SEP_def)
  moreover have "length (?n @ HUB_MIRROR_SUFFIX) \<le> DB_NAME_MAX"
    using seg t n m by (simp add: DB_SEP_def HUB_MIRROR_SUFFIX_def DB_NAME_MAX_def)
  ultimately show ?thesis using eq by blast
qed

theorem module_database_name_safe_and_fits_witness:
  "\<exists>n. getModuleDatabaseName (\<lambda>_. ''0123456789abcdef'') ''my.very-long.node-prefix_0001'' XCHAIN_INDEXER ''dogecoin'' ''testnet'' = Some n
     \<and> assertSafeDbIdentifier n = Some n \<and> length (n @ HUB_MIRROR_SUFFIX) \<le> DB_NAME_MAX"
  by (rule module_database_name_safe_and_fits [where t = "''DOGE''"])
    (simp_all add: hex_digest_def is_lower_def is_digit_def char_code_def db_modules_def
      CoinTickerSymbol_def Networks_def)

text \<open>
  Two different valid node prefixes can share every database name: a prefix that
  spells out the folded head and the digest of another one is kept as it is and collides
  with it.
\<close>

lemma scoped_prefix_collision:
  assumes "hex_digest sha"
  shows "\<exists>p q. p \<noteq> q \<and> valid_node_prefix p \<and> valid_node_prefix q
           \<and> getModuleDatabaseName sha p md coin network = getModuleDatabaseName sha q md coin network"
proof -
  let ?d = "take 8 (sha ''foo.'')"
  let ?p = "''foo___'' @ ?d"
  have d: "length ?d = 8" "list_all (\<lambda>c. is_lower c \<or> is_digit c) ?d"
    using assms by (auto simp: hex_digest_def intro: list_all_take)
  have al: "map (\<lambda>c. if is_alnum c then c else CHR ''_'') ?d = ?d"
    using d(2) by (intro map_idI) (auto simp: list_all_iff is_alnum_def)
  have p: "scopedNodePrefixSegment sha ?p DEFAULT_NODE_PREFIX DB_SEP = ''foo___'' @ ?d @ ''_''"
    using d(1) al
    by (simp add: scopedNodePrefixSegment_def nodePrefixSegment_def DEFAULT_NODE_PREFIX_def DB_SEP_def
        SCOPE_SEGMENT_MAX_def is_alnum_def is_lower_def char_code_def)
  have q: "scopedNodePrefixSegment sha ''foo.'' DEFAULT_NODE_PREFIX DB_SEP = ''foo___'' @ ?d @ ''_''"
    using d(1)
    by (simp add: scopedNodePrefixSegment_def nodePrefixSegment_def DEFAULT_NODE_PREFIX_def DB_SEP_def
        SCOPE_SEGMENT_MAX_def is_alnum_def is_lower_def is_upper_def is_digit_def char_code_def)
  have "valid_node_prefix ?p" "valid_node_prefix ''foo.''"
    using d(2) by (auto simp: valid_node_prefix_def is_lower_def is_digit_def char_code_def list_all_iff)
  moreover have "?p \<noteq> ''foo.''" by simp
  moreover have "getModuleDatabaseName sha ?p md coin network = getModuleDatabaseName sha ''foo.'' md coin network"
    using p q by (simp add: getModuleDatabaseName_def)
  ultimately show ?thesis by blast
qed

section \<open>Names identify what they name\<close>

lemma append_sep_inject:
  "d \<notin> set x \<Longrightarrow> d \<notin> set x' \<Longrightarrow> x @ d # y = x' @ d # y' \<longleftrightarrow> x = x' \<and> y = y'"
proof (induction x arbitrary: x')
  case Nil then show ?case by (cases x') auto
next
  case (Cons a x) then show ?case by (cases x') auto
qed

definition shared_modules :: "string list" where
  "shared_modules = [DB_MODULE_NAME, HUB_MODULE_NAME, EXPLORER_MODULE_NAME, SYNC_MODULE_NAME]"

definition service_modules :: "string list" where
  "service_modules = [XCHAIN_ENCODER, XCHAIN_DECODER, XCHAIN_UTXO_TRACKER, XCHAIN_REGTEST_MINER,
     XCHAIN_INDEXER, XCHAIN_E2E_TEST]"

definition coin_names :: "string list" where
  "coin_names = [''bitcoin'', ''litecoin'', ''dogecoin'']"

text \<open>
  C11. On one node, the container (and image) name identifies the module, and for a
  per-chain service its coin and network: two installed modules share a name exactly when
  they are the same installation.
\<close>

theorem container_name_identifies_module:
  assumes m: "md \<in> set (shared_modules @ service_modules)" "md' \<in> set (shared_modules @ service_modules)"
    and c: "coin \<in> set coin_names" "coin' \<in> set coin_names"
    and n: "network \<in> set Networks" "network' \<in> set Networks"
  shows "getDockerContainerImageName prefix md coin network
           = getDockerContainerImageName prefix md' coin' network'
         \<longleftrightarrow> md = md' \<and> (md \<in> set shared_modules \<or> coin = coin' \<and> network = network')"
proof -
  have dash: "CHR ''-'' \<notin> set coin" "CHR ''-'' \<notin> set coin'" "CHR ''-'' \<notin> set network" "CHR ''-'' \<notin> set network'"
    using c n by (auto simp: coin_names_def Networks_def)
  have shared: "getDockerContainerImageName prefix k x y = prefix @ CHR ''-'' # k"
    if "k \<in> set shared_modules" for k x y
    using that by (auto simp: getDockerContainerImageName_def getDockerContainerImageNamePrefix_def
        shared_modules_def SEP_def)
  have service: "getDockerContainerImageName prefix k x y = prefix @ CHR ''-'' # x @ CHR ''-'' # y @ CHR ''-'' # k"
    if "k \<in> set service_modules" for k x y
    using that by (auto simp: getDockerContainerImageName_def getDockerContainerImageNamePrefix_def
        service_modules_def SEP_def module_name_defs)
  have mixed: "k \<noteq> x @ CHR ''-'' # y" if "k \<in> set shared_modules" "x \<in> set coin_names" for k x y
    using that by (auto simp: shared_modules_def coin_names_def module_name_defs)
  have split: "k \<in> set shared_modules \<or> k \<in> set service_modules" if "k \<in> set (shared_modules @ service_modules)" for k
    using that by simp
  have disj: "k \<in> set shared_modules \<Longrightarrow> k \<notin> set service_modules" for k
    by (auto simp: shared_modules_def service_modules_def module_name_defs)
  show ?thesis
    using split [OF m(1)] split [OF m(2)]
  proof (elim disjE)
    assume "md \<in> set shared_modules" "md' \<in> set shared_modules"
    then show ?thesis using shared by auto
  next
    assume "md \<in> set shared_modules" "md' \<in> set service_modules"
    then show ?thesis using shared service mixed c disj by auto
  next
    assume k: "md \<in> set service_modules" "md' \<in> set shared_modules"
    then have "prefix @ CHR ''-'' # md' \<noteq> prefix @ CHR ''-'' # coin @ CHR ''-'' # network @ CHR ''-'' # md"
      using mixed c by auto
    then show ?thesis using k shared service disj by metis
  next
    assume "md \<in> set service_modules" "md' \<in> set service_modules"
    then show ?thesis using service dash disj by (auto simp: append_sep_inject)
  qed
qed

theorem container_name_identifies_module_witness:
  "getDockerContainerImageName ''xchain-node'' XCHAIN_DECODER ''bitcoin'' ''mainnet''
     \<noteq> getDockerContainerImageName ''xchain-node'' XCHAIN_DECODER ''bitcoin'' ''testnet''"
  using container_name_identifies_module [where prefix = "''xchain-node''" and md = XCHAIN_DECODER
      and md' = XCHAIN_DECODER and coin = "''bitcoin''" and coin' = "''bitcoin''"
      and network = "''mainnet''" and network' = "''testnet''"]
  by (simp add: service_modules_def shared_modules_def coin_names_def Networks_def module_name_defs)

end
