(* ===== verification/HealthGate.thy ===== *)
theory HealthGate
  imports StatusGate Naming "HOL-Library.Monad_Syntax" "HOL-Library.Sublist"
begin

text \<open>
  The bootstrap source health gate: \<open>services/bootstrap_health_gate.js\<close>, its halt-marker
  probe \<open>services/bootstrap_health_gate/halt_markers.js\<close>, the statements of
  \<open>db/halt_markers.js\<close> with their meaning over the rows of the marker tables, and the
  publish path of \<open>bootstrap_service/mariadb_archive.js\<close> that calls the gate before and
  after the dump. What docker and the database answer is a record of functions; \<open>None\<close>
  is a call that throws. A function that throws returns \<open>None\<close>.
\<close>

section \<open>The statements and what they mean\<close>

datatype sql =
    MarkerTables string
  | LiveReorgHaltCount string
  | NewestReorgClear string
  | LiveSyncHaltCount string
  | PendingSyncHaltCount string
  | RollbackGuardState string
  | EventsWatermark string
  | SyncHaltWatermark string
  | ReorgHaltsSince string nat
  | SyncHaltsSince string nat

text \<open>
  The rows the statements read. \<open>id\<close> and \<open>state_key\<close> are primary keys and rows are
  listed in key order; a table that does not exist is \<open>None\<close>, and a SQL NULL as well.
\<close>

record event_row =
  ev_id :: nat
  ev_code :: string
  ev_data :: "string option"

record sync_row =
  sh_id :: nat
  sh_cleared :: bool

record tables =
  t_events :: "event_row list option"
  t_sync_halt :: "sync_row list option"
  t_sync_state :: "(string \<times> string option) list option"

definition max_id :: "nat list \<Rightarrow> nat" where
  "max_id ids = fold max ids 0"

definition ids_with :: "string list \<Rightarrow> event_row list \<Rightarrow> nat list" where
  "ids_with codes es = map ev_id (filter (\<lambda>e. ev_code e \<in> set codes) es)"

definition halt_codes :: "string list" where
  "halt_codes = [''REORG_HALT'', ''REORG_HALT_CLEARED'']"

definition liveReorgHaltCountSql :: "event_row list \<Rightarrow> nat" where
  "liveReorgHaltCountSql es =
     length (filter (\<lambda>e. ev_code e = ''REORG_HALT'' \<and> max_id (ids_with [''REORG_HALT_CLEARED''] es) < ev_id e) es)"

definition newestReorgClearSql :: "event_row list \<Rightarrow> event_row list" where
  "newestReorgClearSql es =
     filter (\<lambda>e. ev_code e = ''REORG_HALT_CLEARED'' \<and> ev_id e = max_id (ids_with halt_codes es)) es"

definition liveSyncHaltCountSql :: "sync_row list \<Rightarrow> nat" where
  "liveSyncHaltCountSql hs = length (filter (\<lambda>h. \<not> sh_cleared h) hs)"

definition or_empty_text :: "string option \<Rightarrow> string" where
  "or_empty_text v = (case v of Some s \<Rightarrow> s | None \<Rightarrow> [])"

text \<open>\<open>LIKE 'halt_pending:%'\<close>: the underscore matches any character.\<close>

definition like_halt_pending :: "string \<Rightarrow> bool" where
  "like_halt_pending k = (take 4 k = ''halt'' \<and> take 8 (drop 5 k) = ''pending:'')"

definition pendingSyncHaltCountSql :: "(string \<times> string option) list \<Rightarrow> nat" where
  "pendingSyncHaltCountSql st = length (filter (\<lambda>(k, v). like_halt_pending k \<and> or_empty_text v \<noteq> []) st)"

definition rollbackGuardStateSql :: "(string \<times> string option) list \<Rightarrow> string option list" where
  "rollbackGuardStateSql st = map snd (filter (\<lambda>(k, v). take 15 k = ''rollback_guard:'') st)"

definition eventsWatermarkSql :: "event_row list \<Rightarrow> nat" where
  "eventsWatermarkSql es = max_id (map ev_id es)"

definition syncHaltWatermarkSql :: "sync_row list \<Rightarrow> nat" where
  "syncHaltWatermarkSql hs = max_id (map sh_id hs)"

definition reorgHaltsSinceSql :: "event_row list \<Rightarrow> nat \<Rightarrow> nat" where
  "reorgHaltsSinceSql es since = length (filter (\<lambda>e. ev_code e \<in> set halt_codes \<and> since < ev_id e) es)"

definition syncHaltsSinceSql :: "sync_row list \<Rightarrow> nat \<Rightarrow> nat" where
  "syncHaltsSinceSql hs since = length (filter (\<lambda>h. since < sh_id h) hs)"

text \<open>
  The text a \<open>-BN\<close> client prints: fields joined by tabs and a line end. \<open>nul\<close> is how the
  client prints NULL, \<open>NULL\<close> for the docker client and nothing for the native one.
\<close>

definition line_of :: "string list \<Rightarrow> string" where
  "line_of fs = (case fs of [] \<Rightarrow> [] | f # r \<Rightarrow> f @ concat (map (\<lambda>g. CHR 0x09 # g) r)) @ [CHR 0x0A]"

definition bit_text :: "bool \<Rightarrow> string" where
  "bit_text b = (if b then ''1'' else ''0'')"

definition guard_token :: "string option \<Rightarrow> string" where
  "guard_token v = (case v of None \<Rightarrow> ''N'' | Some s \<Rightarrow> CHR ''V'' # hex_encode s)"

fun join_comma :: "string list \<Rightarrow> string" where
  "join_comma [] = []"
| "join_comma [t] = t"
| "join_comma (t # u # ts) = t @ CHR '','' # join_comma (u # ts)"

definition marker_tables_line :: "tables \<Rightarrow> string" where
  "marker_tables_line T = line_of [bit_text (t_events T \<noteq> None), bit_text (t_sync_halt T \<noteq> None),
     bit_text (t_sync_state T \<noteq> None)]"

definition newest_clear_line :: "string \<Rightarrow> event_row list \<Rightarrow> string" where
  "newest_clear_line nul es = (case newestReorgClearSql es of
     [] \<Rightarrow> line_of [''0'', nul]
   | e # _ \<Rightarrow> line_of [''1'', (case ev_data e of Some d \<Rightarrow> hex_encode d | None \<Rightarrow> nul)])"

definition guard_line :: "(string \<times> string option) list \<Rightarrow> string" where
  "guard_line st = line_of [show_nat (length (rollbackGuardStateSql st)),
     join_comma (map guard_token (rollbackGuardStateSql st))]"

fun sql_answer :: "string \<Rightarrow> (string \<Rightarrow> tables) \<Rightarrow> sql \<Rightarrow> string option" where
  "sql_answer nul dbs (MarkerTables n) = Some (marker_tables_line (dbs n))"
| "sql_answer nul dbs (LiveReorgHaltCount n) =
     map_option (\<lambda>es. line_of [show_nat (liveReorgHaltCountSql es)]) (t_events (dbs n))"
| "sql_answer nul dbs (NewestReorgClear n) = map_option (newest_clear_line nul) (t_events (dbs n))"
| "sql_answer nul dbs (LiveSyncHaltCount n) =
     map_option (\<lambda>hs. line_of [show_nat (liveSyncHaltCountSql hs)]) (t_sync_halt (dbs n))"
| "sql_answer nul dbs (PendingSyncHaltCount n) =
     map_option (\<lambda>st. line_of [show_nat (pendingSyncHaltCountSql st)]) (t_sync_state (dbs n))"
| "sql_answer nul dbs (RollbackGuardState n) = map_option guard_line (t_sync_state (dbs n))"
| "sql_answer nul dbs (EventsWatermark n) =
     map_option (\<lambda>es. line_of [show_nat (eventsWatermarkSql es)]) (t_events (dbs n))"
| "sql_answer nul dbs (SyncHaltWatermark n) =
     map_option (\<lambda>hs. line_of [show_nat (syncHaltWatermarkSql hs)]) (t_sync_halt (dbs n))"
| "sql_answer nul dbs (ReorgHaltsSince n w) =
     map_option (\<lambda>es. line_of [show_nat (reorgHaltsSinceSql es w)]) (t_events (dbs n))"
| "sql_answer nul dbs (SyncHaltsSince n w) =
     map_option (\<lambda>hs. line_of [show_nat (syncHaltsSinceSql hs w)]) (t_sync_halt (dbs n))"

section \<open>Reading the answers\<close>

definition parseCountTokens :: "string \<Rightarrow> nat \<Rightarrow> nat option \<Rightarrow> nat list option" where
  "parseCountTokens raw expected bound =
     (let ts = tokens raw in
      if length ts \<noteq> expected \<or> \<not> list_all (list_all is_digit) ts
         \<or> (case bound of Some m \<Rightarrow> list_ex (\<lambda>t. m < decimal_nat t) ts | None \<Rightarrow> False)
      then None else Some (map decimal_nat ts))"

definition isAuditedClear :: "json option \<Rightarrow> bool" where
  "isAuditedClear p = (case p of
     Some (JObj fs) \<Rightarrow> (case field (JObj fs) ''reason'' of
        Some (JStr s) \<Rightarrow> 8 \<le> length (trim s) | _ \<Rightarrow> False)
   | _ \<Rightarrow> False)"

definition null_as_empty :: "string \<Rightarrow> string" where
  "null_as_empty f = (if f = ''NULL'' then [] else f)"

definition parseNewestClear :: "string \<Rightarrow> nat option" where
  "parseNewestClear raw = (case split_on (CHR 0x09) (chomp raw) of
     [f0, f1] \<Rightarrow>
       (let hex = null_as_empty f1 in
        if (f0 \<noteq> ''0'' \<and> f0 \<noteq> ''1'') \<or> \<not> upper_hex_pairs hex \<or> (f0 = ''0'' \<and> hex \<noteq> []) then None
        else if f0 = ''0'' then Some 0
        else Some (if isAuditedClear (json_parse (hex_bytes hex)) then 0 else 1))
   | _ \<Rightarrow> None)"

text \<open>\<open>Number.isSafeInteger\<close> of a parsed field; a missing field is no integer.\<close>

definition safe_integer :: "json option \<Rightarrow> int option" where
  "safe_integer v = (case v of
     Some (JNum (Fin r)) \<Rightarrow> if r = of_int \<lfloor>r\<rfloor> \<and> \<bar>r\<bar> \<le> 2 ^ 53 - 1 then Some \<lfloor>r\<rfloor> else None
   | _ \<Rightarrow> None)"

definition isValidRollbackGuardState :: "string \<Rightarrow> bool" where
  "isValidRollbackGuardState raw = (case json_parse raw of
     None \<Rightarrow> False
   | Some st \<Rightarrow> (case (safe_integer (field st ''peak''), safe_integer (field st ''low'')) of
        (Some peak, Some low) \<Rightarrow> 0 \<le> peak \<and> 0 \<le> low \<and> low \<le> peak
      | _ \<Rightarrow> False))"

definition guard_token_ok :: "string \<Rightarrow> bool" where
  "guard_token_ok t = (t = ''N'' \<or> (case t of c # r \<Rightarrow> c = CHR ''V'' \<and> upper_hex_pairs r | [] \<Rightarrow> False))"

definition guard_token_invalid :: "string \<Rightarrow> bool" where
  "guard_token_invalid t = (t \<noteq> ''N'' \<and> \<not> isValidRollbackGuardState (hex_bytes (drop 1 t)))"

definition parseRollbackGuardRows :: "string \<Rightarrow> nat option" where
  "parseRollbackGuardRows raw = (case split_on (CHR 0x09) (chomp raw) of
     [f0, f1] \<Rightarrow>
       (let encoded = null_as_empty f1;
            ts = (if encoded = [] then [] else split_on (CHR '','') encoded)
        in if f0 = [] \<or> \<not> list_all is_digit f0 \<or> 2 ^ 53 - 1 < decimal_nat f0
              \<or> length ts \<noteq> decimal_nat f0 \<or> \<not> list_all guard_token_ok ts then None
           else Some (length (filter guard_token_invalid ts)))
   | _ \<Rightarrow> None)"

text \<open>A watermark handed back by the caller; \<open>None\<close> inside is null.\<close>

definition assertWatermark :: "jsnum option \<Rightarrow> nat option option" where
  "assertWatermark v = (case v of
     None \<Rightarrow> Some None
   | Some (Fin r) \<Rightarrow> if r = of_int \<lfloor>r\<rfloor> \<and> 0 \<le> r then Some (Some (nat \<lfloor>r\<rfloor>)) else None
   | Some _ \<Rightarrow> None)"

definition assertDbName :: "string \<Rightarrow> string option" where
  "assertDbName n = (if n \<noteq> [] \<and> list_all (\<lambda>c. is_alnum c \<or> c = CHR ''_'') n then Some n else None)"

section \<open>Probing one database\<close>

type_synonym run = "sql \<Rightarrow> string option"

record watermark =
  wm_events :: "jsnum option"
  wm_sync :: "jsnum option"

record raised =
  r_reorg :: nat
  r_sync :: nat
  r_unreadable :: "string list"

record found =
  f_reorg :: nat
  f_sync :: nat
  f_pending :: nat
  f_guard :: nat
  f_events_wm :: nat
  f_sync_wm :: "nat option"
  f_raised :: "raised option"

definition readCount :: "run \<Rightarrow> sql \<Rightarrow> nat option" where
  "readCount run q = do {
     t \<leftarrow> run q;
     vs \<leftarrow> parseCountTokens t 1 None;
     Some (vs ! 0) }"

definition readHaltCounts :: "run \<Rightarrow> string \<Rightarrow> bool \<Rightarrow> bool \<Rightarrow> (nat \<times> nat \<times> nat \<times> nat) option" where
  "readHaltCounts run name hasSyncHalt hasSyncState = do {
     live \<leftarrow> readCount run (LiveReorgHaltCount name);
     t \<leftarrow> run (NewestReorgClear name);
     unaudited \<leftarrow> parseNewestClear t;
     sync \<leftarrow> (if hasSyncHalt then readCount run (LiveSyncHaltCount name) else Some 0);
     (pending, guard) \<leftarrow> (if hasSyncState then do {
         p \<leftarrow> readCount run (PendingSyncHaltCount name);
         g \<leftarrow> run (RollbackGuardState name);
         bad \<leftarrow> parseRollbackGuardRows g;
         Some (p, bad) } else Some (0, 0));
     Some (live + unaudited, sync, pending, guard) }"

definition readLiveMarkers :: "run \<Rightarrow> string \<Rightarrow> (found \<times> bool) option" where
  "readLiveMarkers run name = do {
     t \<leftarrow> run (MarkerTables name);
     flags \<leftarrow> parseCountTokens t 3 (Some 1);
     if flags ! 0 = 0 then None
     else do {
       (reorg, sync, pending, guard) \<leftarrow> readHaltCounts run name (0 < flags ! 1) (0 < flags ! 2);
       wm \<leftarrow> readCount run (EventsWatermark name);
       swm \<leftarrow> (if 0 < flags ! 1 then map_option Some (readCount run (SyncHaltWatermark name)) else Some None);
       Some (\<lparr>f_reorg = reorg, f_sync = sync, f_pending = pending, f_guard = guard,
              f_events_wm = wm, f_sync_wm = swm, f_raised = None\<rparr>, 0 < flags ! 1) } }"

definition raisedEvents :: "run \<Rightarrow> string \<Rightarrow> nat option \<Rightarrow> found \<Rightarrow> (nat \<times> string list) option" where
  "raisedEvents run name prior found = (case prior of
     None \<Rightarrow> Some (0, [name @ ''.events''])
   | Some w \<Rightarrow> if f_events_wm found < w then Some (0, [name @ ''.events''])
               else map_option (\<lambda>n. (n, [])) (readCount run (ReorgHaltsSince name w)))"

definition raisedSyncHalts ::
  "run \<Rightarrow> string \<Rightarrow> nat option \<Rightarrow> found \<Rightarrow> bool \<Rightarrow> (nat \<times> string list) option" where
  "raisedSyncHalts run name prior found hasSyncHalt =
     (let w = (case prior of Some p \<Rightarrow> p | None \<Rightarrow> 0) in
      if \<not> hasSyncHalt then Some (0, if prior \<noteq> None then [name @ ''.sync_halt''] else [])
      else if (case f_sync_wm found of Some s \<Rightarrow> s | None \<Rightarrow> 0) < w then Some (0, [name @ ''.sync_halt''])
      else map_option (\<lambda>n. (n, [])) (readCount run (SyncHaltsSince name w)))"

definition readRaisedInWindow :: "run \<Rightarrow> string \<Rightarrow> watermark \<Rightarrow> found \<Rightarrow> bool \<Rightarrow> raised option" where
  "readRaisedInWindow run name since found hasSyncHalt = do {
     priorEvents \<leftarrow> assertWatermark (wm_events since);
     (reorg, bad1) \<leftarrow> raisedEvents run name priorEvents found;
     priorSync \<leftarrow> assertWatermark (wm_sync since);
     (sync, bad2) \<leftarrow> raisedSyncHalts run name priorSync found hasSyncHalt;
     Some \<lparr>r_reorg = reorg, r_sync = sync, r_unreadable = bad1 @ bad2\<rparr> }"

definition probeDatabase :: "run \<Rightarrow> string \<Rightarrow> watermark option \<Rightarrow> found option" where
  "probeDatabase run name since = do {
     (found, hasSyncHalt) \<leftarrow> readLiveMarkers run name;
     (case since of
        None \<Rightarrow> Some found
      | Some w \<Rightarrow> map_option (\<lambda>r. found\<lparr>f_raised := Some r\<rparr>) (readRaisedInWindow run name w found hasSyncHalt)) }"

section \<open>The gate\<close>

datatype exec_cmd = HealthRpc string | GetStatus string

text \<open>
  What the gate reads: the two environment variables, the container registry, \<open>docker
  inspect\<close>, the module's configuration (its API port and the configured database names),
  \<open>docker exec\<close> of the two status probes, the SQL client, and the clock.
\<close>

record gate_env =
  g_skip :: "string option"
  g_max_lag :: "string option"
  g_container :: "string option option"
  g_inspect :: "string \<Rightarrow> string option"
  g_config :: "(string \<rightharpoonup> string) option"
  g_exec :: "string \<Rightarrow> exec_cmd \<Rightarrow> string option"
  g_sql :: run
  g_now :: rat

text \<open>What does not change between two readings: the node and the module, and \<open>Date.parse\<close>.\<close>

record gate_target =
  tg_sha :: "string \<Rightarrow> string"
  tg_prefix :: string
  tg_coin :: string
  tg_network :: string
  tg_module :: string
  tg_date :: date_ms

definition MODULE_API_PORT_KEY :: "string \<Rightarrow> string option" where
  "MODULE_API_PORT_KEY m = map_of [(XCHAIN_DECODER, ''DECODER_API_PORT''), (XCHAIN_INDEXER, ''INDEXER_API_PORT''),
     (XCHAIN_UTXO_TRACKER, ''UTXO_TRACKER_API_PORT'')] m"

definition MARIADB_MODULES :: "string list" where
  "MARIADB_MODULES = [XCHAIN_DECODER, XCHAIN_INDEXER]"

definition gateSkipped :: "string option \<Rightarrow> bool" where
  "gateSkipped v = (case v of
     None \<Rightarrow> False
   | Some s \<Rightarrow> to_lower (trim s) = ''1'' \<or> to_lower (trim s) = ''true'' \<or> to_lower (trim s) = ''yes'')"

definition maxLagBlocks :: "string option \<Rightarrow> rat" where
  "maxLagBlocks v = (case parse_int_num v of
     Fin r \<Rightarrow> if 0 \<le> r then r else DEFAULT_MAX_LAG_BLOCKS
   | _ \<Rightarrow> DEFAULT_MAX_LAG_BLOCKS)"

text \<open>
  One attempt: \<open>None\<close> falls through to the next one (the exec failed, the body is not
  JSON, or it is an error envelope without a result).
\<close>

definition read_attempt :: "string option \<Rightarrow> json option" where
  "read_attempt out = do {
     body \<leftarrow> out;
     p \<leftarrow> json_parse (trim body);
     (if truthy_opt (field p ''error'') \<and> field p ''result'' = None then None
      else Some (case field p ''result'' of Some r \<Rightarrow> r | None \<Rightarrow> p)) }"

definition probeServiceStatus :: "(exec_cmd \<Rightarrow> string option) \<Rightarrow> string \<Rightarrow> json option" where
  "probeServiceStatus exec port = (case read_attempt (exec (HealthRpc port)) of
     Some p \<Rightarrow> Some p
   | None \<Rightarrow> read_attempt (exec (GetStatus port)))"

definition containerStateReasons :: "gate_target \<Rightarrow> gate_env \<Rightarrow> string option \<times> reason list" where
  "containerStateReasons tg g =
     (let cid = (case g_container g of Some (Some c) \<Rightarrow> if c = [] then None else Some c | _ \<Rightarrow> None);
          lookup = (if g_container g = None then [LookupFailed] else [])
      in (cid, lookup @ (case cid of
            None \<Rightarrow> [NotRegistered]
          | Some c \<Rightarrow> (case g_inspect g c of
                None \<Rightarrow> [InspectFailed]
              | Some out \<Rightarrow> evaluateContainerState (tg_date tg) out (g_now g)))))"

definition healthSurfaceReasons :: "gate_target \<Rightarrow> gate_env \<Rightarrow> string \<Rightarrow> reason list" where
  "healthSurfaceReasons tg g cid =
     (let port = (case (g_config g, MODULE_API_PORT_KEY (tg_module tg)) of
            (Some cfg, Some k) \<Rightarrow> (case cfg k of Some v \<Rightarrow> if v = [] then None else Some v | None \<Rightarrow> None)
          | _ \<Rightarrow> None)
      in (if g_config g = None then [PortUnresolved] else [])
       @ (case port of
            None \<Rightarrow> [NoPort]
          | Some pt \<Rightarrow> (case probeServiceStatus (g_exec g cid) pt of
                None \<Rightarrow> [ProbeFailed]
              | Some payload \<Rightarrow> evaluateStatusPayload payload (maxLagBlocks (g_max_lag g)))))"

definition markerDatabaseName :: "gate_target \<Rightarrow> (string \<rightharpoonup> string) \<Rightarrow> string \<Rightarrow> string option" where
  "markerDatabaseName tg cfg md = do {
     dflt \<leftarrow> getModuleDatabaseName (tg_sha tg) (tg_prefix tg) md (tg_coin tg) (tg_network tg);
     configuredDatabaseName md cfg dflt }"

definition probeNamed ::
  "gate_target \<Rightarrow> run \<Rightarrow> (string \<rightharpoonup> string) \<Rightarrow> string \<Rightarrow> watermark option \<Rightarrow> found option" where
  "probeNamed tg run cfg md since = do {
     n \<leftarrow> markerDatabaseName tg cfg md;
     name \<leftarrow> assertDbName n;
     probeDatabase run name since }"

text \<open>The watermark pair handed from one reading to the next; a null one is \<open>None\<close>.\<close>

record watermarks =
  w_own :: watermark
  w_upstream :: "watermark option"

definition readHaltMarkers ::
  "gate_target \<Rightarrow> gate_env \<Rightarrow> watermarks option \<Rightarrow> (found \<times> found option) option" where
  "readHaltMarkers tg g since = do {
     cfg \<leftarrow> g_config g;
     own \<leftarrow> probeNamed tg (g_sql g) cfg (tg_module tg) (map_option w_own since);
     (if tg_module tg = XCHAIN_INDEXER then
        map_option (\<lambda>u. (own, Some u))
          (probeNamed tg (g_sql g) cfg XCHAIN_DECODER (Option.bind since w_upstream))
      else Some (own, None)) }"

definition windowReasons :: "raised option \<Rightarrow> reason list" where
  "windowReasons r = (case r of
     None \<Rightarrow> []
   | Some r \<Rightarrow> (if 0 < r_reorg r then [RaisedReorgHalt] else [])
       @ (if 0 < r_sync r then [RaisedSyncHalt] else [])
       @ map WindowUnreadable (r_unreadable r))"

text \<open>The reasons of one database; the flag says it is the paired decoder's.\<close>

definition liveReasons :: "bool \<Rightarrow> found \<Rightarrow> reason list" where
  "liveReasons up f = (if 0 < f_reorg f then [MarkerReorgHalt up] else [])
     @ (if 0 < f_sync f then [MarkerSyncHalt up] else [])
     @ (if 0 < f_pending f then [MarkerPendingSync up] else [])
     @ (if 0 < f_guard f then [MarkerRollbackGuard up] else [])"

definition watermark_of :: "found \<Rightarrow> watermark" where
  "watermark_of f = \<lparr>wm_events = Some (Fin (of_nat (f_events_wm f))),
     wm_sync = map_option (\<lambda>n. Fin (of_nat n)) (f_sync_wm f)\<rparr>"

definition haltMarkerReasons ::
  "gate_target \<Rightarrow> gate_env \<Rightarrow> watermarks option \<Rightarrow> watermarks option \<times> reason list" where
  "haltMarkerReasons tg g since = (case readHaltMarkers tg g since of
     None \<Rightarrow> (None, [MarkersUnreadable])
   | Some (own, up) \<Rightarrow>
       (Some \<lparr>w_own = watermark_of own, w_upstream = map_option watermark_of up\<rparr>,
        windowReasons (f_raised own)
        @ (case up of Some u \<Rightarrow> windowReasons (f_raised u) | None \<Rightarrow> [])
        @ liveReasons False own
        @ (case up of Some u \<Rightarrow> liveReasons True u | None \<Rightarrow> [])))"

record gate_result =
  gr_skipped :: bool
  gr_watermark :: "watermarks option"

definition assertBootstrapSourceHealthy ::
  "gate_target \<Rightarrow> gate_env \<Rightarrow> watermarks option \<Rightarrow> reason list + gate_result" where
  "assertBootstrapSourceHealthy tg g since =
     (if gateSkipped (g_skip g) then Inr \<lparr>gr_skipped = True, gr_watermark = None\<rparr>
      else (let (cid, r1) = containerStateReasons tg g;
                r2 = (case cid of Some c \<Rightarrow> healthSurfaceReasons tg g c | None \<Rightarrow> []);
                (wm, r3) = (if tg_module tg \<in> set MARIADB_MODULES then haltMarkerReasons tg g since else (None, []));
                reasons = r1 @ r2 @ r3
            in if reasons \<noteq> [] then Inl reasons else Inr \<lparr>gr_skipped = False, gr_watermark = wm\<rparr>))"

text \<open>
  \<open>makeBootstrap\<close> of a MariaDB module: the gate, the dump (\<open>None\<close> when mariadb-dump
  fails), the gate again with the watermark of the first reading, and only then the archive.
\<close>

datatype 'a publish = Refused "reason list" | DumpFailed | DiscardedAfterDump "reason list" | Published 'a

definition assertMariaSourceStayedHealthy ::
  "gate_target \<Rightarrow> gate_env \<Rightarrow> watermarks option \<Rightarrow> 'a \<Rightarrow> 'a publish" where
  "assertMariaSourceStayedHealthy tg g wm dump = (case assertBootstrapSourceHealthy tg g wm of
     Inl rs \<Rightarrow> DiscardedAfterDump rs
   | Inr _ \<Rightarrow> Published dump)"

definition makeBootstrapMariaDb ::
  "gate_target \<Rightarrow> gate_env \<Rightarrow> watermarks option \<Rightarrow> 'a option \<Rightarrow> 'a publish" where
  "makeBootstrapMariaDb tg post wm dump = (case dump of
     None \<Rightarrow> DumpFailed
   | Some d \<Rightarrow> assertMariaSourceStayedHealthy tg post wm d)"

definition makeBootstrap :: "gate_target \<Rightarrow> gate_env \<Rightarrow> 'a option \<Rightarrow> gate_env \<Rightarrow> 'a publish" where
  "makeBootstrap tg pre dump post = (case assertBootstrapSourceHealthy tg pre None of
     Inl rs \<Rightarrow> Refused rs
   | Inr ok \<Rightarrow> makeBootstrapMariaDb tg post (gr_watermark ok) dump)"

section \<open>What a passing reading shows\<close>

lemma assertDbName_eq [simp]: "assertDbName n = assertSafeDbIdentifier n"
  by (simp add: assertDbName_def assertSafeDbIdentifier_def)

lemma passing_gate:
  assumes "assertBootstrapSourceHealthy tg g since = Inr res" and "\<not> gateSkipped (g_skip g)"
  shows "snd (containerStateReasons tg g) = []
       \<and> (\<forall>c. fst (containerStateReasons tg g) = Some c \<longrightarrow> healthSurfaceReasons tg g c = [])
       \<and> (tg_module tg \<in> set MARIADB_MODULES \<longrightarrow> snd (haltMarkerReasons tg g since) = []
            \<and> gr_watermark res = fst (haltMarkerReasons tg g since))
       \<and> \<not> gr_skipped res"
  using assms by (auto simp: assertBootstrapSourceHealthy_def Let_def split: prod.splits if_splits)

lemma passing_container:
  assumes "snd (containerStateReasons tg g) = []"
  shows "\<exists>c out. g_container g = Some (Some c) \<and> fst (containerStateReasons tg g) = Some c
           \<and> g_inspect g c = Some out \<and> evaluateContainerState (tg_date tg) out (g_now g) = []"
  using assms by (auto simp: containerStateReasons_def Let_def split: option.splits if_splits)

lemma passing_surface:
  assumes "healthSurfaceReasons tg g c = []"
  shows "\<exists>port payload. probeServiceStatus (g_exec g c) port = Some payload
           \<and> evaluateStatusPayload payload (maxLagBlocks (g_max_lag g)) = []"
  using assms by (auto simp: healthSurfaceReasons_def Let_def split: option.splits if_splits)

lemma passing_markers:
  assumes "snd (haltMarkerReasons tg g since) = []"
  shows "\<exists>own up. readHaltMarkers tg g since = Some (own, up)
           \<and> windowReasons (f_raised own) = [] \<and> liveReasons False own = []
           \<and> fst (haltMarkerReasons tg g since) = Some \<lparr>w_own = watermark_of own, w_upstream = map_option watermark_of up\<rparr>
           \<and> (\<forall>u. up = Some u \<longrightarrow> windowReasons (f_raised u) = [] \<and> liveReasons True u = [])"
  using assms by (auto simp: haltMarkerReasons_def split: option.splits prod.splits)

lemma liveReasons_Nil: "liveReasons up f = [] \<longleftrightarrow> f_reorg f = 0 \<and> f_sync f = 0 \<and> f_pending f = 0 \<and> f_guard f = 0"
  by (simp add: liveReasons_def)

lemma windowReasons_Nil:
  "windowReasons (Some r) = [] \<longleftrightarrow> r_reorg r = 0 \<and> r_sync r = 0 \<and> r_unreadable r = []"
  by (simp add: windowReasons_def)

section \<open>Reading faithful answers\<close>

text \<open>
  On answers printed by the database the parsers return exactly the values the statements
  count.
\<close>

definition clean :: "string \<Rightarrow> bool" where
  "clean s = list_all (\<lambda>c. c \<noteq> CHR 0x09 \<and> c \<noteq> CHR 0x0A \<and> c \<noteq> CHR 0x0D) s"

definition newest_clear_bad :: "event_row list \<Rightarrow> nat" where
  "newest_clear_bad es = (case newestReorgClearSql es of
     [] \<Rightarrow> 0
   | e # _ \<Rightarrow> if isAuditedClear (Option.bind (ev_data e) json_parse) then 0 else 1)"

definition guard_bad :: "(string \<times> string option) list \<Rightarrow> nat" where
  "guard_bad st = length (filter (\<lambda>v. case v of None \<Rightarrow> False | Some s \<Rightarrow> \<not> isValidRollbackGuardState s)
     (rollbackGuardStateSql st))"

lemma chomp_line: "clean (x @ b) \<Longrightarrow> chomp (x @ CHR 0x09 # b @ [CHR 0x0A]) = x @ CHR 0x09 # b"
  by (cases b rule: rev_cases) (auto simp: chomp_def clean_def split: list.splits)

lemma two_fields:
  assumes "clean a" "clean b"
  shows "split_on (CHR 0x09) (chomp (line_of [a, b])) = [a, b]"
proof -
  have "CHR 0x09 \<notin> set a" "CHR 0x09 \<notin> set b"
    using assms by (auto simp: clean_def list_all_iff)
  then show ?thesis
    using assms chomp_line [of a b] by (simp add: line_of_def clean_def split_on_append split_on_none)
qed

lemma digits_clean: "list_all is_digit ds \<Longrightarrow> clean ds"
  by (auto simp: clean_def list_all_iff is_digit_def char_code_def)

lemma hex_digit_upper: "list_all upper_hex_digit (hex_encode s)"
  using hex_encode_pairs [of s] by (simp add: upper_hex_pairs_def)

lemma upper_hex_digit_facts:
  "upper_hex_digit c \<Longrightarrow> c \<noteq> CHR 0x09 \<and> c \<noteq> CHR 0x0A \<and> c \<noteq> CHR 0x0D \<and> c \<noteq> CHR ''N'' \<and> c \<noteq> CHR '',''"
  by (auto simp: upper_hex_digit_def is_digit_def char_code_def)

lemma hex_clean: "clean (hex_encode s)"
  using hex_digit_upper [of s] upper_hex_digit_facts by (fastforce simp: clean_def list_all_iff)

lemma hex_not_NULL: "hex_encode s \<noteq> ''NULL''"
proof
  assume "hex_encode s = ''NULL''"
  then show False using hex_digit_upper [of s] by (simp add: upper_hex_digit_def is_digit_def char_code_def)
qed

lemma show_nat_word: "list_all (\<lambda>c. \<not> is_ws c) (show_nat n)"
  by (rule digits_no_ws) (rule show_nat_digits)

lemma count_line [simp]: "parseCountTokens (line_of [show_nat n]) 1 None = Some [n]"
proof -
  have "tokens (show_nat n @ [CHR 0x0A]) = [show_nat n]"
    using tokens_word_sep [OF show_nat_word, of n "CHR 0x0A" "[]"]
    by (simp add: is_ws_def) (simp add: tokens_def)
  then show ?thesis
    by (simp add: parseCountTokens_def line_of_def show_nat_digits Let_def)
qed

lemma readCount_line [simp]: "run q = Some (line_of [show_nat n]) \<Longrightarrow> readCount run q = Some n"
  using count_line [of n] by (simp add: readCount_def)

lemma marker_line [simp]:
  "parseCountTokens (marker_tables_line T) 3 (Some 1)
     = Some [of_bool (t_events T \<noteq> None), of_bool (t_sync_halt T \<noteq> None), of_bool (t_sync_state T \<noteq> None)]"
  by (cases "t_events T"; cases "t_sync_halt T"; cases "t_sync_state T")
    (simp_all add: marker_tables_line_def bit_text_def line_of_def parseCountTokens_def tokens_def
      is_ws_def is_digit_def char_code_def decimal_nat_def nat_of_digits_def digit_val_def Let_def)

declare marker_line [unfolded One_nat_def, simp] count_line [unfolded One_nat_def, simp]

lemma json_parse_Nil [simp]: "json_parse [] = None"
  by (simp add: json_parse_def skip_ws_def)

lemma isAuditedClear_None [simp]: "\<not> isAuditedClear None"
  by (simp add: isAuditedClear_def)

lemma newest_clear_read [simp]:
  assumes "nul = ''NULL'' \<or> nul = []"
  shows "parseNewestClear (newest_clear_line nul es) = Some (newest_clear_bad es)"
proof -
  have nul: "clean nul" "null_as_empty nul = []"
    using assms by (auto simp: clean_def null_as_empty_def)
  have hex: "null_as_empty (hex_encode d) = hex_encode d" for d
    by (simp add: null_as_empty_def hex_not_NULL)
  have c01: "clean ''0''" "clean ''1''" by (simp_all add: clean_def)
  show ?thesis
    using nul hex c01
    by (auto simp: parseNewestClear_def newest_clear_line_def newest_clear_bad_def two_fields hex_clean
        upper_hex_pairs_def [of "[]"] Let_def split: list.splits option.splits)
qed

lemma guard_token_facts:
  "guard_token v \<noteq> []" "CHR '','' \<notin> set (guard_token v)" "clean (guard_token v)" "guard_token_ok (guard_token v)"
  "guard_token v \<noteq> ''NULL''"
  using hex_digit_upper upper_hex_digit_facts
  by (auto simp: guard_token_def guard_token_ok_def clean_def list_all_iff split: option.splits)

lemma guard_token_invalid_iff:
  "guard_token_invalid (guard_token v) = (case v of None \<Rightarrow> False | Some s \<Rightarrow> \<not> isValidRollbackGuardState s)"
  by (auto simp: guard_token_invalid_def guard_token_def split: option.splits)

lemma split_join: "ts \<noteq> [] \<Longrightarrow> \<forall>t\<in>set ts. CHR '','' \<notin> set t \<Longrightarrow> split_on (CHR '','') (join_comma ts) = ts"
  by (induction ts rule: join_comma.induct) (auto simp: split_on_none split_on_append)

lemma join_clean: "\<forall>t\<in>set ts. clean t \<Longrightarrow> clean (join_comma ts)"
  by (induction ts rule: join_comma.induct) (auto simp: clean_def)

lemma join_not_special:
  "join_comma (map guard_token vs) = [] \<longleftrightarrow> vs = []" "join_comma (map guard_token vs) \<noteq> ''NULL''"
proof -
  have comma: "join_comma (t # u # ts) \<noteq> ''NULL''" for t u ts
  proof
    assume "join_comma (t # u # ts) = ''NULL''"
    moreover have "CHR '','' \<in> set (join_comma (t # u # ts))" by simp
    ultimately show False by (simp only: list.set insert_iff empty_iff) simp
  qed
  show "join_comma (map guard_token vs) \<noteq> ''NULL''"
  proof (cases vs)
    case (Cons v r)
    then show ?thesis
      using comma [of "guard_token v" "guard_token (hd r)" "map guard_token (tl r)"]
      by (cases r) (auto simp: guard_token_facts)
  qed simp
  show "join_comma (map guard_token vs) = [] \<longleftrightarrow> vs = []"
    by (cases vs; cases "tl vs") (auto simp: guard_token_facts)
qed

lemma guard_read [simp]:
  assumes "length (rollbackGuardStateSql st) < 2 ^ 53"
  shows "parseRollbackGuardRows (guard_line st) = Some (guard_bad st)"
proof -
  let ?vs = "rollbackGuardStateSql st"
  let ?j = "join_comma (map guard_token ?vs)"
  have j: "clean ?j" "null_as_empty ?j = ?j"
    using join_clean [of "map guard_token ?vs"] join_not_special(2) [of ?vs]
    by (auto simp: null_as_empty_def guard_token_facts)
  have ts: "(if ?j = [] then [] else split_on (CHR '','') ?j) = map guard_token ?vs"
    using split_join [of "map guard_token ?vs"] join_not_special(1) [of ?vs] by (auto simp: guard_token_facts)
  have ok: "list_all guard_token_ok (map guard_token ?vs)"
    by (auto simp: list_all_iff guard_token_facts)
  have bad: "length (filter guard_token_invalid (map guard_token ?vs)) = guard_bad st"
    by (simp add: guard_bad_def filter_map comp_def guard_token_invalid_iff cong: filter_cong)
  have parts: "split_on (CHR 0x09) (chomp (guard_line st)) = [show_nat (length ?vs), ?j]"
    using j by (simp add: guard_line_def two_fields digits_clean show_nat_digits)
  show ?thesis
    using assms ok bad unfolding parseRollbackGuardRows_def parts
    by (simp add: j(2) ts show_nat_digits del: if_split)
qed

section \<open>The probe reads the tables\<close>

definition count_opt :: "('a \<Rightarrow> nat) \<Rightarrow> 'a option \<Rightarrow> nat" where
  "count_opt f v = (case v of Some x \<Rightarrow> f x | None \<Rightarrow> 0)"

text \<open>The values a reading of the tables \<open>T\<close> stands for.\<close>

definition tables_found :: "tables \<Rightarrow> event_row list \<Rightarrow> found" where
  "tables_found T es = \<lparr>
     f_reorg = liveReorgHaltCountSql es + newest_clear_bad es,
     f_sync = count_opt liveSyncHaltCountSql (t_sync_halt T),
     f_pending = count_opt pendingSyncHaltCountSql (t_sync_state T),
     f_guard = count_opt guard_bad (t_sync_state T),
     f_events_wm = eventsWatermarkSql es,
     f_sync_wm = map_option syncHaltWatermarkSql (t_sync_halt T),
     f_raised = None\<rparr>"

definition guard_rows_fit :: "tables \<Rightarrow> bool" where
  "guard_rows_fit T = (count_opt (length o rollbackGuardStateSql) (t_sync_state T) < 2 ^ 53)"

definition null_text :: "string \<Rightarrow> bool" where
  "null_text nul = (nul = ''NULL'' \<or> nul = [])"

lemma readLiveMarkers_tables:
  assumes "null_text nul" "t_events (dbs name) = Some es" "guard_rows_fit (dbs name)"
  shows "readLiveMarkers (sql_answer nul dbs) name = Some (tables_found (dbs name) es, t_sync_halt (dbs name) \<noteq> None)"
  using assms
  by (cases "t_sync_halt (dbs name)"; cases "t_sync_state (dbs name)")
    (simp_all add: readLiveMarkers_def readHaltCounts_def tables_found_def count_opt_def null_text_def
      guard_rows_fit_def)

text \<open>
  C7. On what MariaDB prints for the marker tables, the probe returns exactly the counts
  the statements stand for: the live REORG_HALT rows plus one when the newest clear row has
  no audited reason, the uncleared and the pending sync halts, the invalid rollback guards,
  and the two watermarks. A NULL may be printed either way the two clients do.
\<close>

theorem probe_reads_tables:
  assumes "null_text nul" "t_events (dbs name) = Some es" "guard_rows_fit (dbs name)"
  shows "probeDatabase (sql_answer nul dbs) name None = Some (tables_found (dbs name) es)"
  using readLiveMarkers_tables [of nul dbs name es] assms by (simp add: probeDatabase_def)

definition demo_tables :: tables where
  "demo_tables = \<lparr>
     t_events = Some [\<lparr>ev_id = 4, ev_code = ''REORG_HALT'', ev_data = None\<rparr>,
                      \<lparr>ev_id = 9, ev_code = ''REORG_HALT_CLEARED'', ev_data = Some ''{}''\<rparr>],
     t_sync_halt = Some [\<lparr>sh_id = 1, sh_cleared = False\<rparr>],
     t_sync_state = Some [(''halt_pending:indexer'', Some ''x''), (''rollback_guard:indexer'', Some ''nope'')]\<rparr>"

lemma demo_tables_found:
  "f_reorg (tables_found demo_tables (the (t_events demo_tables))) = 1"
  "f_guard (tables_found demo_tables (the (t_events demo_tables))) = 1"
  by (simp_all add: demo_tables_def tables_found_def liveReorgHaltCountSql_def newest_clear_bad_def
      newestReorgClearSql_def ids_with_def max_id_def halt_codes_def isAuditedClear_def field_def JsPrelude.fields_def
      count_opt_def guard_bad_def rollbackGuardStateSql_def isValidRollbackGuardState_def json_parse_eval
      AList.update.simps)

theorem probe_reads_tables_witness:
  "\<exists>f. probeDatabase (sql_answer ''NULL'' (\<lambda>_. demo_tables)) ''XChain_BTC'' None = Some f
     \<and> f_reorg f = 1 \<and> f_guard f = 1"
proof -
  have "t_events ((\<lambda>_. demo_tables) ''XChain_BTC'') = Some (the (t_events demo_tables))"
    by (simp add: demo_tables_def)
  moreover have "guard_rows_fit ((\<lambda>_. demo_tables) ''XChain_BTC'')"
    by (simp add: demo_tables_def guard_rows_fit_def count_opt_def rollbackGuardStateSql_def)
  ultimately show ?thesis
    using probe_reads_tables [of "''NULL''" "\<lambda>_. demo_tables" "''XChain_BTC''" "the (t_events demo_tables)"]
      demo_tables_found by (simp add: null_text_def)
qed

section \<open>The dump window\<close>

definition list_opt :: "'a list option \<Rightarrow> 'a list" where
  "list_opt v = (case v of Some xs \<Rightarrow> xs | None \<Rightarrow> [])"

text \<open>
  How the marker tables evolve (the contract the statements rely on): events are appended
  with growing ids, halt rows are never deleted; a sync halt row keeps its place and its id,
  and a cleared one stays cleared.
\<close>

fun events_grow :: "event_row list option \<Rightarrow> event_row list option \<Rightarrow> bool" where
  "events_grow (Some a) (Some b) = prefix a b"
| "events_grow (Some _) None = False"
| "events_grow None _ = True"

definition sync_kept :: "sync_row list \<Rightarrow> sync_row list \<Rightarrow> bool" where
  "sync_kept a b = (length a \<le> length b
     \<and> list_all2 (\<lambda>x y. sh_id x = sh_id y \<and> (sh_cleared x \<longrightarrow> sh_cleared y)) a (take (length a) b))"

fun sync_grow :: "sync_row list option \<Rightarrow> sync_row list option \<Rightarrow> bool" where
  "sync_grow (Some a) (Some b) = sync_kept a b"
| "sync_grow (Some _) None = False"
| "sync_grow None _ = True"

definition id_ordered :: "nat list \<Rightarrow> bool" where
  "id_ordered ids = (sorted_wrt (<) ids \<and> list_all (\<lambda>i. 0 < i) ids)"

definition tables_grow :: "tables \<Rightarrow> tables \<Rightarrow> bool" where
  "tables_grow A B = (events_grow (t_events A) (t_events B) \<and> sync_grow (t_sync_halt A) (t_sync_halt B))"

definition tables_ordered :: "tables \<Rightarrow> bool" where
  "tables_ordered T = (id_ordered (map ev_id (list_opt (t_events T)))
     \<and> id_ordered (map sh_id (list_opt (t_sync_halt T))))"

lemma max_id_less: "list_all (\<lambda>i. i < n) ids \<Longrightarrow> 0 < n \<Longrightarrow> max_id ids < n"
proof -
  have "list_all (\<lambda>i. i < n) ids \<Longrightarrow> m < n \<Longrightarrow> fold max ids m < n" for m
    by (induction ids arbitrary: m) auto
  then show "list_all (\<lambda>i. i < n) ids \<Longrightarrow> 0 < n \<Longrightarrow> max_id ids < n"
    by (simp add: max_id_def)
qed

lemma id_ordered_append:
  assumes "id_ordered (xs @ ys)" "i \<in> set ys"
  shows "max_id xs < i"
  using assms by (intro max_id_less) (auto simp: id_ordered_def sorted_wrt_append list_all_iff)

lemma filter_snoc_Nil: "filter P ys = [] \<Longrightarrow> filter P (xs @ ys) = filter P xs"
  by simp

text \<open>No halt row since the watermark: the window added none, so earlier and later readings agree.\<close>

lemma no_halts_in_window:
  assumes grow: "prefix es0 es1" "prefix es1 es2" and ord: "id_ordered (map ev_id es2)"
    and none: "reorgHaltsSinceSql es2 (eventsWatermarkSql es0) = 0"
  shows "\<exists>xs. es1 = es0 @ xs \<and> list_all (\<lambda>e. ev_code e \<notin> set halt_codes) xs"
proof -
  obtain xs ys where es: "es1 = es0 @ xs" "es2 = es0 @ xs @ ys"
    using grow by (auto simp: prefix_def)
  have "ev_code e \<notin> set halt_codes" if "e \<in> set xs" for e
  proof -
    have "eventsWatermarkSql es0 < ev_id e"
      using id_ordered_append [of "map ev_id es0" "map ev_id (xs @ ys)" "ev_id e"] ord that es
      by (simp add: eventsWatermarkSql_def)
    then show ?thesis
      using none that es by (auto simp: reorgHaltsSinceSql_def filter_empty_conv)
  qed
  then show ?thesis using es(1) by (auto simp: list_all_iff)
qed

lemma halt_free_tail:
  assumes "list_all (\<lambda>e. ev_code e \<notin> set halt_codes) xs"
  shows "liveReorgHaltCountSql (es @ xs) = liveReorgHaltCountSql es"
    and "newestReorgClearSql (es @ xs) = newestReorgClearSql es"
proof -
  have codes: "ids_with cs (es @ xs) = ids_with cs es" if "set cs \<subseteq> set halt_codes" for cs
    using assms that by (auto simp: ids_with_def list_all_iff filter_empty_conv)
  have ids: "ids_with [''REORG_HALT_CLEARED''] (es @ xs) = ids_with [''REORG_HALT_CLEARED''] es"
    "ids_with halt_codes (es @ xs) = ids_with halt_codes es"
    using codes by (simp_all add: halt_codes_def)
  show "liveReorgHaltCountSql (es @ xs) = liveReorgHaltCountSql es"
    using assms unfolding liveReorgHaltCountSql_def ids
    by (auto simp: list_all_iff filter_empty_conv halt_codes_def)
  show "newestReorgClearSql (es @ xs) = newestReorgClearSql es"
    using assms unfolding newestReorgClearSql_def ids
    by (auto simp: list_all_iff filter_empty_conv halt_codes_def)
qed

text \<open>No sync halt row since the watermark and none live before: none is live in between.\<close>

lemma no_sync_halts_in_window:
  assumes kept: "sync_kept hs0 hs1" "sync_kept hs1 hs2" and ord: "id_ordered (map sh_id hs2)"
    and none: "syncHaltsSinceSql hs2 (syncHaltWatermarkSql hs0) = 0"
    and clear: "liveSyncHaltCountSql hs0 = 0"
  shows "liveSyncHaltCountSql hs1 = 0"
proof -
  have len: "length hs0 \<le> length hs1" "length hs1 \<le> length hs2"
    using kept by (auto simp: sync_kept_def)
  have id12: "sh_id (hs1 ! i) = sh_id (hs2 ! i)" if "i < length hs1" for i
    using kept(2) that len by (auto simp: sync_kept_def list_all2_conv_all_nth)
  have id01: "sh_id (hs0 ! i) = sh_id (hs1 ! i)" "sh_cleared (hs0 ! i) \<longrightarrow> sh_cleared (hs1 ! i)" if "i < length hs0" for i
    using kept(1) that len by (auto simp: sync_kept_def list_all2_conv_all_nth)
  have ids: "map sh_id hs2 = map sh_id hs0 @ map sh_id (drop (length hs0) hs2)"
  proof -
    have "map sh_id (take (length hs0) hs2) = map sh_id hs0"
      using len id01 id12 by (intro nth_equalityI) auto
    then show ?thesis by (metis append_take_drop_id map_append)
  qed
  have "length hs2 \<le> length hs0"
  proof (rule ccontr)
    assume "\<not> length hs2 \<le> length hs0"
    then have "drop (length hs0) hs2 \<noteq> []" by simp
    then obtain h where h: "h \<in> set (drop (length hs0) hs2)" by (meson list.set_sel(1))
    then have "syncHaltWatermarkSql hs0 < sh_id h"
      using ord ids id_ordered_append [of "map sh_id hs0" "map sh_id (drop (length hs0) hs2)" "sh_id h"]
      by (simp add: syncHaltWatermarkSql_def)
    then show False
      using none in_set_dropD [OF h] by (auto simp: syncHaltsSinceSql_def filter_empty_conv)
  qed
  then have "length hs1 = length hs0" using len by simp
  moreover have "sh_cleared (hs0 ! i)" if "i < length hs0" for i
    using clear that by (auto simp: liveSyncHaltCountSql_def filter_empty_conv)
  ultimately have "sh_cleared h" if "h \<in> set hs1" for h
    using that id01(2) by (metis in_set_conv_nth)
  then show ?thesis by (auto simp: liveSyncHaltCountSql_def filter_empty_conv)
qed

lemma assertWatermark_nat [simp]:
  "assertWatermark (Some (Fin (of_nat n))) = Some (Some n)"
  "assertWatermark None = Some None"
  by (simp_all add: assertWatermark_def)

text \<open>A post-dump probe that reports nothing, over the tables it reads.\<close>

lemma quiet_window_events:
  assumes since: "since = watermark_of (tables_found T0 es0)"
    and probe: "probeDatabase (sql_answer nul dbs) name (Some since) = Some f"
    and quiet: "windowReasons (f_raised f) = []"
    and es2: "t_events (dbs name) = Some es2"
  shows "reorgHaltsSinceSql es2 (eventsWatermarkSql es0) = 0"
proof -
  from probe obtain fd hs r where live: "readLiveMarkers (sql_answer nul dbs) name = Some (fd, hs)"
    and r: "readRaisedInWindow (sql_answer nul dbs) name since fd hs = Some r" and f: "f_raised f = Some r"
    by (auto simp: probeDatabase_def bind_eq_Some_conv)
  have q: "r_reorg r = 0" "r_unreadable r = []"
    using quiet f by (auto simp: windowReasons_Nil)
  let ?w = "eventsWatermarkSql es0"
  from r obtain n b m b2 where ev: "raisedEvents (sql_answer nul dbs) name (Some ?w) fd = Some (n, b)"
    and rr: "r_reorg r = n" "r_unreadable r = b @ b2"
    unfolding since readRaisedInWindow_def
    by (auto simp: bind_eq_Some_conv watermark_of_def tables_found_def split: prod.splits)
  have cnt: "readCount (sql_answer nul dbs) (ReorgHaltsSince name ?w) = Some (reorgHaltsSinceSql es2 ?w)"
    using es2 by simp
  show ?thesis
    using ev q rr cnt unfolding raisedEvents_def by (auto split: if_splits)
qed

lemma quiet_window_sync:
  assumes since: "since = watermark_of (tables_found T0 es0)"
    and probe: "probeDatabase (sql_answer nul dbs) name (Some since) = Some f"
    and quiet: "windowReasons (f_raised f) = []"
    and es2: "t_events (dbs name) = Some es2" and sh2: "t_sync_halt (dbs name) = Some hs2"
    and fit: "null_text nul" "guard_rows_fit (dbs name)"
  shows "syncHaltsSinceSql hs2 (count_opt syncHaltWatermarkSql (t_sync_halt T0)) = 0"
proof -
  from probe obtain fd hs r where live: "readLiveMarkers (sql_answer nul dbs) name = Some (fd, hs)"
    and r: "readRaisedInWindow (sql_answer nul dbs) name since fd hs = Some r" and f: "f_raised f = Some r"
    by (auto simp: probeDatabase_def bind_eq_Some_conv)
  have fd: "fd = tables_found (dbs name) es2" "hs"
    using live readLiveMarkers_tables [of nul dbs name es2] fit es2 sh2 by auto
  have q: "r_sync r = 0" "r_unreadable r = []"
    using quiet f by (auto simp: windowReasons_Nil)
  let ?p = "map_option syncHaltWatermarkSql (t_sync_halt T0)"
  let ?w = "count_opt syncHaltWatermarkSql (t_sync_halt T0)"
  have w: "(case ?p of Some p \<Rightarrow> p | None \<Rightarrow> 0) = ?w"
    by (cases "t_sync_halt T0") (simp_all add: count_opt_def)
  have prior: "assertWatermark (wm_sync since) = Some ?p"
    by (cases "t_sync_halt T0") (simp_all add: since watermark_of_def tables_found_def)
  from r prior obtain n b b1 where sy: "raisedSyncHalts (sql_answer nul dbs) name ?p fd hs = Some (n, b)"
    and rr: "r_sync r = n" "r_unreadable r = b1 @ b"
    unfolding readRaisedInWindow_def by (auto simp: bind_eq_Some_conv split: prod.splits)
  have cnt: "readCount (sql_answer nul dbs) (SyncHaltsSince name ?w) = Some (syncHaltsSinceSql hs2 ?w)"
    using sh2 by simp
  show ?thesis
    using sy q rr fd(2) cnt unfolding raisedSyncHalts_def Let_def w by (auto split: if_splits)
qed

section \<open>What is published\<close>

text \<open>A MariaDB source with an unskipped gate, read before and after the dump.\<close>

definition gated_publish :: "gate_target \<Rightarrow> gate_env \<Rightarrow> gate_env \<Rightarrow> string \<Rightarrow> bool" where
  "gated_publish tg pre post name =
     (tg_module tg \<in> set MARIADB_MODULES \<and> \<not> gateSkipped (g_skip pre) \<and> g_skip post = g_skip pre
      \<and> g_config post = g_config pre
      \<and> (case g_config pre of
           None \<Rightarrow> False
         | Some cfg \<Rightarrow> Option.bind (markerDatabaseName tg cfg (tg_module tg)) assertDbName = Some name))"

lemma probeNamed_name:
  "Option.bind (markerDatabaseName tg cfg md) assertDbName = Some name
     \<Longrightarrow> probeNamed tg run cfg md since = probeDatabase run name since"
  by (auto simp: probeNamed_def bind_eq_Some_conv)

lemma readHaltMarkers_own:
  assumes "readHaltMarkers tg g since = Some (own, up)" "g_config g = Some cfg"
    "Option.bind (markerDatabaseName tg cfg (tg_module tg)) assertDbName = Some name"
  shows "probeDatabase (g_sql g) name (map_option w_own since) = Some own"
  using assms probeNamed_name [OF assms(3), of "g_sql g" "map_option w_own since"]
  by (auto simp: readHaltMarkers_def bind_eq_Some_conv split: if_splits)

text \<open>What the two readings of a published archive returned for the dumped database.\<close>

lemma published_readings:
  assumes pub: "makeBootstrap tg pre dump post = Published d"
    and gp: "gated_publish tg pre post name"
  obtains own0 own2 where "dump = Some d"
    "probeDatabase (g_sql pre) name None = Some own0" "liveReasons False own0 = []"
    "probeDatabase (g_sql post) name (Some (watermark_of own0)) = Some own2"
    "windowReasons (f_raised own2) = []" "liveReasons False own2 = []"
proof -
  obtain cfg where cfg: "g_config pre = Some cfg" "g_config post = Some cfg"
    "Option.bind (markerDatabaseName tg cfg (tg_module tg)) assertDbName = Some name"
    "tg_module tg \<in> set MARIADB_MODULES" "\<not> gateSkipped (g_skip pre)" "\<not> gateSkipped (g_skip post)"
    using gp unfolding gated_publish_def by (cases "g_config pre") auto
  obtain ok where ok: "assertBootstrapSourceHealthy tg pre None = Inr ok"
    and rest: "makeBootstrapMariaDb tg post (gr_watermark ok) dump = Published d"
    using pub by (auto simp: makeBootstrap_def split: sum.splits)
  have dump: "dump = Some d" and "\<exists>ok2. assertBootstrapSourceHealthy tg post (gr_watermark ok) = Inr ok2"
    using rest by (auto simp: makeBootstrapMariaDb_def assertMariaSourceStayedHealthy_def
        split: option.splits sum.splits)
  then obtain ok2 where ok2: "assertBootstrapSourceHealthy tg post (gr_watermark ok) = Inr ok2" by blast
  obtain own0 up0 where r0: "readHaltMarkers tg pre None = Some (own0, up0)" "liveReasons False own0 = []"
    "gr_watermark ok = Some \<lparr>w_own = watermark_of own0, w_upstream = map_option watermark_of up0\<rparr>"
    using passing_gate [OF ok cfg(5)] cfg(4) passing_markers [of tg pre None] by auto
  obtain own2 up2 where r2: "readHaltMarkers tg post (gr_watermark ok) = Some (own2, up2)"
    "windowReasons (f_raised own2) = []" "liveReasons False own2 = []"
    using passing_gate [OF ok2 cfg(6)] cfg(4) passing_markers [of tg post "gr_watermark ok"] by auto
  have "probeDatabase (g_sql pre) name None = Some own0"
    using readHaltMarkers_own [OF r0(1) cfg(1,3)] by simp
  moreover have "probeDatabase (g_sql post) name (Some (watermark_of own0)) = Some own2"
    using readHaltMarkers_own [OF r2(1) cfg(2,3)] r0(3) by simp
  ultimately show ?thesis using that dump r0 r2 by blast
qed

text \<open>
  C5. A published MariaDB bootstrap never carries a halt. Whatever the running decoder and
  xchain-sync write while mariadb-dump streams, as long as the marker tables grow the way
  they do and the clients print what the tables hold, the dumped snapshot has no live
  REORG_HALT row, no newest clear without an audited reason, and no uncleared sync halt:
  the reading before the dump and the window reading after it leave no gap.
\<close>

theorem published_archive_carries_no_halt:
  assumes pub: "makeBootstrap tg pre (Some snap) post = Published d"
    and gp: "gated_publish tg pre post name"
    and ans: "g_sql pre = sql_answer nul dbs0" "g_sql post = sql_answer nul dbs2" "null_text nul"
    and ex: "t_events (dbs0 name) = Some es0" "t_events snap = Some es1"
    and fit: "guard_rows_fit (dbs0 name)" "guard_rows_fit (dbs2 name)"
    and grow: "tables_grow (dbs0 name) snap" "tables_grow snap (dbs2 name)" "tables_ordered (dbs2 name)"
  shows "d = snap \<and> liveReorgHaltCountSql es1 = 0 \<and> newest_clear_bad es1 = 0
       \<and> count_opt liveSyncHaltCountSql (t_sync_halt snap) = 0"
proof -
  obtain own0 own2 where dump: "Some snap = Some d"
    and p0: "probeDatabase (g_sql pre) name None = Some own0" "liveReasons False own0 = []"
    and p2: "probeDatabase (g_sql post) name (Some (watermark_of own0)) = Some own2"
      "windowReasons (f_raised own2) = []"
    by (rule published_readings [OF pub gp]) blast
  have own0: "own0 = tables_found (dbs0 name) es0"
    using p0(1) ans(1,3) ex(1) fit(1) readLiveMarkers_tables [of nul dbs0 name es0]
    by (simp add: probeDatabase_def)
  have p2a: "probeDatabase (sql_answer nul dbs2) name (Some (watermark_of (tables_found (dbs0 name) es0))) = Some own2"
    using p2(1) ans(2) own0 by simp
  obtain es2 where es2: "t_events (dbs2 name) = Some es2" "prefix es0 es1" "prefix es1 es2"
    using grow ex by (cases "t_events (dbs2 name)") (auto simp: tables_grow_def)
  have clean0: "liveReorgHaltCountSql es0 = 0" "newest_clear_bad es0 = 0"
    "count_opt liveSyncHaltCountSql (t_sync_halt (dbs0 name)) = 0"
    using p0(2) by (simp_all add: own0 liveReasons_Nil tables_found_def)
  have ord: "id_ordered (map ev_id es2)"
    using grow(3) es2(1) by (simp add: tables_ordered_def list_opt_def)
  have quiet: "reorgHaltsSinceSql es2 (eventsWatermarkSql es0) = 0"
    by (rule quiet_window_events [where dbs = dbs2 and name = name, OF refl p2a p2(2) es2(1)])
  obtain xs where xs: "es1 = es0 @ xs" "list_all (\<lambda>e. ev_code e \<notin> set halt_codes) xs"
    using no_halts_in_window [OF es2(2,3) ord quiet] by blast
  have events: "liveReorgHaltCountSql es1 = 0" "newest_clear_bad es1 = 0"
    using halt_free_tail [OF xs(2)] clean0 xs(1) by (simp_all add: newest_clear_bad_def)
  have "count_opt liveSyncHaltCountSql (t_sync_halt snap) = 0"
  proof (cases "t_sync_halt snap")
    case (Some hs1)
    then obtain hs2 where hs2: "t_sync_halt (dbs2 name) = Some hs2" "sync_kept hs1 hs2"
      using grow(2) by (cases "t_sync_halt (dbs2 name)") (auto simp: tables_grow_def)
    have ord: "id_ordered (map sh_id hs2)"
      using grow(3) hs2(1) by (simp add: tables_ordered_def list_opt_def)
    have quiet: "syncHaltsSinceSql hs2 (count_opt syncHaltWatermarkSql (t_sync_halt (dbs0 name))) = 0"
      by (rule quiet_window_sync [where dbs = dbs2 and name = name, OF refl p2a p2(2) es2(1) hs2(1) ans(3) fit(2)])
    have kept: "sync_kept (list_opt (t_sync_halt (dbs0 name))) hs1"
      using grow(1) Some by (cases "t_sync_halt (dbs0 name)") (auto simp: tables_grow_def list_opt_def sync_kept_def)
    have "liveSyncHaltCountSql hs1 = 0"
    proof (rule no_sync_halts_in_window [OF kept hs2(2) ord])
      show "syncHaltsSinceSql hs2 (syncHaltWatermarkSql (list_opt (t_sync_halt (dbs0 name)))) = 0"
        using quiet by (cases "t_sync_halt (dbs0 name)")
          (simp_all add: count_opt_def list_opt_def syncHaltWatermarkSql_def max_id_def)
      show "liveSyncHaltCountSql (list_opt (t_sync_halt (dbs0 name))) = 0"
        using clean0(3) by (cases "t_sync_halt (dbs0 name)")
          (simp_all add: count_opt_def list_opt_def liveSyncHaltCountSql_def)
    qed
    then show ?thesis using Some by (simp add: count_opt_def)
  qed (simp add: count_opt_def)
  then show ?thesis using events dump by simp
qed

definition demo_tg :: gate_target where
  "demo_tg = \<lparr>tg_sha = (\<lambda>_. ''0123456789abcdef''), tg_prefix = ''xchain-node'', tg_coin = ''bitcoin'',
     tg_network = ''mainnet'', tg_module = XCHAIN_DECODER, tg_date = (\<lambda>_. Some 0)\<rparr>"

definition demo_events :: "event_row list" where
  "demo_events = [\<lparr>ev_id = 3, ev_code = ''REORG_HALT'', ev_data = None\<rparr>,
     \<lparr>ev_id = 7, ev_code = ''REORG_HALT_CLEARED'', ev_data = Some ''{\"reason\":\"verified intact\"}''\<rparr>]"

definition demo_before :: tables where
  "demo_before = \<lparr>t_events = Some demo_events,
     t_sync_halt = Some [\<lparr>sh_id = 1, sh_cleared = True\<rparr>], t_sync_state = None\<rparr>"

definition demo_after :: tables where
  "demo_after = demo_before\<lparr>t_events := Some (demo_events @ [\<lparr>ev_id = 8, ev_code = ''REORG'', ev_data = None\<rparr>])\<rparr>"

definition demo_gate :: "tables \<Rightarrow> gate_env" where
  "demo_gate T = \<lparr>g_skip = None, g_max_lag = None, g_container = Some (Some ''c1''),
     g_inspect = (\<lambda>_. Some ''running|false|0|t|healthy''), g_config = Some [''DECODER_API_PORT'' \<mapsto> ''8080''],
     g_exec = (\<lambda>_ _. Some ''{\"status\":\"ok\",\"lag\":2}''), g_sql = sql_answer ''NULL'' (\<lambda>_. T), g_now = 0\<rparr>"

lemma demo_container: "containerStateReasons demo_tg (demo_gate T) = (Some ''c1'', [])"
  by (simp add: containerStateReasons_def demo_gate_def demo_tg_def evaluateContainerState_def trim_def is_ws_def
      nth_field_def parse_int_num_def parseInt10_def trim_start_def is_digit_def char_code_def decimal_nat_def
      nat_of_digits_def digit_val_def to_num_def double_limit_def crash_loop_reasons_def Let_def)

lemma demo_payload: "json_parse ''{\"status\":\"ok\",\"lag\":2}'' = Some (JObj [(''status'', JStr ''ok''), (''lag'', JNum (Fin 2))])"
  by (simp add: json_parse_eval)

lemma demo_trim: "trim ''{\"status\":\"ok\",\"lag\":2}'' = ''{\"status\":\"ok\",\"lag\":2}''"
  by (simp add: trim_def is_ws_def)

lemma demo_surface: "healthSurfaceReasons demo_tg (demo_gate T) c = []"
  by (simp add: healthSurfaceReasons_def demo_gate_def demo_tg_def MODULE_API_PORT_KEY_def module_name_defs
      probeServiceStatus_def read_attempt_def demo_payload demo_trim field_def JsPrelude.fields_def maxLagBlocks_def
      parse_int_num_def DEFAULT_MAX_LAG_BLOCKS_def evaluateStatusPayload_def statusFlagReasons_def is_true_def
      reorgParkReasons_def stallReasons_def to_lower_def lower_char_def char_code_def lagReasons_def lag_keys_def js_gt_def
      Let_def)

lemma demo_name:
  "Option.bind (markerDatabaseName demo_tg [''DECODER_API_PORT'' \<mapsto> ''8080''] XCHAIN_DECODER) assertDbName = Some ''XChain_BTC_Mainnet_Decoder''"
  by (simp add: markerDatabaseName_def demo_tg_def getModuleDatabaseName_def CoinTickerSymbol_def Networks_def
      scopedNodePrefixSegment_def DEFAULT_NODE_PREFIX_def DB_SEP_def XCHAIN_DECODER_def cap_evals configuredDatabaseName_def
      DATABASE_NAME_KEY_def assertSafeDbIdentifier_def is_alnum_def is_lower_def is_upper_def is_digit_def char_code_def)

lemma demo_audited: "isAuditedClear (json_parse ''{\"reason\":\"verified intact\"}'')"
  by (simp add: json_parse_eval isAuditedClear_def field_def JsPrelude.fields_def trim_def is_ws_def)

lemma demo_found:
  "tables_found demo_before demo_events = \<lparr>f_reorg = 0, f_sync = 0, f_pending = 0, f_guard = 0,
     f_events_wm = 7, f_sync_wm = Some 1, f_raised = None\<rparr>"
  "tables_found demo_after (the (t_events demo_after)) = \<lparr>f_reorg = 0, f_sync = 0, f_pending = 0, f_guard = 0,
     f_events_wm = 8, f_sync_wm = Some 1, f_raised = None\<rparr>"
  using demo_audited
  by (simp_all add: tables_found_def demo_before_def demo_after_def demo_events_def liveReorgHaltCountSql_def
      newest_clear_bad_def newestReorgClearSql_def ids_with_def max_id_def halt_codes_def count_opt_def
      liveSyncHaltCountSql_def eventsWatermarkSql_def syncHaltWatermarkSql_def)

lemma demo_module: "tg_module demo_tg = XCHAIN_DECODER" "XCHAIN_DECODER \<noteq> XCHAIN_INDEXER"
  "XCHAIN_DECODER \<in> set MARIADB_MODULES"
  by (simp_all add: demo_tg_def module_name_defs MARIADB_MODULES_def)

lemma demo_config: "g_config (demo_gate T) = Some [''DECODER_API_PORT'' \<mapsto> ''8080'']"
  "g_skip (demo_gate T) = None" "g_sql (demo_gate T) = sql_answer ''NULL'' (\<lambda>_. T)"
  by (simp_all add: demo_gate_def)

lemma demo_probe:
  "probeDatabase (sql_answer ''NULL'' (\<lambda>_. demo_before)) n None = Some (tables_found demo_before demo_events)"
  using readLiveMarkers_tables [of "''NULL''" "\<lambda>_. demo_before" n demo_events]
  by (simp add: probeDatabase_def demo_before_def null_text_def guard_rows_fit_def count_opt_def)

lemma demo_live_after:
  "readLiveMarkers (sql_answer ''NULL'' (\<lambda>_. demo_after)) n
     = Some (tables_found demo_after (the (t_events demo_after)), True)"
  using readLiveMarkers_tables [of "''NULL''" "\<lambda>_. demo_after" n "the (t_events demo_after)"]
  by (simp add: demo_after_def demo_before_def null_text_def guard_rows_fit_def count_opt_def)

definition demo_wm :: watermarks where
  "demo_wm = \<lparr>w_own = watermark_of (tables_found demo_before demo_events), w_upstream = None\<rparr>"

lemma demo_since:
  "reorgHaltsSinceSql (the (t_events demo_after)) 7 = 0" "syncHaltsSinceSql (the (t_sync_halt demo_after)) 1 = 0"
  "t_events demo_after = Some (the (t_events demo_after))" "t_sync_halt demo_after = Some (the (t_sync_halt demo_after))"
  by (simp_all add: demo_after_def demo_before_def demo_events_def reorgHaltsSinceSql_def halt_codes_def syncHaltsSinceSql_def)

lemma demo_probe_after:
  "probeDatabase (sql_answer ''NULL'' (\<lambda>_. demo_after)) n (Some (w_own demo_wm))
     = Some ((tables_found demo_after (the (t_events demo_after)))\<lparr>f_raised := Some \<lparr>r_reorg = 0, r_sync = 0, r_unreadable = []\<rparr>\<rparr>)"
proof -
  let ?run = "sql_answer ''NULL'' (\<lambda>_. demo_after)"
  have "readCount ?run (ReorgHaltsSince n 7) = Some 0"
    using demo_since(1,3) by (intro readCount_line) (metis map_option_eq_Some sql_answer.simps(9))
  moreover have "readCount ?run (SyncHaltsSince n 1) = Some 0"
    using demo_since(2,4) by (intro readCount_line) (metis map_option_eq_Some sql_answer.simps(10))
  moreover have "assertWatermark (wm_events (w_own demo_wm)) = Some (Some 7)"
    "assertWatermark (wm_sync (w_own demo_wm)) = Some (Some 1)"
    using assertWatermark_nat(1) [of 7] assertWatermark_nat(1) [of 1]
    by (simp_all add: demo_wm_def watermark_of_def demo_found)
  ultimately have "readRaisedInWindow ?run n (w_own demo_wm) (tables_found demo_after (the (t_events demo_after))) True
      = Some \<lparr>r_reorg = 0, r_sync = 0, r_unreadable = []\<rparr>"
    by (simp add: readRaisedInWindow_def raisedEvents_def raisedSyncHalts_def demo_found)
  then show ?thesis by (simp add: probeDatabase_def demo_live_after)
qed

lemma demo_markers:
  "haltMarkerReasons demo_tg (demo_gate demo_before) None = (Some demo_wm, [])"
  "snd (haltMarkerReasons demo_tg (demo_gate demo_after) (Some demo_wm)) = []"
  using probeNamed_name [OF demo_name] demo_probe demo_probe_after demo_module
  by (simp_all add: haltMarkerReasons_def readHaltMarkers_def demo_config demo_wm_def windowReasons_def
      liveReasons_def demo_found)

lemma demo_publish: "makeBootstrap demo_tg (demo_gate demo_before) (Some demo_after) (demo_gate demo_after) = Published demo_after"
  using demo_markers demo_container demo_surface demo_module
  by (cases "haltMarkerReasons demo_tg (demo_gate demo_after) (Some demo_wm)")
    (simp add: makeBootstrap_def makeBootstrapMariaDb_def assertMariaSourceStayedHealthy_def
      assertBootstrapSourceHealthy_def demo_config gateSkipped_def)

lemma demo_gated: "gated_publish demo_tg (demo_gate demo_before) (demo_gate demo_after) ''XChain_BTC_Mainnet_Decoder''"
  using demo_name demo_module by (simp add: gated_publish_def demo_config gateSkipped_def)

lemma demo_grow:
  "tables_grow demo_before demo_after" "tables_grow demo_after demo_after" "tables_ordered demo_after"
  "guard_rows_fit demo_before" "guard_rows_fit demo_after" "null_text ''NULL''"
  by (simp_all add: tables_grow_def demo_after_def demo_before_def demo_events_def sync_kept_def tables_ordered_def
      id_ordered_def list_opt_def guard_rows_fit_def count_opt_def null_text_def)

theorem published_archive_carries_no_halt_witness:
  "liveReorgHaltCountSql (the (t_events demo_after)) = 0 \<and> newest_clear_bad (the (t_events demo_after)) = 0"
  using published_archive_carries_no_halt [OF demo_publish demo_gated demo_config(3) demo_config(3) demo_grow(6) _ demo_since(3)
      demo_grow(4,5,1,2,3)]
  by (simp add: demo_before_def)

section \<open>Fail closed\<close>

lemma evaluateContainerState_Nil:
  assumes "evaluateContainerState dp out now = []"
  shows "split_on (CHR ''|'') (trim out) ! 0 = ''running''
       \<and> nth_field (split_on (CHR ''|'') (trim out)) 1 \<noteq> Some ''true''
       \<and> nth_field (split_on (CHR ''|'') (trim out)) 4 \<noteq> Some ''unhealthy''
       \<and> nth_field (split_on (CHR ''|'') (trim out)) 4 \<noteq> Some ''starting''"
  using assms by (auto simp: evaluateContainerState_def Let_def split: if_splits)

lemma paired_decoder_probed:
  "readHaltMarkers tg g since = Some (own, up) \<Longrightarrow> tg_module tg = XCHAIN_INDEXER \<Longrightarrow> up \<noteq> None"
  by (auto simp: readHaltMarkers_def bind_eq_Some_conv)

text \<open>
  C6. The gate fails closed. When it is not skipped and lets a decoder or an indexer
  through, then a container is registered and docker's line says it is running and neither
  restarting, unhealthy nor starting; one of the two status probes returned a payload that
  passes; and every marker statement was answered readably, with no live halt of any kind
  in the database, nor in the paired decoder database of an indexer.
\<close>

theorem health_gate_fail_closed:
  assumes pass: "assertBootstrapSourceHealthy tg g since = Inr res"
    and on: "\<not> gateSkipped (g_skip g)" and db: "tg_module tg \<in> set MARIADB_MODULES"
  shows "\<exists>c out port payload own up.
           g_container g = Some (Some c) \<and> g_inspect g c = Some out
           \<and> split_on (CHR ''|'') (trim out) ! 0 = ''running''
           \<and> nth_field (split_on (CHR ''|'') (trim out)) 4 \<notin> {Some ''unhealthy'', Some ''starting''}
           \<and> probeServiceStatus (g_exec g c) port = Some payload
           \<and> evaluateStatusPayload payload (maxLagBlocks (g_max_lag g)) = []
           \<and> readHaltMarkers tg g since = Some (own, up)
           \<and> liveReasons False own = [] \<and> windowReasons (f_raised own) = []
           \<and> (tg_module tg = XCHAIN_INDEXER \<longrightarrow> (\<exists>u. up = Some u \<and> liveReasons True u = []
                 \<and> windowReasons (f_raised u) = []))"
proof -
  note parts = passing_gate [OF pass on]
  obtain c out where c: "g_container g = Some (Some c)" "fst (containerStateReasons tg g) = Some c"
    "g_inspect g c = Some out" "evaluateContainerState (tg_date tg) out (g_now g) = []"
    using parts passing_container [of tg g] by blast
  obtain port payload where surface: "probeServiceStatus (g_exec g c) port = Some payload"
    "evaluateStatusPayload payload (maxLagBlocks (g_max_lag g)) = []"
    using parts c(2) passing_surface [of tg g c] by blast
  obtain own up where marks: "readHaltMarkers tg g since = Some (own, up)"
    "windowReasons (f_raised own) = []" "liveReasons False own = []"
    "up = Some u \<Longrightarrow> windowReasons (f_raised u) = [] \<and> liveReasons True u = []" for u
    using parts db passing_markers [of tg g since] by blast
  have "\<exists>u. up = Some u \<and> liveReasons True u = [] \<and> windowReasons (f_raised u) = []"
    if "tg_module tg = XCHAIN_INDEXER"
    using paired_decoder_probed [OF marks(1) that] marks(4) by auto
  then show ?thesis
    using c surface marks evaluateContainerState_Nil [OF c(4)] by blast
qed

lemma demo_pass: "assertBootstrapSourceHealthy demo_tg (demo_gate demo_before) None = Inr \<lparr>gr_skipped = False, gr_watermark = Some demo_wm\<rparr>"
  using demo_markers(1) demo_container demo_surface demo_module
  by (simp add: assertBootstrapSourceHealthy_def demo_config gateSkipped_def)

theorem health_gate_fail_closed_witness:
  "\<exists>c out. g_container (demo_gate demo_before) = Some (Some c) \<and> g_inspect (demo_gate demo_before) c = Some out
     \<and> split_on (CHR ''|'') (trim out) ! 0 = ''running''"
  using health_gate_fail_closed [OF demo_pass] demo_module(1,3) by (auto simp: demo_config gateSkipped_def)

end
