(* ===== verification/CoinData.thy ===== *)
theory CoinData
  imports JsJson
begin

text \<open>
  The bundled coin files \<open>coins/BTC.js\<close>, \<open>coins/LTC.js\<close> and \<open>coins/DOGE.js\<close>,
  value by value, as parsed JSON, and the pins of \<open>coins/consensus_pin.js\<close>. Keys are in the
  order of the files.
\<close>

definition BTC_mainnet_net :: json where
  "BTC_mainnet_net =
     JObj [
      (''messagePrefix'', JStr ([CHR 0x18] @ ''Bitcoin Signed Message:'' @ [CHR 0x0A])),
      (''bech32'', JStr ''bc''),
      (''bip32'', JObj [(''public'', JNum (Fin 76067358)), (''private'', JNum (Fin 76066276))]),
      (''pubKeyHash'', JNum (Fin 0)),
      (''scriptHash'', JNum (Fin 5)),
      (''wif'', JNum (Fin 128)),
      (''dustThreshold'', JNum (Fin 546)),
      (''minStandardTxNonWitnessSize'', JNum (Fin 82)),
      (''singleOpReturnPolicy'', JBool True)]"

definition BTC_mainnet_addresses :: json where
  "BTC_mainnet_addresses =
     JObj [
      (''BURN'', JStr ''1XChainBurnAddressXXXXXXXXXbRsd2N''),
      (''GAS'', JStr ''1XChain3M4uRwcHqt4XuhVBUQ8cL4qQsA''),
      (''DONATE1'', JStr ''1Donate1GERVKPW6GFQcnGeTa8dgL6Abyp''),
      (''DONATE2'', JStr ''1Donate2LkbBrsanwCVRPWZCXAqQcvcqGz''),
      (''FEE_DESTINATION'', JStr ''1FeesxM9LTEjBYVTkynK6jfDBgvksuh2WL''),
      (''REWARD'', JStr ''1RewardsRQTXMAytLt4bBQvPEscKsSEXt''),
      (''BRIDGE_LTC'', JStr ''17BridgeLtcXChainXXXXXXXXXXa5uRRy''),
      (''BRIDGE_DOGE'', JStr ''17BridgeDogeXChainXXXXXXXXXVuqXcv''),
      (''EXPLORER'', JStr ''1Donate3GBGSZzzrS9U9gUgURYKscAE6Yn'')]"

definition BTC_mainnet_genesis :: json where
  "BTC_mainnet_genesis =
     JObj [
      (''block'', JNum (Fin 950000)),
      (''ledgerHash'', JStr ''13aeeebb9f2e27d507ca96fb7c54a1bfa98b9cc80c3feebd5d1ad022ce7e2b73''),
      (''dumpHash'', JStr ''85431c2c41d6442e38aa78af804148dd6ead207aca036f6e44fbf2bee8c2846e''),
      (''airdropPaths'', JArr []),
      (''airdropHashes'', JArr []),
      (''airdropAmounts'', JArr []),
      (''airdropSnapshotBlock'', JNull),
      (''airdropSetHash'', JNull)]"

definition BTC_mainnet :: json where
  "BTC_mainnet =
     JObj [
      (''net'', BTC_mainnet_net),
      (''firstBlock'', JNum (Fin 950000)),
      (''chainGenesisHash'', JNull),
      (''addresses'', BTC_mainnet_addresses),
      (''genesis'', BTC_mainnet_genesis)]"

definition BTC_testnet :: json where
  "BTC_testnet =
     JObj [
      (''net'', JObj [
        (''messagePrefix'', JStr ([CHR 0x18] @ ''Bitcoin Signed Message:'' @ [CHR 0x0A])),
        (''bech32'', JStr ''tb''),
        (''bip32'', JObj [(''public'', JNum (Fin 70617039)), (''private'', JNum (Fin 70615956))]),
        (''pubKeyHash'', JNum (Fin 111)),
        (''scriptHash'', JNum (Fin 196)),
        (''wif'', JNum (Fin 239)),
        (''dustThreshold'', JNum (Fin 546)),
        (''minStandardTxNonWitnessSize'', JNum (Fin 82)),
        (''singleOpReturnPolicy'', JBool True)]),
      (''firstBlock'', JNum (Fin 149700)),
      (''chainGenesisHash'', JNull),
      (''addresses'', JObj [
        (''BURN'', JStr ''mxchainburnaddressXXXXXXXXXXa8EAfp''),
        (''GAS'', JStr ''mgassdEpzH2AuKGK9W5FZh8drWYKrpXk6D''),
        (''DONATE1'', JStr ''mfztXKX1HeVdCQf6pDCZFEzo5i5wYNHAM6''),
        (''DONATE2'', JStr ''myBbbZ4t7BPoyNcT4sHtFwZDuiyYGDXLQM''),
        (''FEE_DESTINATION'', JStr ''mfees5QurRs5BHXofdGpTG5pXB6uC6R8RU''),
        (''REWARD'', JStr ''mrewards4RQFYoZ5yEv4xr12PzfjDYViks''),
        (''BRIDGE_LTC'', JStr ''mfbtcbridgeLtcXXXXXXXXXXXXXXVPqpoV''),
        (''BRIDGE_DOGE'', JStr ''mfbtcbridgedogeXXXXXXXXXXXXXUXTr4m''),
        (''EXPLORER'', JStr ''n1jbLKMrhvFae7NwTj37ZtkN4uPy29o9aM'')]),
      (''genesis'', JObj [
        (''block'', JNum (Fin 0)),
        (''ledgerHash'', JNull),
        (''dumpHash'', JNull),
        (''airdropPaths'', JArr []),
        (''airdropHashes'', JArr []),
        (''airdropAmounts'', JArr []),
        (''airdropSnapshotBlock'', JNull),
        (''airdropSetHash'', JNull)])]"

definition BTC_regtest_genesis :: json where
  "BTC_regtest_genesis =
     JObj [
      (''$envOverrides'', JObj [
        (''block'', JObj [
          (''env'', JStr ''XCHAIN_GENESIS_BLOCK''),
          (''type'', JStr ''int''),
          (''default'', JNum (Fin 0))]),
        (''ledgerHash'', JObj [
          (''env'', JStr ''XCHAIN_GENESIS_LEDGER_HASH''),
          (''type'', JStr ''str''),
          (''default'', JNull)]),
        (''dumpHash'', JObj [
          (''env'', JStr ''XCHAIN_GENESIS_DUMP_HASH''),
          (''type'', JStr ''str''),
          (''default'', JNull)]),
        (''airdropPaths'', JObj [
          (''env'', JStr ''GENESIS_AIRDROP_PATHS''),
          (''type'', JStr ''csv''),
          (''default'', JArr [])]),
        (''airdropHashes'', JObj [
          (''env'', JStr ''GENESIS_AIRDROP_HASHES''),
          (''type'', JStr ''csv_sparse''),
          (''default'', JArr [])]),
        (''airdropAmounts'', JObj [
          (''env'', JStr ''GENESIS_AIRDROP_AMOUNTS''),
          (''type'', JStr ''csv_sparse''),
          (''default'', JArr [])]),
        (''airdropSnapshotBlock'', JObj [
          (''env'', JStr ''GENESIS_AIRDROP_SNAPSHOT_BLOCK''),
          (''type'', JStr ''str''),
          (''default'', JNull)]),
        (''airdropSetHash'', JObj [
          (''env'', JStr ''GENESIS_AIRDROP_SET_HASH''),
          (''type'', JStr ''str''),
          (''default'', JNull)])])]"

definition BTC_regtest :: json where
  "BTC_regtest =
     JObj [
      (''net'', JObj [
        (''messagePrefix'', JStr ([CHR 0x18] @ ''Bitcoin Signed Message:'' @ [CHR 0x0A])),
        (''bech32'', JStr ''bcrt''),
        (''bip32'', JObj [(''public'', JNum (Fin 70617039)), (''private'', JNum (Fin 70615956))]),
        (''pubKeyHash'', JNum (Fin 111)),
        (''scriptHash'', JNum (Fin 196)),
        (''wif'', JNum (Fin 239)),
        (''dustThreshold'', JNum (Fin 546)),
        (''minStandardTxNonWitnessSize'', JNum (Fin 82)),
        (''singleOpReturnPolicy'', JBool True)]),
      (''firstBlock'', JNum (Fin 0)),
      (''chainGenesisHash'', JNull),
      (''addresses'', JObj [
        (''BURN'', JStr ''mxchainburnaddressXXXXXXXXXXa8EAfp''),
        (''GAS'', JStr ''mgash6jYSKAR3Q5HPpDgNX2BYr18q9N6GQ''),
        (''DONATE1'', JStr ''muYHF9MMnK6Nmd5zx7EBtqEYZdaf2Xy8JX''),
        (''DONATE2'', JStr ''mkQd27aJSqsQ666z1Q4MLFmd3Ybqzy3TNw''),
        (''FEE_DESTINATION'', JStr ''mfeesX6rLE6V3WPg9tsbL2fHNS7E4rDAim''),
        (''REWARD'', JStr ''mrewardshQqD1ptkEBZGjPDF77L5uKJQmk''),
        (''BRIDGE_LTC'', JStr ''mfbtcbridgeLtcXXXXXXXXXXXXXXVPqpoV''),
        (''BRIDGE_DOGE'', JStr ''mfbtcbridgedogeXXXXXXXXXXXXXUXTr4m''),
        (''EXPLORER'', JStr ''mrDH7rA2ZmGoh4Qx5guhDBJbZotUd6XyVH'')]),
      (''genesis'', BTC_regtest_genesis)]"

definition BTC_legacyFees :: json where
  "BTC_legacyFees =
     JObj [
      (''ISSUANCE_FEE_TOKEN'', JStr ''1.00000000''),
      (''ISSUANCE_FEE_SUBTOKEN'', JStr ''0.50000000''),
      (''EXPIRATION_FEE_DEFAULT_DAYS'', JNum (Fin 90)),
      (''EXPIRATION_FEE_FREE_DAYS'', JNum (Fin 182)),
      (''EXPIRATION_FEE_PER_DAY'', JStr ''0.00547945'')]"

definition BTC_GAS_SCHEDULE :: json where
  "BTC_GAS_SCHEDULE =
     JObj [
      (''ISSUE'', JNum (Fin 100000)),
      (''ISSUE_SUBTOKEN'', JNum (Fin 50000)),
      (''EXPIRATION_PER_DAY'', JNum (Fin 550)),
      (''OWNERSHIP_ESCROW'', JNum (Fin 50000)),
      (''AIRDROP_PER_RECIPIENT'', JNum (Fin 100)),
      (''DIVIDEND_PER_RECIPIENT'', JNum (Fin 100)),
      (''SWEEP_BASE'', JNum (Fin 5000)),
      (''SWEEP_PER_ITEM'', JNum (Fin 100)),
      (''CALLBACK_BASE'', JNum (Fin 5000)),
      (''CALLBACK_PER_RECIPIENT'', JNum (Fin 100)),
      (''XBRIDGE_BASE'', JNum (Fin 5000)),
      (''LIST_SHARE'', JNum (Fin 100000)),
      (''LIST_SHARED_EDIT_BASE'', JNum (Fin 5000)),
      (''LIST_SHARED_EDIT_PER_ITEM'', JNum (Fin 100)),
      (''BET_FEED_PER_DAY'', JNum (Fin 550)),
      (''BET_PER_CREDIT'', JNum (Fin 100)),
      (''VM_EXECUTE_BASE'', JNum (Fin 1000)),
      (''VM_DEPLOY_BASE'', JNum (Fin 100000)),
      (''VM_DEPLOY_PER_BYTE'', JNum (Fin 10)),
      (''VM_STATE_READ'', JNum (Fin 100)),
      (''VM_STATE_WRITE'', JNum (Fin 200)),
      (''VM_STATE_DELETE'', JNum (Fin 100)),
      (''VM_ORACLE_READ'', JNum (Fin 100)),
      (''VM_CROSSCHAIN_READ'', JNum (Fin 100)),
      (''VM_ATTEST_REQUEST'', JNum (Fin 5000)),
      (''VM_XCALL_REQUEST'', JNum (Fin 2000)),
      (''VM_XCALL_CALLBACK'', JNum (Fin 20000)),
      (''VM_EMISSION'', JNum (Fin 500)),
      (''VM_COMPUTATION'', JNum (Fin 1)),
      (''VM_GUARD_GAS_CEILING'', JNum (Fin 200000))]"

definition BTC_STAKING :: json where
  "BTC_STAKING =
     JObj [
      (''COOLDOWN_BLOCKS'', JNum (Fin 1000)),
      (''ACTIVATION_DELAY_BLOCKS'', JNum (Fin 6)),
      (''CAPABILITIES'', JObj [
        (''price'', JObj [
          (''MIN_STAKE'', JStr ''1000.00000000''),
          (''SLASH'', JObj [
            (''BOUNTY_BPS'', JNum (Fin 500)),
            (''BOUNTY_FLOOR'', JStr ''50.00000000''),
            (''BOUNTY_CAP'', JStr ''1000.00000000'')])]),
        (''cross_chain'', JObj [
          (''MIN_STAKE'', JStr ''5000.00000000''),
          (''SLASH'', JObj [
            (''BOUNTY_BPS'', JNum (Fin 500)),
            (''BOUNTY_FLOOR'', JStr ''50.00000000''),
            (''BOUNTY_CAP'', JStr ''1000.00000000'')])]),
        (''oracle_publish'', JObj [
          (''MIN_STAKE'', JStr ''500.00000000''),
          (''SLASH'', JObj [
            (''BOUNTY_BPS'', JNum (Fin 500)),
            (''BOUNTY_FLOOR'', JStr ''50.00000000''),
            (''BOUNTY_CAP'', JStr ''1000.00000000'')])]),
        (''attestation'', JObj [
          (''MIN_STAKE'', JStr ''1000.00000000''),
          (''SLASH'', JObj [
            (''BOUNTY_BPS'', JNum (Fin 500)),
            (''BOUNTY_FLOOR'', JStr ''50.00000000''),
            (''BOUNTY_CAP'', JStr ''1000.00000000'')])]),
        (''full_node'', JObj [(''MIN_STAKE'', JStr ''2000.00000000'')])])]"

definition BTC_FULLNODE :: json where
  "BTC_FULLNODE =
     JObj [
      (''CHALLENGE_INTERVAL_BLOCKS'', JNum (Fin 144)),
      (''CONFIRM_DEPTH'', JNum (Fin 100)),
      (''PROOF_WINDOW_BLOCKS'', JNum (Fin 300)),
      (''VERDICT_ACCEPT_WINDOW_BLOCKS'', JNum (Fin 24)),
      (''REWARD_SHARE'', JStr ''0''),
      (''REWARD_PASS_WINDOW_BLOCKS'', JNum (Fin 1008)),
      (''MIN_PASS_RATE_BPS'', JNum (Fin 7000)),
      (''COLLECT_DEPTH_BLOCKS'', JNum (Fin 3)),
      (''GENESIS_VERIFIERS'', JArr []),
      (''$regtestSidecar'', JStr ''fullnode.regtest.json''),
      (''$regtestEnvOverrides'', JObj [
        (''CHALLENGE_INTERVAL_BLOCKS'', JObj [(''env'', JStr ''FULLNODE_CHALLENGE_INTERVAL_BLOCKS''), (''type'', JStr ''int'')]),
        (''CONFIRM_DEPTH'', JObj [(''env'', JStr ''FULLNODE_CONFIRM_DEPTH''), (''type'', JStr ''int'')]),
        (''PROOF_WINDOW_BLOCKS'', JObj [(''env'', JStr ''FULLNODE_PROOF_WINDOW_BLOCKS''), (''type'', JStr ''int'')]),
        (''VERDICT_ACCEPT_WINDOW_BLOCKS'', JObj [
          (''env'', JStr ''FULLNODE_VERDICT_ACCEPT_WINDOW_BLOCKS''),
          (''type'', JStr ''int'')]),
        (''REWARD_PASS_WINDOW_BLOCKS'', JObj [(''env'', JStr ''FULLNODE_REWARD_PASS_WINDOW_BLOCKS''), (''type'', JStr ''int'')]),
        (''MIN_PASS_RATE_BPS'', JObj [(''env'', JStr ''FULLNODE_MIN_PASS_RATE_BPS''), (''type'', JStr ''int'')]),
        (''REWARD_SHARE'', JObj [(''env'', JStr ''FULLNODE_REWARD_SHARE''), (''type'', JStr ''str'')]),
        (''COLLECT_DEPTH_BLOCKS'', JObj [(''env'', JStr ''FULLNODE_COLLECT_DEPTH_BLOCKS''), (''type'', JStr ''int'')]),
        (''GENESIS_VERIFIERS'', JObj [(''env'', JStr ''FULLNODE_GENESIS_VERIFIERS''), (''type'', JStr ''csv_lower'')])])]"

definition BTC_coin :: json where
  "BTC_coin =
     JObj [
      (''tick'', JStr ''BTC''),
      (''fullName'', JStr ''bitcoin''),
      (''displayName'', JStr ''Bitcoin''),
      (''site'', JStr ''https://bitcoin.org''),
      (''decimals'', JNum (Fin 8)),
      (''confirmations'', JNum (Fin 6)),
      (''wireFormat'', JStr ''default''),
      (''DISPLAY_ONLY_ADDRESS_ROLES'', JArr [JStr ''EXPLORER'']),
      (''networks'', JObj [(''mainnet'', BTC_mainnet), (''testnet'', BTC_testnet), (''regtest'', BTC_regtest)]),
      (''legacyFees'', BTC_legacyFees),
      (''GAS_PRICE'', JStr ''0.00001''),
      (''UNIFIED_EXPIRATION_FEE_FREE_DAYS'', JNum (Fin 90)),
      (''FEE_PAYMENT_MODE'', JStr ''xchain''),
      (''FEE_TOLERANCE_MIN'', JStr ''0.95''),
      (''FEE_TOLERANCE_MAX'', JStr ''1.10''),
      (''ORACLE_MAX_PRICE_AGE_SECONDS'', JNum (Fin 1800)),
      (''ORACLE_MAX_PRICE_AGE_HOURLY_SECONDS'', JNum (Fin 4500)),
      (''VALIDATOR_QUERY_LIMIT'', JNum (Fin 1000)),
      (''GAS_SCHEDULE'', BTC_GAS_SCHEDULE),
      (''STAKING'', BTC_STAKING),
      (''CONFIG_SLASH'', JObj [
        (''BOUNTY_BPS'', JNum (Fin 500)),
        (''BOUNTY_FLOOR'', JStr ''50.00000000''),
        (''BOUNTY_CAP'', JStr ''1000.00000000'')]),
      (''FULLNODE'', BTC_FULLNODE)]"

definition LTC_mainnet_net :: json where
  "LTC_mainnet_net =
     JObj [
      (''messagePrefix'', JStr ([CHR 0x19] @ ''Litecoin Signed Message:'' @ [CHR 0x0A])),
      (''bech32'', JStr ''ltc''),
      (''bip32'', JObj [(''public'', JNum (Fin 27108450)), (''private'', JNum (Fin 27106558))]),
      (''pubKeyHash'', JNum (Fin 48)),
      (''scriptHash'', JNum (Fin 50)),
      (''wif'', JNum (Fin 176)),
      (''dustThreshold'', JNum (Fin 5460)),
      (''minStandardTxNonWitnessSize'', JNum (Fin 85)),
      (''singleOpReturnPolicy'', JBool True)]"

definition LTC_mainnet_addresses :: json where
  "LTC_mainnet_addresses =
     JObj [
      (''BURN'', JStr ''LXChainBurnAddressXXXXXXXXXXSkrYkJ''),
      (''GAS'', JStr ''LXChainCN6yjHVqqS9tYzYVYZ8CCZcSx72''),
      (''DONATE1'', JStr ''Ldonate18tNZcVThKm5MX33EjvhaanJ6Mg''),
      (''DONATE2'', JStr ''Ldonate2io846q2e7q8dUArh3TNnaq9ENb''),
      (''FEE_DESTINATION'', JStr ''Lfees7tszAx5Gqam2fuqf6biaX3LXafM4H''),
      (''REWARD'', JStr ''XXXXXXXXXXXXXXXXXXXXXXXXXXXXXXXXXX''),
      (''BRIDGE_BTC'', JStr ''LKLtcbridgebtcXXXXXXXXXXXXXXXA61Gk''),
      (''BRIDGE_DOGE'', JStr ''LKLtcbridgedogeXXXXXXXXXXXXXX8Aknx''),
      (''EXPLORER'', JStr ''Ldonate3FfyqbYQAYxo3qjFLcu28oUdAfn'')]"

definition LTC_mainnet_genesis :: json where
  "LTC_mainnet_genesis =
     JObj [
      (''block'', JNum (Fin 0)),
      (''ledgerHash'', JNull),
      (''airdropPaths'', JArr []),
      (''airdropHashes'', JArr []),
      (''airdropAmounts'', JArr []),
      (''airdropSnapshotBlock'', JNull),
      (''airdropSetHash'', JNull)]"

definition LTC_mainnet :: json where
  "LTC_mainnet =
     JObj [
      (''net'', LTC_mainnet_net),
      (''firstBlock'', JNum (Fin 3120000)),
      (''chainGenesisHash'', JNull),
      (''addresses'', LTC_mainnet_addresses),
      (''genesis'', LTC_mainnet_genesis)]"

definition LTC_testnet :: json where
  "LTC_testnet =
     JObj [
      (''net'', JObj [
        (''messagePrefix'', JStr ([CHR 0x19] @ ''Litecoin Signed Message:'' @ [CHR 0x0A])),
        (''bech32'', JStr ''tltc''),
        (''bip32'', JObj [(''public'', JNum (Fin 70711009)), (''private'', JNum (Fin 70709117))]),
        (''pubKeyHash'', JNum (Fin 111)),
        (''scriptHash'', JNum (Fin 196)),
        (''wif'', JNum (Fin 239)),
        (''dustThreshold'', JNum (Fin 5460)),
        (''minStandardTxNonWitnessSize'', JNum (Fin 85)),
        (''singleOpReturnPolicy'', JBool True)]),
      (''firstBlock'', JNum (Fin 4862500)),
      (''chainGenesisHash'', JNull),
      (''addresses'', JObj [
        (''BURN'', JStr ''mxchainburnaddressXXXXXXXXXXa8EAfp''),
        (''GAS'', JStr ''mgashLN9oSvj2CUJYKWdNxh6VkamPg1Ges''),
        (''DONATE1'', JStr ''mybp5CceJvVV5tNCCiF7oBiZWko2fNkmnT''),
        (''DONATE2'', JStr ''muKEjejjXQvLY7Lp7Ecpn29gM2TCb5BLTF''),
        (''FEE_DESTINATION'', JStr ''mfeeskqGYw3wXYqMZFnUxBwGposEvjziRW''),
        (''REWARD'', JStr ''XXXXXXXXXXXXXXXXXXXXXXXXXXXXXXXXXX''),
        (''BRIDGE_BTC'', JStr ''mgLtcbridgebtcXXXXXXXXXXXXXXYpo2Bo''),
        (''BRIDGE_DOGE'', JStr ''mgLtcbridgedogeXXXXXXXXXXXXXZBQunc''),
        (''EXPLORER'', JStr ''mzCXcxcECbY5aNSXsfWjzKQN1YwoefEcG8'')]),
      (''genesis'', JObj [
        (''block'', JNum (Fin 0)),
        (''ledgerHash'', JNull),
        (''airdropPaths'', JArr []),
        (''airdropHashes'', JArr []),
        (''airdropAmounts'', JArr []),
        (''airdropSnapshotBlock'', JNull),
        (''airdropSetHash'', JNull)])]"

definition LTC_regtest_genesis :: json where
  "LTC_regtest_genesis =
     JObj [
      (''$envOverrides'', JObj [
        (''block'', JObj [
          (''env'', JStr ''XCHAIN_GENESIS_BLOCK''),
          (''type'', JStr ''int''),
          (''default'', JNum (Fin 0))]),
        (''ledgerHash'', JObj [
          (''env'', JStr ''XCHAIN_GENESIS_LEDGER_HASH''),
          (''type'', JStr ''str''),
          (''default'', JNull)]),
        (''airdropPaths'', JObj [
          (''env'', JStr ''GENESIS_AIRDROP_PATHS''),
          (''type'', JStr ''csv''),
          (''default'', JArr [])]),
        (''airdropHashes'', JObj [
          (''env'', JStr ''GENESIS_AIRDROP_HASHES''),
          (''type'', JStr ''csv_sparse''),
          (''default'', JArr [])]),
        (''airdropAmounts'', JObj [
          (''env'', JStr ''GENESIS_AIRDROP_AMOUNTS''),
          (''type'', JStr ''csv_sparse''),
          (''default'', JArr [])]),
        (''airdropSnapshotBlock'', JObj [
          (''env'', JStr ''GENESIS_AIRDROP_SNAPSHOT_BLOCK''),
          (''type'', JStr ''str''),
          (''default'', JNull)]),
        (''airdropSetHash'', JObj [
          (''env'', JStr ''GENESIS_AIRDROP_SET_HASH''),
          (''type'', JStr ''str''),
          (''default'', JNull)])])]"

definition LTC_regtest :: json where
  "LTC_regtest =
     JObj [
      (''net'', JObj [
        (''messagePrefix'', JStr ([CHR 0x19] @ ''Litecoin Signed Message:'' @ [CHR 0x0A])),
        (''bech32'', JStr ''rltc''),
        (''bip32'', JObj [(''public'', JNum (Fin 70711009)), (''private'', JNum (Fin 70709117))]),
        (''pubKeyHash'', JNum (Fin 111)),
        (''scriptHash'', JNum (Fin 196)),
        (''wif'', JNum (Fin 239)),
        (''dustThreshold'', JNum (Fin 5460)),
        (''minStandardTxNonWitnessSize'', JNum (Fin 85)),
        (''singleOpReturnPolicy'', JBool True)]),
      (''firstBlock'', JNum (Fin 0)),
      (''chainGenesisHash'', JNull),
      (''addresses'', JObj [
        (''BURN'', JStr ''mxchainburnaddressXXXXXXXXXXa8EAfp''),
        (''GAS'', JStr ''mgas5QYE38Bg34hwEjFKaE7Gs536FARue4''),
        (''DONATE1'', JStr ''mgNY2ZXbnNEkRT5ZRF8yGamivrSX2QH97h''),
        (''DONATE2'', JStr ''n2DLJPppXUi8jC6fLiSkthZi2sc9UKiZHd''),
        (''FEE_DESTINATION'', JStr ''mfeesJdVLx23zhtsCveA8EEfmHX7qSV2Ls''),
        (''REWARD'', JStr ''XXXXXXXXXXXXXXXXXXXXXXXXXXXXXXXXXX''),
        (''BRIDGE_BTC'', JStr ''mgLtcbridgebtcXXXXXXXXXXXXXXYpo2Bo''),
        (''BRIDGE_DOGE'', JStr ''mgLtcbridgedogeXXXXXXXXXXXXXZBQunc''),
        (''EXPLORER'', JStr ''myL7sZGPEG3LhFXn7RFCZ321r8bxgmgDBz'')]),
      (''genesis'', LTC_regtest_genesis)]"

definition LTC_legacyFees :: json where
  "LTC_legacyFees =
     JObj [
      (''ISSUANCE_FEE_TOKEN'', JStr ''0.50000000''),
      (''ISSUANCE_FEE_SUBTOKEN'', JStr ''0.25000000''),
      (''EXPIRATION_FEE_DEFAULT_DAYS'', JNum (Fin 90)),
      (''EXPIRATION_FEE_FREE_DAYS'', JNum (Fin 182)),
      (''EXPIRATION_FEE_PER_DAY'', JStr ''0.00273973'')]"

definition LTC_GAS_SCHEDULE :: json where
  "LTC_GAS_SCHEDULE =
     JObj [
      (''ISSUE'', JNum (Fin 100000)),
      (''ISSUE_SUBTOKEN'', JNum (Fin 50000)),
      (''EXPIRATION_PER_DAY'', JNum (Fin 550)),
      (''OWNERSHIP_ESCROW'', JNum (Fin 50000)),
      (''AIRDROP_PER_RECIPIENT'', JNum (Fin 100)),
      (''DIVIDEND_PER_RECIPIENT'', JNum (Fin 100)),
      (''SWEEP_BASE'', JNum (Fin 5000)),
      (''SWEEP_PER_ITEM'', JNum (Fin 100)),
      (''CALLBACK_BASE'', JNum (Fin 5000)),
      (''CALLBACK_PER_RECIPIENT'', JNum (Fin 100)),
      (''XBRIDGE_BASE'', JNum (Fin 5000)),
      (''LIST_SHARE'', JNum (Fin 100000)),
      (''LIST_SHARED_EDIT_BASE'', JNum (Fin 5000)),
      (''LIST_SHARED_EDIT_PER_ITEM'', JNum (Fin 100)),
      (''BET_FEED_PER_DAY'', JNum (Fin 550)),
      (''BET_PER_CREDIT'', JNum (Fin 100)),
      (''VM_EXECUTE_BASE'', JNum (Fin 1000)),
      (''VM_DEPLOY_BASE'', JNum (Fin 100000)),
      (''VM_DEPLOY_PER_BYTE'', JNum (Fin 10)),
      (''VM_STATE_READ'', JNum (Fin 100)),
      (''VM_STATE_WRITE'', JNum (Fin 200)),
      (''VM_STATE_DELETE'', JNum (Fin 100)),
      (''VM_ORACLE_READ'', JNum (Fin 100)),
      (''VM_CROSSCHAIN_READ'', JNum (Fin 100)),
      (''VM_ATTEST_REQUEST'', JNum (Fin 5000)),
      (''VM_XCALL_REQUEST'', JNum (Fin 2000)),
      (''VM_XCALL_CALLBACK'', JNum (Fin 20000)),
      (''VM_EMISSION'', JNum (Fin 500)),
      (''VM_COMPUTATION'', JNum (Fin 1)),
      (''VM_GUARD_GAS_CEILING'', JNum (Fin 200000))]"

definition LTC_STAKING :: json where
  "LTC_STAKING =
     JObj [
      (''COOLDOWN_BLOCKS'', JNum (Fin 4032)),
      (''ACTIVATION_DELAY_BLOCKS'', JNum (Fin 24)),
      (''CAPABILITIES'', JObj [])]"

definition LTC_coin :: json where
  "LTC_coin =
     JObj [
      (''tick'', JStr ''LTC''),
      (''fullName'', JStr ''litecoin''),
      (''displayName'', JStr ''Litecoin''),
      (''site'', JStr ''https://litecoin.org''),
      (''decimals'', JNum (Fin 8)),
      (''confirmations'', JNum (Fin 12)),
      (''wireFormat'', JStr ''mweb''),
      (''DISPLAY_ONLY_ADDRESS_ROLES'', JArr [JStr ''EXPLORER'']),
      (''networks'', JObj [(''mainnet'', LTC_mainnet), (''testnet'', LTC_testnet), (''regtest'', LTC_regtest)]),
      (''legacyFees'', LTC_legacyFees),
      (''GAS_PRICE'', JStr ''0.00001''),
      (''UNIFIED_EXPIRATION_FEE_FREE_DAYS'', JNum (Fin 90)),
      (''FEE_PAYMENT_MODE'', JStr ''native''),
      (''FEE_TOLERANCE_MIN'', JStr ''0.95''),
      (''FEE_TOLERANCE_MAX'', JStr ''1.10''),
      (''ORACLE_MAX_PRICE_AGE_SECONDS'', JNum (Fin 1800)),
      (''ORACLE_MAX_PRICE_AGE_HOURLY_SECONDS'', JNum (Fin 4500)),
      (''VALIDATOR_QUERY_LIMIT'', JNum (Fin 1000)),
      (''GAS_SCHEDULE'', LTC_GAS_SCHEDULE),
      (''STAKING'', LTC_STAKING)]"

definition DOGE_mainnet_net :: json where
  "DOGE_mainnet_net =
     JObj [
      (''messagePrefix'', JStr ([CHR 0x19] @ ''Dogecoin Signed Message:'' @ [CHR 0x0A])),
      (''bip32'', JObj [(''public'', JNum (Fin 49990397)), (''private'', JNum (Fin 49988504))]),
      (''pubKeyHash'', JNum (Fin 30)),
      (''scriptHash'', JNum (Fin 22)),
      (''wif'', JNum (Fin 158)),
      (''dustThreshold'', JNum (Fin 100000)),
      (''supportsSegwit'', JBool False),
      (''singleOpReturnPolicy'', JBool True)]"

definition DOGE_mainnet_addresses :: json where
  "DOGE_mainnet_addresses =
     JObj [
      (''BURN'', JStr ''DChainBurnAddressXXXXXXXXXXXawc9pt''),
      (''GAS'', JStr ''DGasfpttCnTijuuoAdiJ9sXJjG7vQ5pMkW''),
      (''DONATE1'', JStr ''DDonate1RBcwGnCRNnVtwuCmQyWW1Gn25f''),
      (''DONATE2'', JStr ''DDonate2o3Sg4phybp92oFpkmv8S9ZhGSV''),
      (''FEE_DESTINATION'', JStr ''DFeesjvoMoVqd9UDuwDSAxzHMF5xZFgeG9''),
      (''REWARD'', JStr ''XXXXXXXXXXXXXXXXXXXXXXXXXXXXXXXXXX''),
      (''BRIDGE_BTC'', JStr ''D5dogebridgebtcXXXXXXXXXXXXXVAFQt9''),
      (''BRIDGE_LTC'', JStr ''D5dogebridgeLtcXXXXXXXXXXXXXUVFLyn''),
      (''EXPLORER'', JStr ''DDonate3FCoUgi1bxW5r9c2p75uKTLw9qE'')]"

definition DOGE_mainnet_genesis :: json where
  "DOGE_mainnet_genesis =
     JObj [
      (''block'', JNum (Fin 6240000)),
      (''ledgerHash'', JStr ''888fc0be89d4ac58dff24ef5b02c8ccfb947cef9c3d4bc3b28db2202e68da5df''),
      (''dumpHash'', JStr ''9aae4cdf2bc14de119e089c267d442aec4671e01f6139aff486460798bb96a92''),
      (''airdropPaths'', JArr []),
      (''airdropHashes'', JArr []),
      (''airdropAmounts'', JArr []),
      (''airdropSnapshotBlock'', JNull),
      (''airdropSetHash'', JNull)]"

definition DOGE_mainnet :: json where
  "DOGE_mainnet =
     JObj [
      (''net'', DOGE_mainnet_net),
      (''firstBlock'', JNum (Fin 6240000)),
      (''chainGenesisHash'', JNull),
      (''addresses'', DOGE_mainnet_addresses),
      (''genesis'', DOGE_mainnet_genesis)]"

definition DOGE_testnet :: json where
  "DOGE_testnet =
     JObj [
      (''net'', JObj [
        (''messagePrefix'', JStr ([CHR 0x19] @ ''Dogecoin Signed Message:'' @ [CHR 0x0A])),
        (''bip32'', JObj [(''public'', JNum (Fin 70429096)), (''private'', JNum (Fin 70427203))]),
        (''pubKeyHash'', JNum (Fin 113)),
        (''scriptHash'', JNum (Fin 196)),
        (''wif'', JNum (Fin 241)),
        (''dustThreshold'', JNum (Fin 100000)),
        (''supportsSegwit'', JBool False),
        (''singleOpReturnPolicy'', JBool True)]),
      (''firstBlock'', JNum (Fin 67847500)),
      (''chainGenesisHash'', JNull),
      (''addresses'', JObj [
        (''BURN'', JStr ''nchainburnaddressXXXXXXXXXXXYKgF7W''),
        (''GAS'', JStr ''ngasn6zHFzJ72zpk3DBKmXhD2XtszujSDW''),
        (''DONATE1'', JStr ''ndonate1dE87UXUFf4gjyhPg7hfQRJXVXr''),
        (''DONATE2'', JStr ''ndonate2wev8vKDgvd1DHhtJtvkRbn2usJ''),
        (''FEE_DESTINATION'', JStr ''nfeesoodkv5UTFXcDeKcUU95QHFiK2Ggo7''),
        (''REWARD'', JStr ''XXXXXXXXXXXXXXXXXXXXXXXXXXXXXXXXXX''),
        (''BRIDGE_BTC'', JStr ''nUdogebridgebtcXXXXXXXXXXXXXWUG2kx''),
        (''BRIDGE_LTC'', JStr ''nUdogebridgeLtcXXXXXXXXXXXXXTsEz6W''),
        (''EXPLORER'', JStr ''ndonate3xHD56SnmmSxbjX7UMSPfN7XmVA'')]),
      (''genesis'', JObj [
        (''block'', JNum (Fin 0)),
        (''ledgerHash'', JNull),
        (''dumpHash'', JNull),
        (''airdropPaths'', JArr []),
        (''airdropHashes'', JArr []),
        (''airdropAmounts'', JArr []),
        (''airdropSnapshotBlock'', JNull),
        (''airdropSetHash'', JNull)])]"

definition DOGE_regtest_genesis :: json where
  "DOGE_regtest_genesis =
     JObj [
      (''$envOverrides'', JObj [
        (''block'', JObj [
          (''env'', JStr ''XCHAIN_GENESIS_BLOCK''),
          (''type'', JStr ''int''),
          (''default'', JNum (Fin 0))]),
        (''ledgerHash'', JObj [
          (''env'', JStr ''XCHAIN_GENESIS_LEDGER_HASH''),
          (''type'', JStr ''str''),
          (''default'', JNull)]),
        (''dumpHash'', JObj [
          (''env'', JStr ''XCHAIN_GENESIS_DUMP_HASH''),
          (''type'', JStr ''str''),
          (''default'', JNull)]),
        (''airdropPaths'', JObj [
          (''env'', JStr ''GENESIS_AIRDROP_PATHS''),
          (''type'', JStr ''csv''),
          (''default'', JArr [])]),
        (''airdropHashes'', JObj [
          (''env'', JStr ''GENESIS_AIRDROP_HASHES''),
          (''type'', JStr ''csv_sparse''),
          (''default'', JArr [])]),
        (''airdropAmounts'', JObj [
          (''env'', JStr ''GENESIS_AIRDROP_AMOUNTS''),
          (''type'', JStr ''csv_sparse''),
          (''default'', JArr [])]),
        (''airdropSnapshotBlock'', JObj [
          (''env'', JStr ''GENESIS_AIRDROP_SNAPSHOT_BLOCK''),
          (''type'', JStr ''str''),
          (''default'', JNull)]),
        (''airdropSetHash'', JObj [
          (''env'', JStr ''GENESIS_AIRDROP_SET_HASH''),
          (''type'', JStr ''str''),
          (''default'', JNull)])])]"

definition DOGE_regtest :: json where
  "DOGE_regtest =
     JObj [
      (''net'', JObj [
        (''messagePrefix'', JStr ([CHR 0x19] @ ''Dogecoin Signed Message:'' @ [CHR 0x0A])),
        (''bip32'', JObj [(''public'', JNum (Fin 70617039)), (''private'', JNum (Fin 70615956))]),
        (''pubKeyHash'', JNum (Fin 111)),
        (''scriptHash'', JNum (Fin 196)),
        (''wif'', JNum (Fin 239)),
        (''dustThreshold'', JNum (Fin 100000)),
        (''supportsSegwit'', JBool False),
        (''singleOpReturnPolicy'', JBool True)]),
      (''firstBlock'', JNum (Fin 0)),
      (''chainGenesisHash'', JNull),
      (''addresses'', JObj [
        (''BURN'', JStr ''mvs8WdppEhzQLxfcYwrr1eoKA2nUFi55ff''),
        (''GAS'', JStr ''mgasDTdKu5DsbW97qSRnE8raAuYpKMfmhg''),
        (''DONATE1'', JStr ''mzdg8wGxgP3Jk45FuZPspumCL3Ruup37ob''),
        (''DONATE2'', JStr ''mmXU8RU7q3BUsyT66rtw1H6P7B2ZZd9c5Y''),
        (''FEE_DESTINATION'', JStr ''mfees5pa2HwNBonk5vG23aDWkN9fuDJib4''),
        (''REWARD'', JStr ''XXXXXXXXXXXXXXXXXXXXXXXXXXXXXXXXXX''),
        (''BRIDGE_BTC'', JStr ''mfdogebridgebtcXXXXXXXXXXXXXZ3agHN''),
        (''BRIDGE_LTC'', JStr ''mfdogebridgeLtcXXXXXXXXXXXXXXb2E4n''),
        (''EXPLORER'', JStr ''n1AvTJLLSA1NHamHd5KFj9mRn6BEcwnVbf'')]),
      (''genesis'', DOGE_regtest_genesis)]"

definition DOGE_legacyFees :: json where
  "DOGE_legacyFees =
     JObj [
      (''ISSUANCE_FEE_TOKEN'', JStr ''0.25000000''),
      (''ISSUANCE_FEE_SUBTOKEN'', JStr ''0.10000000''),
      (''EXPIRATION_FEE_DEFAULT_DAYS'', JNum (Fin 90)),
      (''EXPIRATION_FEE_FREE_DAYS'', JNum (Fin 182)),
      (''EXPIRATION_FEE_PER_DAY'', JStr ''0.00136986'')]"

definition DOGE_GAS_SCHEDULE :: json where
  "DOGE_GAS_SCHEDULE =
     JObj [
      (''ISSUE'', JNum (Fin 100000)),
      (''ISSUE_SUBTOKEN'', JNum (Fin 50000)),
      (''EXPIRATION_PER_DAY'', JNum (Fin 550)),
      (''OWNERSHIP_ESCROW'', JNum (Fin 50000)),
      (''AIRDROP_PER_RECIPIENT'', JNum (Fin 100)),
      (''DIVIDEND_PER_RECIPIENT'', JNum (Fin 100)),
      (''SWEEP_BASE'', JNum (Fin 5000)),
      (''SWEEP_PER_ITEM'', JNum (Fin 100)),
      (''CALLBACK_BASE'', JNum (Fin 5000)),
      (''CALLBACK_PER_RECIPIENT'', JNum (Fin 100)),
      (''XBRIDGE_BASE'', JNum (Fin 5000)),
      (''LIST_SHARE'', JNum (Fin 100000)),
      (''LIST_SHARED_EDIT_BASE'', JNum (Fin 5000)),
      (''LIST_SHARED_EDIT_PER_ITEM'', JNum (Fin 100)),
      (''BET_FEED_PER_DAY'', JNum (Fin 550)),
      (''BET_PER_CREDIT'', JNum (Fin 100)),
      (''VM_EXECUTE_BASE'', JNum (Fin 1000)),
      (''VM_DEPLOY_BASE'', JNum (Fin 100000)),
      (''VM_DEPLOY_PER_BYTE'', JNum (Fin 10)),
      (''VM_STATE_READ'', JNum (Fin 100)),
      (''VM_STATE_WRITE'', JNum (Fin 200)),
      (''VM_STATE_DELETE'', JNum (Fin 100)),
      (''VM_ORACLE_READ'', JNum (Fin 100)),
      (''VM_CROSSCHAIN_READ'', JNum (Fin 100)),
      (''VM_ATTEST_REQUEST'', JNum (Fin 5000)),
      (''VM_XCALL_REQUEST'', JNum (Fin 2000)),
      (''VM_XCALL_CALLBACK'', JNum (Fin 20000)),
      (''VM_EMISSION'', JNum (Fin 500)),
      (''VM_COMPUTATION'', JNum (Fin 1)),
      (''VM_GUARD_GAS_CEILING'', JNum (Fin 200000))]"

definition DOGE_STAKING :: json where
  "DOGE_STAKING =
     JObj [
      (''COOLDOWN_BLOCKS'', JNum (Fin 10080)),
      (''ACTIVATION_DELAY_BLOCKS'', JNum (Fin 60)),
      (''CAPABILITIES'', JObj [])]"

definition DOGE_coin :: json where
  "DOGE_coin =
     JObj [
      (''tick'', JStr ''DOGE''),
      (''fullName'', JStr ''dogecoin''),
      (''displayName'', JStr ''Dogecoin''),
      (''site'', JStr ''https://dogecoin.com''),
      (''decimals'', JNum (Fin 8)),
      (''confirmations'', JNum (Fin 60)),
      (''wireFormat'', JStr ''auxpow''),
      (''DISPLAY_ONLY_ADDRESS_ROLES'', JArr [JStr ''EXPLORER'']),
      (''networks'', JObj [
        (''mainnet'', DOGE_mainnet),
        (''testnet'', DOGE_testnet),
        (''regtest'', DOGE_regtest)]),
      (''legacyFees'', DOGE_legacyFees),
      (''GAS_PRICE'', JStr ''0.00001''),
      (''UNIFIED_EXPIRATION_FEE_FREE_DAYS'', JNum (Fin 90)),
      (''FEE_PAYMENT_MODE'', JStr ''native''),
      (''FEE_TOLERANCE_MIN'', JStr ''0.95''),
      (''FEE_TOLERANCE_MAX'', JStr ''1.10''),
      (''ORACLE_MAX_PRICE_AGE_SECONDS'', JNum (Fin 1800)),
      (''ORACLE_MAX_PRICE_AGE_HOURLY_SECONDS'', JNum (Fin 4500)),
      (''VALIDATOR_QUERY_LIMIT'', JNum (Fin 1000)),
      (''GAS_SCHEDULE'', DOGE_GAS_SCHEDULE),
      (''STAKING'', DOGE_STAKING)]"

definition pin_testnet :: json where
  "pin_testnet = JObj [
      (''BTC'', JStr ''3e0083d555399e54eff2670a0ea5e8d76c8935d3e7423451c1221ae698386b5a''),
      (''LTC'', JStr ''d9c315b36adf5ab8bd6831ccc59a2a01124df70ba9fc8141662ec682285251e8''),
      (''DOGE'', JStr ''82c6bc814e3de4a1e023d008457b7186c5a6ac142c85be9bf0a18f2d5989fd72'')]"

definition pin_regtest :: json where
  "pin_regtest = JObj [
      (''BTC'', JStr ''ad800ecb8d28448f9d39743bd3a28e6aac121d0e9add30743ee1dcbbf694af86''),
      (''LTC'', JStr ''16dd43ca2299880704e076e5f7c262eae6b5e32823ad49c9748c33f014f44c36''),
      (''DOGE'', JStr ''d7bd53f527d961f1cf0cfc7de725d61e625975f7086532976c777a04c08988f6'')]"

definition CONSENSUS_CONFIG_PIN :: json where
  "CONSENSUS_CONFIG_PIN = JObj [(''mainnet'', JNull), (''testnet'', pin_testnet), (''regtest'', pin_regtest)]"

end
