(* ===== verification/Coins.thy ===== *)
theory Coins
  imports CoinData "HOL-Library.List_Lexorder" "HOL-Library.Char_ord"
begin

text \<open>
  The canonical coin registry \<open>coins/index.js\<close>: resolving a coin for a network with the
  regtest-only environment overrides, the canonical JSON text, the consensus subset, its
  hash and the pin check, and the confirmation depths. A coin file is parsed JSON
  (\<open>CoinData\<close> holds the shipped ones); the process environment, the regtest sidecar file
  and SHA-256 are arguments. A property set to \<open>undefined\<close> is an absent property.
\<close>

section \<open>Text of a JSON value\<close>

definition hex_lower :: "nat \<Rightarrow> char" where
  "hex_lower d = (if d < 10 then char_of (48 + d) else char_of (87 + d))"

definition quote_char :: "char \<Rightarrow> string" where
  "quote_char c =
     (if c = CHR 0x22 then [CHR 0x5C, CHR 0x22]
      else if c = CHR 0x5C then [CHR 0x5C, CHR 0x5C]
      else if c = CHR 0x08 then [CHR 0x5C, CHR ''b'']
      else if c = CHR 0x0C then [CHR 0x5C, CHR ''f'']
      else if c = CHR 0x0A then [CHR 0x5C, CHR ''n'']
      else if c = CHR 0x0D then [CHR 0x5C, CHR ''r'']
      else if c = CHR 0x09 then [CHR 0x5C, CHR ''t'']
      else if char_code c < 32
        then [CHR 0x5C, CHR ''u'', CHR ''0'', CHR ''0'', hex_lower (char_code c div 16), hex_lower (char_code c mod 16)]
      else [c])"

definition json_string :: "string \<Rightarrow> string" where
  "json_string s = CHR 0x22 # concat (map quote_char s) @ [CHR 0x22]"

text \<open>The digits of a fraction, up to 20 of them.\<close>

fun frac_digits :: "nat \<Rightarrow> rat \<Rightarrow> string" where
  "frac_digits 0 f = []"
| "frac_digits (Suc n) f =
     (if f = 0 then [] else digit_char (nat \<lfloor>10 * f\<rfloor>) # frac_digits n (10 * f - of_int \<lfloor>10 * f\<rfloor>))"

definition decimal_text :: "rat \<Rightarrow> string" where
  "decimal_text r = (let i = \<lfloor>\<bar>r\<bar>\<rfloor>; f = \<bar>r\<bar> - of_int i
     in (if r < 0 then [CHR ''-''] else []) @ show_nat (nat i)
        @ (if f = 0 then [] else CHR ''.'' # frac_digits 20 f))"

fun json_number :: "jsnum \<Rightarrow> string" where
  "json_number (Fin r) = decimal_text r"
| "json_number _ = ''null''"

fun number_text :: "jsnum \<Rightarrow> string" where
  "number_text (Fin r) = decimal_text r"
| "number_text NaN = ''NaN''"
| "number_text PInf = ''Infinity''"
| "number_text NInf = ''-Infinity''"

fun join :: "string list \<Rightarrow> string" where
  "join [] = []"
| "join [t] = t"
| "join (t # u # ts) = t @ CHR '','' # join (u # ts)"

definition bool_text :: "bool \<Rightarrow> string" where
  "bool_text b = (if b then ''true'' else ''false'')"

text \<open>\<open>String(v)\<close>; inside an array null prints as nothing.\<close>

fun js_String :: "json \<Rightarrow> string" where
  "js_String JNull = ''null''"
| "js_String (JBool b) = bool_text b"
| "js_String (JNum n) = number_text n"
| "js_String (JStr s) = s"
| "js_String (JArr vs) = join (map (\<lambda>v. if v = JNull then [] else js_String v) vs)"
| "js_String (JObj _) = ''[object Object]''"

definition member_text :: "string \<times> string \<Rightarrow> string" where
  "member_text kt = json_string (fst kt) @ CHR '':'' # snd kt"

fun canonicalJson :: "json \<Rightarrow> string" where
  "canonicalJson JNull = ''null''"
| "canonicalJson (JBool b) = bool_text b"
| "canonicalJson (JNum n) = json_number n"
| "canonicalJson (JStr s) = json_string s"
| "canonicalJson (JArr vs) = CHR ''['' # join (map canonicalJson vs) @ [CHR '']'']"
| "canonicalJson (JObj fs) =
     CHR 0x7B # join (map member_text (sort_key fst (map (\<lambda>kv. (fst kv, canonicalJson (snd kv))) fs))) @ [CHR 0x7D]"

section \<open>Resolving a coin\<close>

type_synonym env = "string \<rightharpoonup> string"
type_synonym coin_files = "(string \<times> json) list"

definition NETWORKS :: "string list" where
  "NETWORKS = [''mainnet'', ''testnet'', ''regtest'']"

definition stripDescriptors :: "json \<Rightarrow> json" where
  "stripDescriptors obj = JObj (filter (\<lambda>(k, v). take 1 k \<noteq> ''$'') (fields obj))"

definition split_trim :: "string \<Rightarrow> string list" where
  "split_trim raw = map trim (split_on (CHR '','') raw)"

definition coerceEnv :: "string option \<Rightarrow> string \<Rightarrow> json option" where
  "coerceEnv raw ty = (case raw of
     None \<Rightarrow> None
   | Some s \<Rightarrow>
       if s = [] then None
       else if ty = ''int'' then (if is_finite (parse_int_num raw) then Some (JNum (parse_int_num raw)) else None)
       else if ty = ''csv_lower'' then Some (JArr (map JStr (filter (\<lambda>x. x \<noteq> []) (map to_lower (split_trim s)))))
       else if ty = ''csv'' then Some (JArr (map JStr (filter (\<lambda>x. x \<noteq> []) (split_trim s))))
       else if ty = ''csv_sparse'' then Some (JArr (map JStr (split_trim s)))
       else Some (JStr s))"

definition text_field :: "json \<Rightarrow> string \<Rightarrow> string" where
  "text_field v k = (case field v k of Some (JStr s) \<Rightarrow> s | _ \<Rightarrow> ''undefined'')"

definition coerce_desc :: "env \<Rightarrow> json \<Rightarrow> json option" where
  "coerce_desc env desc = coerceEnv (env (text_field desc ''env'')) (text_field desc ''type'')"

definition resolveGenesis :: "env \<Rightarrow> json option \<Rightarrow> string \<Rightarrow> json option" where
  "resolveGenesis env block network = (case block of
     None \<Rightarrow> None
   | Some b \<Rightarrow>
       if \<not> truthy b then None
       else if truthy_opt (field b ''$envOverrides'')
       then Some (JObj (concat (map (\<lambda>(key, desc).
              case (if network = ''regtest'' then coerce_desc env desc else None) of
                Some v \<Rightarrow> [(key, v)]
              | None \<Rightarrow> (case field desc ''default'' of Some d \<Rightarrow> [(key, d)] | None \<Rightarrow> []))
            (fields (the (field b ''$envOverrides''))))))
       else Some (stripDescriptors b))"

definition lower_verifiers :: "(string \<times> json) list \<Rightarrow> (string \<times> json) list" where
  "lower_verifiers out = (case map_of out ''GENESIS_VERIFIERS'' of
     Some (JArr vs) \<Rightarrow> AList.update ''GENESIS_VERIFIERS'' (JArr (map (\<lambda>v. JStr (to_lower (js_String v))) vs)) out
   | _ \<Rightarrow> out)"

text \<open>The sidecar is what reading and parsing the named file gives; \<open>None\<close> when that fails.\<close>

definition resolveFullnode :: "env \<Rightarrow> (string \<Rightarrow> json option) \<Rightarrow> json option \<Rightarrow> string \<Rightarrow> json option" where
  "resolveFullnode env sidecar fullnode network = (case fullnode of
     None \<Rightarrow> None
   | Some f \<Rightarrow>
       if \<not> truthy f then None
       else let out = lower_verifiers (fields (stripDescriptors f));
                out1 = (case field f ''$regtestSidecar'' of
                          Some (JStr name) \<Rightarrow> (case sidecar name of
                              Some j \<Rightarrow> fold (\<lambda>(k, v). AList.update k v) (fields j) out
                            | None \<Rightarrow> out)
                        | _ \<Rightarrow> out);
                out2 = (case field f ''$regtestEnvOverrides'' of
                          Some ov \<Rightarrow> fold (\<lambda>(key, desc) o'. case coerce_desc env desc of
                              Some v \<Rightarrow> AList.update key v o' | None \<Rightarrow> o') (fields ov) out1
                        | None \<Rightarrow> out1)
            in Some (JObj (if network \<noteq> ''regtest'' then out else out2)))"

definition resolveFeeDestination :: "env \<Rightarrow> string \<Rightarrow> string \<Rightarrow> json option \<Rightarrow> json option" where
  "resolveFeeDestination env tick network dflt =
     (case env (''XCHAIN_FEE_DESTINATION_'' @ tick @ ''_'' @ map upper_char network) of
        None \<Rightarrow> dflt
      | Some v \<Rightarrow> if v = [] \<or> network \<noteq> ''regtest'' then dflt else Some (JStr v))"

datatype coin_error = UnknownCoin string | UnknownNetwork string | NoNetwork string string
  | Unclonable string | PinMismatch string string

definition opt_member :: "string \<Rightarrow> json option \<Rightarrow> (string \<times> json) list" where
  "opt_member k v = (case v of Some x \<Rightarrow> [(k, x)] | None \<Rightarrow> [])"

text \<open>The blocks \<open>clone\<close> copies: a missing one makes \<open>JSON.parse\<close> throw.\<close>

definition cloned_keys :: "string list" where
  "cloned_keys = [''legacyFees'', ''GAS_SCHEDULE'', ''STAKING'']"

definition plain_keys :: "string list" where
  "plain_keys = [''GAS_PRICE'', ''UNIFIED_EXPIRATION_FEE_FREE_DAYS'', ''FEE_PAYMENT_MODE'',
     ''FEE_TOLERANCE_MIN'', ''FEE_TOLERANCE_MAX'', ''ORACLE_MAX_PRICE_AGE_SECONDS'',
     ''ORACLE_MAX_PRICE_AGE_HOURLY_SECONDS'', ''VALIDATOR_QUERY_LIMIT'']"

definition network_block :: "coin_files \<Rightarrow> string \<Rightarrow> string \<Rightarrow> coin_error + (json \<times> json)" where
  "network_block files tick network = (case map_of files tick of
     None \<Rightarrow> Inl (UnknownCoin tick)
   | Some coin \<Rightarrow> (case Option.bind (field coin ''networks'') (\<lambda>ns. field ns network) of
       Some net \<Rightarrow> if truthy net then Inr (coin, net) else Inl (NoNetwork tick network)
     | None \<Rightarrow> Inl (NoNetwork tick network)))"

definition resolved_members ::
  "env \<Rightarrow> (string \<Rightarrow> json option) \<Rightarrow> string \<Rightarrow> string \<Rightarrow> json \<Rightarrow> json \<Rightarrow> json \<Rightarrow> json \<Rightarrow> (string \<times> json) list" where
  "resolved_members env sidecar tick network coin block net addresses =
     (let fee = resolveFeeDestination env tick network (field addresses ''FEE_DESTINATION'')
      in concat (map (\<lambda>k. opt_member k (field coin k))
           [''tick'', ''fullName'', ''displayName'', ''site'', ''decimals'', ''confirmations'', ''wireFormat''])
         @ [(''network'', JStr network), (''net'', net)]
         @ opt_member ''firstBlock'' (field block ''firstBlock'')
         @ [(''chainGenesisHash'', (case field block ''chainGenesisHash'' of Some h \<Rightarrow> h | None \<Rightarrow> JNull)),
            (''addresses'', JObj (case fee of Some d \<Rightarrow> AList.update ''FEE_DESTINATION'' d (fields addresses)
                                            | None \<Rightarrow> fields addresses))]
         @ opt_member ''genesis'' (resolveGenesis env (field block ''genesis'') network)
         @ concat (map (\<lambda>k. opt_member k (field coin k)) (cloned_keys @ plain_keys))
         @ (if truthy_opt (field coin ''CONFIG_SLASH'') then opt_member ''CONFIG_SLASH'' (field coin ''CONFIG_SLASH'') else [])
         @ opt_member ''FULLNODE'' (resolveFullnode env sidecar (field coin ''FULLNODE'') network))"

definition getCoinConfig ::
  "coin_files \<Rightarrow> env \<Rightarrow> (string \<Rightarrow> json option) \<Rightarrow> string \<Rightarrow> string \<Rightarrow> coin_error + json" where
  "getCoinConfig files env sidecar tick network =
     (if map_of files tick = None then Inl (UnknownCoin tick)
      else if network \<notin> set NETWORKS then Inl (UnknownNetwork network)
      else (case network_block files tick network of
         Inl e \<Rightarrow> Inl e
       | Inr (coin, block) \<Rightarrow>
           (case (field block ''addresses'', field block ''net'', List.find (\<lambda>k. field coin k = None) cloned_keys) of
              (Some addresses, Some net, None) \<Rightarrow>
                Inr (JObj (resolved_members env sidecar tick network coin block net addresses))
            | _ \<Rightarrow> Inl (Unclonable tick))))"

definition FULL_NAME_TO_TICK :: "coin_files \<Rightarrow> string \<Rightarrow> string option" where
  "FULL_NAME_TO_TICK files full =
     fold (\<lambda>(tick, coin) acc. if field coin ''fullName'' = Some (JStr full) then Some tick else acc) files None"

definition getCoinConfigByFullName ::
  "coin_files \<Rightarrow> env \<Rightarrow> (string \<Rightarrow> json option) \<Rightarrow> string \<Rightarrow> string \<Rightarrow> coin_error + json" where
  "getCoinConfigByFullName files env sidecar full network = (case FULL_NAME_TO_TICK files full of
     None \<Rightarrow> Inl (UnknownCoin full)
   | Some tick \<Rightarrow> getCoinConfig files env sidecar tick network)"

section \<open>The consensus subset and its pin\<close>

definition display_roles :: "json \<Rightarrow> string list" where
  "display_roles coin = (case field coin ''DISPLAY_ONLY_ADDRESS_ROLES'' of
     Some (JArr rs) \<Rightarrow> map js_String rs
   | _ \<Rightarrow> [''EXPLORER''])"

definition pinned_keys :: "string list" where
  "pinned_keys = [''legacyFees'', ''GAS_PRICE'', ''UNIFIED_EXPIRATION_FEE_FREE_DAYS'', ''FEE_TOLERANCE_MIN'',
     ''FEE_TOLERANCE_MAX'', ''ORACLE_MAX_PRICE_AGE_SECONDS'', ''ORACLE_MAX_PRICE_AGE_HOURLY_SECONDS'',
     ''VALIDATOR_QUERY_LIMIT'', ''GAS_SCHEDULE'', ''STAKING'']"

text \<open>The members in source order; one whose value is \<open>undefined\<close> keeps its key.\<close>

definition consensusSubset :: "coin_files \<Rightarrow> string \<Rightarrow> string \<Rightarrow> coin_error + (string \<times> json option) list" where
  "consensusSubset files tick network = (case network_block files tick network of
     Inl e \<Rightarrow> Inl e
   | Inr (coin, block) \<Rightarrow>
       Inr ([(''net'', field block ''net''), (''wireFormat'', field coin ''wireFormat''),
             (''firstBlock'', field block ''firstBlock''),
             (''addresses'', Some (JObj (filter (\<lambda>(k, v). k \<notin> set (display_roles coin))
                (case field block ''addresses'' of Some a \<Rightarrow> fields a | None \<Rightarrow> []))))]
            @ map (\<lambda>k. (k, field coin k)) pinned_keys
            @ (if truthy_opt (field coin ''CONFIG_SLASH'') then [(''CONFIG_SLASH'', field coin ''CONFIG_SLASH'')] else [])
            @ (if truthy_opt (field coin ''FULLNODE'')
               then [(''FULLNODE'', map_option stripDescriptors (field coin ''FULLNODE''))] else [])))"

definition subset_text :: "(string \<times> json option) list \<Rightarrow> string" where
  "subset_text fs = CHR 0x7B # join (map member_text (sort_key fst
     (map (\<lambda>kv. (fst kv, case snd kv of Some v \<Rightarrow> canonicalJson v | None \<Rightarrow> ''undefined'')) fs))) @ [CHR 0x7D]"

definition consensusHash :: "(string \<Rightarrow> string) \<Rightarrow> coin_files \<Rightarrow> string \<Rightarrow> string \<Rightarrow> coin_error + string" where
  "consensusHash sha files tick network = map_sum id (\<lambda>fs. sha (subset_text fs)) (consensusSubset files tick network)"

fun consensusHashes :: "(string \<Rightarrow> string) \<Rightarrow> coin_files \<Rightarrow> string list \<Rightarrow> string \<Rightarrow> coin_error + (string \<times> string) list" where
  "consensusHashes sha files [] network = Inr []"
| "consensusHashes sha files (tick # ts) network = (case consensusHash sha files tick network of
     Inl e \<Rightarrow> Inl e
   | Inr h \<Rightarrow> map_sum id (\<lambda>rest. (tick, h) # rest) (consensusHashes sha files ts network))"

fun verify_ticks :: "(string \<Rightarrow> string) \<Rightarrow> coin_files \<Rightarrow> json \<Rightarrow> string \<Rightarrow> string list \<Rightarrow> coin_error + bool" where
  "verify_ticks sha files pin network [] = Inr False"
| "verify_ticks sha files pin network (tick # ts) =
     (if \<not> truthy_opt (field pin tick) then verify_ticks sha files pin network ts
      else (case consensusHash sha files tick network of
         Inl e \<Rightarrow> Inl e
       | Inr actual \<Rightarrow>
           if actual \<noteq> to_lower (js_String (the (field pin tick))) then Inl (PinMismatch tick network)
           else verify_ticks sha files pin network ts))"

text \<open>\<open>Inr True\<close> when the network has no pin and the check is skipped.\<close>

definition verifyConsensusPin :: "(string \<Rightarrow> string) \<Rightarrow> coin_files \<Rightarrow> json \<Rightarrow> string \<Rightarrow> coin_error + bool" where
  "verifyConsensusPin sha files pins network = (case field pins network of
     None \<Rightarrow> Inr True
   | Some pin \<Rightarrow> if pin = JNull then Inr True else verify_ticks sha files pin network (map fst files))"

section \<open>Confirmation depths\<close>

definition or_num :: "jsnum \<Rightarrow> jsnum \<Rightarrow> jsnum" where
  "or_num a b = (if a = NaN \<or> a = Fin 0 then b else a)"

definition depth_key :: "string \<Rightarrow> string" where
  "depth_key tick = ''XCHAIN_CONFIRMATIONS_'' @ tick"

definition resolve_depth :: "env \<Rightarrow> (string \<rightharpoonup> json) \<Rightarrow> string \<Rightarrow> string \<Rightarrow> rat \<Rightarrow> rat" where
  "resolve_depth env cfg network tick dflt =
     (let key = depth_key tick;
          val = or_num (parse_int_num (env key))
                  (or_num (parse_int_num (map_option js_String (cfg key))) (Fin dflt));
          pos = (case val of Fin r \<Rightarrow> if r \<le> 0 then dflt else r | _ \<Rightarrow> dflt)
      in if (network = ''mainnet'' \<or> network = ''testnet'') \<and> pos < dflt then dflt else pos)"

definition resolveConfirmations ::
  "(string \<times> rat) list \<Rightarrow> env \<Rightarrow> (string \<rightharpoonup> json) \<Rightarrow> string \<Rightarrow> (string \<times> rat) list" where
  "resolveConfirmations defaults env cfg network =
     map (\<lambda>(tick, dflt). (tick, resolve_depth env cfg network tick dflt)) defaults"

definition COIN_FILES :: coin_files where
  "COIN_FILES = [(''BTC'', BTC_coin), (''LTC'', LTC_coin), (''DOGE'', DOGE_coin)]"

definition DEFAULT_CONFIRMATIONS :: "(string \<times> rat) list" where
  "DEFAULT_CONFIRMATIONS = concat (map (\<lambda>(tick, coin). case field coin ''confirmations'' of
     Some (JNum (Fin r)) \<Rightarrow> [(tick, r)] | _ \<Rightarrow> []) COIN_FILES)"

definition ALLOWED_COINS :: "string list" where
  "ALLOWED_COINS = map fst COIN_FILES"

definition COIN_FULL_NAME :: "string \<Rightarrow> json option" where
  "COIN_FULL_NAME tick = Option.bind (map_of COIN_FILES tick) (\<lambda>c. field c ''fullName'')"

definition WIRE_FORMAT :: "string \<Rightarrow> json option" where
  "WIRE_FORMAT tick = Option.bind (map_of COIN_FILES tick) (\<lambda>c. field c ''wireFormat'')"

end
