(* ===== verification/CoinText.thy ===== *)
theory CoinText
  imports Coins
begin

text \<open>
  \<open>canonicalJson\<close> is a faithful encoding: \<open>JSON.parse\<close> of the text of a plain value
  (whole numbers, distinct keys) gives the value back with its keys sorted, so equal texts
  mean equal data.
\<close>

section \<open>Plain values\<close>

fun plain :: "json \<Rightarrow> bool" where
  "plain (JNum (Fin r)) = (r = of_int \<lfloor>r\<rfloor> \<and> \<bar>r\<bar> < 10 ^ 21)"
| "plain (JNum _) = False"
| "plain (JArr vs) = list_all plain vs"
| "plain (JObj fs) = (distinct (map fst fs) \<and> list_all (\<lambda>kv. plain (snd kv)) fs)"
| "plain _ = True"

fun sort_keys :: "json \<Rightarrow> json" where
  "sort_keys (JArr vs) = JArr (map sort_keys vs)"
| "sort_keys (JObj fs) = JObj (sort_key fst (map (\<lambda>kv. (fst kv, sort_keys (snd kv))) fs))"
| "sort_keys v = v"

lemma insort_key_map:
  "insort_key fst (k, f v) (map (\<lambda>kv. (fst kv, f (snd kv))) fs) = map (\<lambda>kv. (fst kv, f (snd kv))) (insort_key fst (k, v) fs)"
  by (induction fs) auto

lemma sort_key_map:
  "sort_key fst (map (\<lambda>kv. (fst kv, f (snd kv))) fs) = map (\<lambda>kv. (fst kv, f (snd kv))) (sort_key fst fs)"
  by (induction fs) (auto simp: sort_key_def insort_key_map)

section \<open>Strings and numbers\<close>

lemma hex_val_lower: "d < 16 \<Longrightarrow> hex_val (hex_lower d) = Some d"
  by (auto simp: hex_lower_def hex_val_def char_code_def Let_def)

lemma hex4_control:
  "char_code c < 32 \<Longrightarrow> hex4 (CHR ''0'') (CHR ''0'') (hex_lower (char_code c div 16)) (hex_lower (char_code c mod 16)) = Some (char_code c)"
  using hex_val_lower [of 0] by (simp add: hex4_def hex_val_lower div16_less) (simp add: hex_val_def char_code_def)

lemma char_of_code [simp]: "char_of (char_code c) = c"
  by (simp add: char_code_def)

lemma parse_string_quote_char:
  "parse_string r = Some (s, t) \<Longrightarrow> parse_string (quote_char c @ r) = Some (c # s, t)"
  using hex4_control [of c]
  by (auto simp: quote_char_def simple_escape_def utf8_unit_def)

lemma parse_string_quote: "parse_string (concat (map quote_char s) @ CHR 0x22 # r) = Some (s, r)"
  by (induction s) (simp_all add: parse_string_quote_char)

definition delim :: "string \<Rightarrow> bool" where
  "delim r = (case r of [] \<Rightarrow> True | c # _ \<Rightarrow> c = CHR '','' \<or> c = CHR '']'' \<or> c = CHR 0x7D \<or> json_ws c)"

lemma char_of_48 [simp]: "char_of (48 :: nat) = CHR ''0''"
  by code_simp

lemma show_nat_zero: "hd (show_nat n) = CHR ''0'' \<longleftrightarrow> n = 0"
proof (induction n rule: show_nat.induct)
  case (1 n)
  have "digit_char d = CHR ''0'' \<longleftrightarrow> d = 0" if "d < 10" for d
  proof
    assume "digit_char d = CHR ''0''"
    then have "char_code (digit_char d) = char_code (CHR ''0'')" by simp
    then show "d = 0" using that by (simp add: char_code_digit_char) (simp add: char_code_def)
  qed (simp add: digit_char_def)
  then show ?case
    using 1 by (subst show_nat.simps) (auto simp: hd_append)
qed

lemma int_part_show:
  assumes "r = [] \<or> \<not> is_digit (hd r)"
  shows "int_part (show_nat n @ r) = Some (show_nat n, r)"
proof (cases "n = 0")
  case True
  then have "show_nat n = ''0''" by (subst show_nat.simps) (simp add: digit_char_def)
  then show ?thesis by (simp add: int_part_def)
next
  case False
  obtain c cs where c: "show_nat n = c # cs" by (cases "show_nat n") auto
  have "c \<noteq> CHR ''0''" using show_nat_zero [of n] False c by simp
  moreover have d: "is_digit c" "list_all is_digit (c # cs)" using show_nat_digits [of n] c by auto
  moreover have "takeWhile is_digit (cs @ r) = cs" "dropWhile is_digit (cs @ r) = r"
    using assms d(2) by (auto simp: takeWhile_append dropWhile_append list_all_iff takeWhile_eq_Nil_iff dropWhile_eq_Cons_conv)
      (cases r; simp)+
  ultimately show ?thesis using c by (simp add: int_part_def)
qed

lemma delim_not_digit: "delim r \<Longrightarrow> r = [] \<or> \<not> is_digit (hd r)"
  by (cases r) (auto simp: delim_def is_digit_def json_ws_def char_code_def)

lemma delim_parts: "delim r \<Longrightarrow> frac_part r = Some ([], r)" "delim r \<Longrightarrow> exp_part r = Some (0, r)"
  by (cases r; auto simp: delim_def json_ws_def frac_part_def exp_part_def)+

lemma limit_big: "(10 :: rat) ^ 21 < double_limit"
  by (simp add: double_limit_def)

lemma digit_not_minus: "is_digit c \<Longrightarrow> c \<noteq> CHR ''-''"
  by (auto simp: is_digit_def char_code_def)

lemma show_nat_hd_digit: "is_digit (hd (show_nat n))"
  using show_nat_digits [of n] by (cases "show_nat n") auto

lemma parse_number_whole:
  assumes "of_int i < double_limit" "- double_limit < of_int i" "delim r"
  shows "parse_number (decimal_text (of_int i) @ r) = Some (Fin (of_int i), r)"
proof -
  let ?n = "nat \<bar>i\<bar>"
  have tx: "decimal_text (of_int i) = (if i < 0 then [CHR ''-''] else []) @ show_nat ?n"
    by (simp add: decimal_text_def Let_def flip: of_int_abs)
  note ip = int_part_show [OF delim_not_digit [OF assms(3)], of ?n]
  have num: "to_num (of_nat ?n) = Fin (of_nat ?n)"
    using assms(1,2) by (auto simp: to_num_def abs_if)
  have hd: "(case show_nat ?n @ r of [] \<Rightarrow> False | c # _ \<Rightarrow> c = CHR ''-'') = False"
    using show_nat_hd_digit [of ?n] digit_not_minus by (cases "show_nat ?n") auto
  show ?thesis
  proof (cases "i < 0")
    case True
    then show ?thesis
      using ip num by (simp add: parse_number_def tx delim_parts [OF assms(3)] scale10_def)
  next
    case False
    then show ?thesis
      using ip num hd by (simp add: parse_number_def tx delim_parts [OF assms(3)] scale10_def del: to_num_def)
  qed
qed

section \<open>The first character\<close>

definition value_start :: "string \<Rightarrow> bool" where
  "value_start s = (case s of [] \<Rightarrow> False | c # _ \<Rightarrow> \<not> json_ws c \<and> c \<noteq> CHR '']'' \<and> c \<noteq> CHR 0x7D)"

lemma value_start_digit: "is_digit (hd s) \<Longrightarrow> s \<noteq> [] \<Longrightarrow> value_start s"
  by (cases s) (auto simp: value_start_def is_digit_def json_ws_def char_code_def)

lemma decimal_text_start: "value_start (decimal_text r)"
proof (cases "r < 0")
  case True then show ?thesis by (simp add: decimal_text_def Let_def value_start_def json_ws_def)
next
  case False
  then show ?thesis
    using show_nat_hd_digit [of "nat \<lfloor>\<bar>r\<bar>\<rfloor>"]
    by (intro value_start_digit) (simp_all add: decimal_text_def Let_def)
qed

lemma json_number_start: "value_start (json_number n)"
  by (cases n; simp add: decimal_text_start; simp add: value_start_def json_ws_def)

lemma canonical_start: "value_start (canonicalJson v)"
  by (cases v) (simp_all add: json_number_start, auto simp: value_start_def json_ws_def json_string_def bool_text_def)

lemma value_start_append: "value_start s \<Longrightarrow> value_start (s @ r)"
  by (cases s) (auto simp: value_start_def)

lemma skip_ws_start: "value_start s \<Longrightarrow> skip_ws s = s"
  by (cases s) (auto simp: value_start_def skip_ws_def)

lemma next_is_start: "value_start s \<Longrightarrow> next_is (CHR '']'') s = None" "value_start s \<Longrightarrow> next_is (CHR 0x7D) s = None"
  by (cases s; auto simp: value_start_def next_is_def skip_ws_def)+

lemma next_is_char [simp]:
  "next_is (CHR '']'') (CHR '']'' # r) = Some r" "next_is (CHR 0x7D) (CHR 0x7D # r) = Some r"
  "next_is (CHR '','') (CHR '','' # r) = Some r" "next_is (CHR '']'') (CHR '','' # r) = None"
  "next_is (CHR 0x7D) (CHR '','' # r) = None"
  by (simp_all add: next_is_def skip_ws_def json_ws_def)

lemma parse_key_text: "parse_key (json_string k @ CHR '':'' # r) = Some (k, r)"
  by (simp add: parse_key_def json_string_def next_is_def skip_ws_def json_ws_def parse_string_quote)

section \<open>Round trip\<close>

text \<open>What it means that a text parses to a value, with every amount of fuel that suffices.\<close>

definition reads :: "string \<Rightarrow> json \<Rightarrow> bool" where
  "reads s v = (\<forall>n r. delim r \<longrightarrow> 2 * length (s @ r) < n \<longrightarrow> parse_value n (s @ r) = Some (v, r))"

lemma reads_scalar:
  assumes "s = c # t" "\<not> json_ws c" "c \<noteq> CHR ''[''" "c \<noteq> CHR 0x7B"
    and "\<And>r. delim r \<Longrightarrow> parse_scalar c (t @ r) = Some (v, r)"
  shows "reads s v"
  unfolding reads_def
proof (intro allI impI)
  fix n r assume "delim r" "2 * length (s @ r) < n"
  then show "parse_value n (s @ r) = Some (v, r)"
    using assms by (cases n) (auto simp: skip_ws_def)
qed

lemma reads_elems:
  assumes "list_all (\<lambda>sv. reads (fst sv) (snd sv) \<and> value_start (fst sv)) svs" "svs \<noteq> []"
    and "2 * length (join (map fst svs) @ CHR '']'' # r) + 1 < n"
  shows "parse_elems n (join (map fst svs) @ CHR '']'' # r) = Some (map snd svs, r)"
  using assms
proof (induction svs arbitrary: n)
  case (Cons a svs)
  obtain m where n: "n = Suc m" using Cons.prems(3) by (cases n) auto
  show ?case
  proof (cases svs)
    case Nil
    have "parse_value m (fst a @ CHR '']'' # r) = Some (snd a, CHR '']'' # r)"
      using Cons.prems Nil n by (auto simp: reads_def delim_def)
    then show ?thesis using Nil n by simp
  next
    case (Cons b rest)
    let ?tl = "join (map fst svs) @ CHR '']'' # r"
    have tx: "join (map fst (a # svs)) @ CHR '']'' # r = fst a @ CHR '','' # ?tl"
      using Cons by simp
    have "parse_value m (fst a @ CHR '','' # ?tl) = Some (snd a, CHR '','' # ?tl)"
      using Cons.prems n tx by (auto simp: reads_def delim_def)
    moreover have "parse_elems m ?tl = Some (map snd svs, r)"
      using Cons.prems n tx Cons by (intro Cons.IH) auto
    ultimately show ?thesis using n tx by simp
  qed
qed simp

lemma reads_members:
  assumes "list_all (\<lambda>ksv. reads (fst (snd ksv)) (snd (snd ksv))) ms" "ms \<noteq> []"
    and "2 * length (join (map (\<lambda>ksv. member_text (fst ksv, fst (snd ksv))) ms) @ CHR 0x7D # r) + 1 < n"
  shows "parse_members n (join (map (\<lambda>ksv. member_text (fst ksv, fst (snd ksv))) ms) @ CHR 0x7D # r)
       = Some (map (\<lambda>ksv. (fst ksv, snd (snd ksv))) ms, r)"
  using assms
proof (induction ms arbitrary: n)
  case (Cons a ms)
  obtain m where n: "n = Suc m" using Cons.prems(3) by (cases n) auto
  let ?tx = "\<lambda>xs. join (map (\<lambda>ksv. member_text (fst ksv, fst (snd ksv))) xs) @ CHR 0x7D # r"
  let ?rest = "if ms = [] then CHR 0x7D # r else CHR '','' # ?tx ms"
  have tx: "?tx (a # ms) = json_string (fst a) @ CHR '':'' # fst (snd a) @ ?rest"
    by (cases ms) (simp_all add: member_text_def)
  have "delim ?rest" by (simp add: delim_def)
  moreover have "2 * length (fst (snd a) @ ?rest) < m"
    using Cons.prems(3) n unfolding tx by auto
  ultimately have v: "parse_value m (fst (snd a) @ ?rest) = Some (snd (snd a), ?rest)"
    using Cons.prems(1) by (simp add: reads_def)
  show ?case
  proof (cases ms)
    case Nil
    then show ?thesis using n v unfolding tx by (simp add: parse_key_text)
  next
    case (Cons b rest)
    have "parse_members m (?tx ms) = Some (map (\<lambda>ksv. (fst ksv, snd (snd ksv))) ms, r)"
      using Cons.prems n Cons unfolding tx by (intro Cons.IH) auto
    then show ?thesis using n v Cons unfolding tx by (simp add: parse_key_text)
  qed
qed simp

lemma fold_update_distinct:
  "distinct (map fst (acc @ fs)) \<Longrightarrow> fold (\<lambda>(k, v). AList.update k v) fs acc = acc @ fs"
proof (induction fs arbitrary: acc)
  case (Cons kv fs)
  obtain k v where kv: "kv = (k, v)" by force
  have "k \<notin> set (map fst acc)" using Cons.prems kv by auto
  then have "AList.update k v acc = acc @ [(k, v)]"
    by (induction acc) auto
  then show ?case using Cons.IH [of "acc @ [kv]"] Cons.prems kv by simp
qed simp

lemma reads_array:
  assumes "list_all (\<lambda>sv. reads (fst sv) (snd sv) \<and> value_start (fst sv)) svs"
  shows "reads (CHR ''['' # join (map fst svs) @ [CHR '']'']) (JArr (map snd svs))"
  unfolding reads_def
proof (intro allI impI)
  fix n r assume "delim r" and fuel: "2 * length ((CHR ''['' # join (map fst svs) @ [CHR '']'']) @ r) < n"
  then obtain m where n: "n = Suc m" by (cases n) auto
  show "parse_value n ((CHR ''['' # join (map fst svs) @ [CHR '']'']) @ r) = Some (JArr (map snd svs), r)"
  proof (cases svs)
    case Nil then show ?thesis using n by (simp add: skip_ws_def json_ws_def)
  next
    case (Cons a rest)
    have "value_start (join (map fst svs))"
      using assms Cons by (cases rest) (auto intro: value_start_append)
    then have "next_is (CHR '']'') (join (map fst svs) @ CHR '']'' # r) = None"
      by (intro next_is_start(1) value_start_append)
    moreover have "parse_elems m (join (map fst svs) @ CHR '']'' # r) = Some (map snd svs, r)"
      using fuel n Cons by (intro reads_elems [OF assms]) auto
    ultimately show ?thesis using n by (simp add: skip_ws_def json_ws_def)
  qed
qed

lemma reads_object:
  assumes "list_all (\<lambda>ksv. reads (fst (snd ksv)) (snd (snd ksv))) ms" "distinct (map fst ms)"
  shows "reads (CHR 0x7B # join (map (\<lambda>ksv. member_text (fst ksv, fst (snd ksv))) ms) @ [CHR 0x7D])
           (JObj (map (\<lambda>ksv. (fst ksv, snd (snd ksv))) ms))"
  unfolding reads_def
proof (intro allI impI)
  let ?j = "join (map (\<lambda>ksv. member_text (fst ksv, fst (snd ksv))) ms)"
  let ?o = "map (\<lambda>ksv. (fst ksv, snd (snd ksv))) ms"
  fix n r assume "delim r" and fuel: "2 * length ((CHR 0x7B # ?j @ [CHR 0x7D]) @ r) < n"
  then obtain m where n: "n = Suc m" by (cases n) auto
  show "parse_value n ((CHR 0x7B # ?j @ [CHR 0x7D]) @ r) = Some (JObj ?o, r)"
  proof (cases ms)
    case Nil then show ?thesis using n by (simp add: skip_ws_def json_ws_def)
  next
    case (Cons a rest)
    have "value_start ?j"
      using Cons by (cases rest) (auto simp: member_text_def json_string_def value_start_def json_ws_def)
    then have "next_is (CHR 0x7D) (?j @ CHR 0x7D # r) = None"
      by (intro next_is_start(2) value_start_append)
    moreover have "parse_members m (?j @ CHR 0x7D # r) = Some (?o, r)"
      using fuel n Cons by (intro reads_members [OF assms(1)]) auto
    moreover have "fold (\<lambda>(k, v). AList.update k v) ?o [] = ?o"
      using fold_update_distinct [of "[]" ?o] assms(2) by (simp add: comp_def)
    ultimately show ?thesis using n by (simp add: skip_ws_def json_ws_def)
  qed
qed

lemma reads_string: "reads (json_string s) (JStr s)"
  by (rule reads_scalar [of _ "CHR 0x22" "concat (map quote_char s) @ [CHR 0x22]"])
    (simp_all add: json_string_def json_ws_def parse_scalar_def parse_string_quote)

lemma reads_number:
  assumes "plain (JNum n)"
  shows "reads (json_number n) (JNum n)"
proof (cases n)
  case (Fin q)
  define i where "i = \<lfloor>q\<rfloor>"
  have q: "q = of_int i" "\<bar>q\<bar> < 10 ^ 21" using assms Fin by (simp_all add: i_def)
  then have lim: "of_int i < double_limit" "- double_limit < of_int i"
    using limit_big by (auto simp: abs_less_iff)
  let ?s = "decimal_text (of_int i)"
  obtain c t where s: "?s = c # t" and start: "\<not> json_ws c"
    using decimal_text_start [of "of_int i"] by (cases ?s) (auto simp: value_start_def)
  have c: "c = CHR ''-'' \<or> is_digit c"
    using s show_nat_hd_digit [of "nat \<bar>i\<bar>"]
    by (auto simp: decimal_text_def Let_def split: if_splits simp flip: of_int_abs)
  then have "c \<noteq> CHR 0x22 \<and> c \<noteq> CHR ''t'' \<and> c \<noteq> CHR ''f'' \<and> c \<noteq> CHR ''n'' \<and> c \<noteq> CHR ''['' \<and> c \<noteq> CHR 0x7B"
    by (auto simp: is_digit_def char_code_def)
  then show ?thesis
    using parse_number_whole [OF lim] s start Fin q(1)
    by (intro reads_scalar [of _ c t]) (simp_all add: parse_scalar_def)
qed (use assms in auto)

lemma reads_literals: "reads ''null'' JNull" "reads (bool_text b) (JBool b)"
proof -
  show "reads ''null'' JNull"
    by (rule reads_scalar [of _ "CHR ''n''" "''ull''"]; simp add: json_ws_def parse_scalar_def)
  have "reads ''true'' (JBool True)"
    by (rule reads_scalar [of _ "CHR ''t''" "''rue''"]; simp add: json_ws_def parse_scalar_def)
  moreover have "reads ''false'' (JBool False)"
    by (rule reads_scalar [of _ "CHR ''f''" "''alse''"]; simp add: json_ws_def parse_scalar_def)
  ultimately show "reads (bool_text b) (JBool b)" by (simp add: bool_text_def)
qed

lemma canonical_reads: "plain v \<Longrightarrow> reads (canonicalJson v) (sort_keys v)"
proof (induction v)
  case (JNum n) then show ?case using reads_number by simp
next
  case (JArr vs)
  have "list_all (\<lambda>sv. reads (fst sv) (snd sv) \<and> value_start (fst sv)) (map (\<lambda>v. (canonicalJson v, sort_keys v)) vs)"
    using JArr canonical_start by (auto simp: list_all_iff)
  then show ?case
    using reads_array [of "map (\<lambda>v. (canonicalJson v, sort_keys v)) vs"] by (simp add: comp_def)
next
  case (JObj fs)
  let ?gs = "sort_key fst fs"
  let ?ms = "map (\<lambda>kv. (fst kv, (canonicalJson (snd kv), sort_keys (snd kv)))) ?gs"
  have "list_all (\<lambda>ksv. reads (fst (snd ksv)) (snd (snd ksv))) ?ms"
    using JObj by (fastforce simp: list_all_iff)
  moreover have "distinct (map fst ?ms)"
    using JObj.prems by (simp add: comp_def distinct_map)
  ultimately show ?case
    using reads_object [of ?ms] by (simp add: sort_key_map comp_def)
qed (simp_all add: reads_literals reads_string)

text \<open>
  C37. \<open>JSON.parse\<close> of the canonical text of a plain value is that value with the keys of
  every object sorted, so the canonical text, and hence the consensus hash input, loses
  nothing but key order.
\<close>

theorem canonical_json_round_trip:
  assumes "plain v"
  shows "json_parse (canonicalJson v) = Some (sort_keys v)"
proof -
  have "parse_value (2 * length (canonicalJson v) + 1) (canonicalJson v @ []) = Some (sort_keys v, [])"
    using canonical_reads [OF assms] unfolding reads_def
    by (metis (no_types, lifting) append_Nil2 delim_def less_add_one list.simps(4))
  then show ?thesis by (simp add: json_parse_def skip_ws_def)
qed

theorem canonical_json_round_trip_witness:
  "json_parse (canonicalJson (JObj [(''b'', JNum (Fin 2)), (''a'', JArr [JStr [CHR 0x22], JNull])]))
     = Some (JObj [(''a'', JArr [JStr [CHR 0x22], JNull]), (''b'', JNum (Fin 2))])"
proof -
  let ?v = "JObj [(''b'', JNum (Fin 2)), (''a'', JArr [JStr [CHR 0x22], JNull])]"
  have "plain ?v" by simp
  moreover have "sort_keys ?v = JObj [(''a'', JArr [JStr [CHR 0x22], JNull]), (''b'', JNum (Fin 2))]"
    by code_simp
  ultimately show ?thesis using canonical_json_round_trip by metis
qed

lemma canonical_inj: "plain v \<Longrightarrow> plain w \<Longrightarrow> canonicalJson v = canonicalJson w \<Longrightarrow> sort_keys v = sort_keys w"
proof -
  have eq: "parse_value (2 * length (canonicalJson u) + 1) (canonicalJson u) = Some (sort_keys u, [])" if "plain u" for u
    using canonical_reads [OF that] unfolding reads_def
    by (metis (no_types, lifting) append_Nil2 delim_def less_add_one list.simps(4))
  assume "plain v" "plain w" "canonicalJson v = canonicalJson w"
  then show ?thesis using eq [of v] eq [of w] by simp
qed

end
