(* ===== verification/CoinConfig.thy ===== *)
theory CoinConfig
  imports CoinText
begin

text \<open>
  What the coin registry promises its consumers: away from regtest nothing an operator sets
  reaches a resolved coin, what is served is what is pinned, a verified pin means the same
  consensus data, and confirmation depths are only ever raised.
\<close>

section \<open>No environment off regtest\<close>

text \<open>
  On mainnet and testnet (on any network but regtest) the resolved configuration of a
  coin does not depend on the process environment or on a sidecar file, whatever the coin
  files declare: two operators with the same bundle resolve the same configuration.
\<close>

lemma config_ignores_environment:
  assumes "network \<noteq> ''regtest''"
  shows "getCoinConfig files env sidecar tick network = getCoinConfig files env' sidecar' tick network"
proof -
  have gen: "resolveGenesis env b network = resolveGenesis env' b network" for b
    using assms by (cases b) (simp_all add: resolveGenesis_def split_beta)
  have node: "resolveFullnode env sidecar f network = resolveFullnode env' sidecar' f network" for f
    using assms by (cases f) (simp_all add: resolveFullnode_def Let_def)
  have fee: "resolveFeeDestination env tick network d = resolveFeeDestination env' tick network d" for d
    using assms by (simp add: resolveFeeDestination_def split: option.splits)
  have eq: "resolved_members env sidecar tick network = resolved_members env' sidecar' tick network"
    by (intro ext) (simp add: resolved_members_def gen node fee)
  show ?thesis by (simp only: getCoinConfig_def eq)
qed

section \<open>What is served is what is pinned\<close>

lemma field_JObj [simp]: "field (JObj fs) k = map_of fs k"
  by (simp add: field_def fields_def)

lemma map_of_opt_member [simp]: "map_of (opt_member k v) x = (if x = k then v else None)"
  by (cases v) (auto simp: opt_member_def)

lemma map_of_opt_members [simp]:
  "map_of (concat (map (\<lambda>k. opt_member k (f k)) ks)) x = (if x \<in> set ks then f x else None)"
  by (induction ks) (auto simp: map_of_append map_add_def split: option.splits)

lemma map_of_keyed [simp]: "map_of (map (\<lambda>k. (k, f k)) ks) x = (if x \<in> set ks then Some (f x) else None)"
  by (induction ks) auto

lemma map_of_filter_keys: "map_of (filter (\<lambda>(k, v). P k) fs) x = (if P x then map_of fs x else None)"
  by (induction fs) auto

lemma map_of_update [simp]: "map_of (AList.update k v fs) x = (if x = k then Some v else map_of fs x)"
  by (simp add: update_conv')

lemma getCoinConfig_parts:
  assumes "getCoinConfig files env sidecar tick network = Inr r"
  obtains coin block addresses net where "network_block files tick network = Inr (coin, block)"
    "field block ''addresses'' = Some addresses" "field block ''net'' = Some net"
    "r = JObj (resolved_members env sidecar tick network coin block net addresses)"
  using assms by (auto simp: getCoinConfig_def split: if_splits sum.splits option.splits prod.splits)

lemma pinned_keys_distinct:
  "k \<in> {''net'', ''wireFormat'', ''firstBlock'', ''addresses'', ''CONFIG_SLASH'', ''FULLNODE''} \<Longrightarrow> k \<notin> set pinned_keys"
  by (auto simp: pinned_keys_def)

lemma consensusSubset_parts:
  assumes "consensusSubset files tick network = Inr s" "network_block files tick network = Inr (coin, block)"
  shows "map_of s k =
    (if k = ''net'' then Some (field block ''net'') else if k = ''wireFormat'' then Some (field coin ''wireFormat'')
     else if k = ''firstBlock'' then Some (field block ''firstBlock'')
     else if k = ''addresses'' then Some (Some (JObj (filter (\<lambda>(k, v). k \<notin> set (display_roles coin))
          (case field block ''addresses'' of Some a \<Rightarrow> fields a | None \<Rightarrow> []))))
     else if k \<in> set pinned_keys then Some (field coin k)
     else if k = ''CONFIG_SLASH'' \<and> truthy_opt (field coin ''CONFIG_SLASH'') then Some (field coin ''CONFIG_SLASH'')
     else if k = ''FULLNODE'' \<and> truthy_opt (field coin ''FULLNODE'')
       then Some (map_option stripDescriptors (field coin ''FULLNODE'')) else None)"
proof -
  have s: "s = [(''net'', field block ''net''), (''wireFormat'', field coin ''wireFormat''),
             (''firstBlock'', field block ''firstBlock''),
             (''addresses'', Some (JObj (filter (\<lambda>(k, v). k \<notin> set (display_roles coin))
                (case field block ''addresses'' of Some a \<Rightarrow> fields a | None \<Rightarrow> []))))]
            @ map (\<lambda>k. (k, field coin k)) pinned_keys
            @ (if truthy_opt (field coin ''CONFIG_SLASH'') then [(''CONFIG_SLASH'', field coin ''CONFIG_SLASH'')] else [])
            @ (if truthy_opt (field coin ''FULLNODE'')
               then [(''FULLNODE'', map_option stripDescriptors (field coin ''FULLNODE''))] else [])"
    using assms by (simp add: consensusSubset_def)
  show ?thesis
    unfolding s map_of_append map_add_def by (simp add: pinned_keys_distinct split: option.splits)
qed

text \<open>The keys of the resolved object the pin covers, addresses and FULLNODE apart.\<close>

lemma resolved_pinned:
  "k \<in> set pinned_keys \<Longrightarrow>
     map_of (resolved_members env sidecar tick network coin block net addresses) k = field coin k"
  "map_of (resolved_members env sidecar tick network coin block net addresses) ''wireFormat'' = field coin ''wireFormat''"
  "map_of (resolved_members env sidecar tick network coin block net addresses) ''net'' = Some net"
  "map_of (resolved_members env sidecar tick network coin block net addresses) ''firstBlock'' = field block ''firstBlock''"
  "truthy_opt (field coin ''CONFIG_SLASH'') \<Longrightarrow>
     map_of (resolved_members env sidecar tick network coin block net addresses) ''CONFIG_SLASH'' = field coin ''CONFIG_SLASH''"
proof -
  have keys: "k \<in> set (cloned_keys @ plain_keys) \<and> k \<notin> {''CONFIG_SLASH'', ''FULLNODE'', ''network'', ''net'', ''firstBlock'',
      ''chainGenesisHash'', ''addresses'', ''genesis'', ''tick'', ''fullName'', ''displayName'', ''site'', ''decimals'',
      ''confirmations'', ''wireFormat''}" if "k \<in> set pinned_keys"
    using that by (auto simp: pinned_keys_def cloned_keys_def plain_keys_def)
  have other: "''wireFormat'' \<notin> set (cloned_keys @ plain_keys)" "''net'' \<notin> set (cloned_keys @ plain_keys)"
    "''firstBlock'' \<notin> set (cloned_keys @ plain_keys)" "''CONFIG_SLASH'' \<notin> set (cloned_keys @ plain_keys)"
    by (simp_all add: cloned_keys_def plain_keys_def)
  let ?m = "map_of (resolved_members env sidecar tick network coin block net addresses)"
  show "k \<in> set pinned_keys \<Longrightarrow> ?m k = field coin k"
    using keys unfolding resolved_members_def Let_def map_of_append map_add_def map_of_opt_members map_of_opt_member
    by (simp split: option.splits)
  show "?m ''wireFormat'' = field coin ''wireFormat''" "?m ''net'' = Some net" "?m ''firstBlock'' = field block ''firstBlock''"
    using other unfolding resolved_members_def Let_def map_of_append map_add_def map_of_opt_members map_of_opt_member
    by (simp_all split: option.splits)
  show "truthy_opt (field coin ''CONFIG_SLASH'') \<Longrightarrow> ?m ''CONFIG_SLASH'' = field coin ''CONFIG_SLASH''"
    using other unfolding resolved_members_def Let_def map_of_append map_add_def map_of_opt_members map_of_opt_member
    by (simp split: option.splits)
qed

lemma resolved_addresses:
  "map_of (resolved_members env sidecar tick network coin block net addresses) ''addresses''
     = Some (JObj (case resolveFeeDestination env tick network (field addresses ''FEE_DESTINATION'') of
         Some d \<Rightarrow> AList.update ''FEE_DESTINATION'' d (fields addresses) | None \<Rightarrow> fields addresses))"
proof -
  have "''addresses'' \<notin> set (cloned_keys @ plain_keys)" by (simp add: cloned_keys_def plain_keys_def)
  then show ?thesis
    unfolding resolved_members_def Let_def map_of_append map_add_def map_of_opt_members map_of_opt_member
    by (simp split: option.splits)
qed

text \<open>
  Off regtest, a configuration the registry serves carries exactly the values the
  consensus hash is taken over: every pinned key but the address map and FULLNODE has the
  hashed value, and every hashed address role has the hashed address, the fee destination
  included.
\<close>

lemma served_is_pinned:
  assumes served: "getCoinConfig files env sidecar tick network = Inr r"
    and pinned: "consensusSubset files tick network = Inr s" and off: "network \<noteq> ''regtest''"
  shows "(map_of s k = Some v \<longrightarrow> k \<notin> {''addresses'', ''FULLNODE''} \<longrightarrow> field r k = v)
       \<and> (\<exists>pa ra. map_of s ''addresses'' = Some (Some pa) \<and> field r ''addresses'' = Some ra
            \<and> (\<forall>role a. field pa role = Some a \<longrightarrow> field ra role = Some a))"
proof -
  obtain coin block addresses net where parts: "network_block files tick network = Inr (coin, block)"
    "field block ''addresses'' = Some addresses" "field block ''net'' = Some net"
    "r = JObj (resolved_members env sidecar tick network coin block net addresses)"
    by (rule getCoinConfig_parts [OF served])
  note sub = consensusSubset_parts [OF pinned parts(1)]
  have fee: "resolveFeeDestination env tick network d = d" for d
    using off by (auto simp: resolveFeeDestination_def split: option.splits)
  have "field r k = v" if "map_of s k = Some v" "k \<notin> {''addresses'', ''FULLNODE''}"
  proof -
    from that sub [of k] consider "k = ''net''" "v = field block ''net''" | "k = ''firstBlock''" "v = field block ''firstBlock''"
      | "k \<in> set pinned_keys" "v = field coin k" | "k = ''wireFormat''" "v = field coin ''wireFormat''"
      | "k = ''CONFIG_SLASH''" "truthy_opt (field coin ''CONFIG_SLASH'')" "v = field coin ''CONFIG_SLASH''"
      by (auto split: if_splits)
    then show ?thesis
      by cases (simp_all add: parts(3,4) resolved_pinned)
  qed
  moreover have "field (JObj (case field addresses ''FEE_DESTINATION'' of
         Some d \<Rightarrow> AList.update ''FEE_DESTINATION'' d (fields addresses) | None \<Rightarrow> fields addresses)) role
       = field addresses role" for role
    by (auto simp: field_def split: option.splits)
  ultimately show ?thesis
    using sub [of "''addresses''"]
    by (auto simp: parts(2,4) resolved_addresses fee map_of_filter_keys split: if_splits) (auto simp: field_def)
qed

lemma shipped_blocks:
  "network_block COIN_FILES ''BTC'' ''testnet'' = Inr (BTC_coin, BTC_testnet)"
  "network_block COIN_FILES ''LTC'' ''testnet'' = Inr (LTC_coin, LTC_testnet)"
  "network_block COIN_FILES ''DOGE'' ''mainnet'' = Inr (DOGE_coin, DOGE_mainnet)"
  by (simp_all add: network_block_def COIN_FILES_def BTC_coin_def LTC_coin_def DOGE_coin_def
      BTC_testnet_def LTC_testnet_def DOGE_mainnet_def)

lemma shipped_testnet_config:
  "getCoinConfig COIN_FILES env sidecar ''BTC'' ''testnet'' = Inr (JObj (resolved_members env sidecar ''BTC'' ''testnet''
     BTC_coin BTC_testnet (the (field BTC_testnet ''net'')) (the (field BTC_testnet ''addresses''))))"
  by (simp add: getCoinConfig_def shipped_blocks NETWORKS_def cloned_keys_def)
    (simp add: COIN_FILES_def BTC_coin_def BTC_testnet_def)

lemma shipped_subset: "\<exists>s. consensusSubset COIN_FILES ''BTC'' ''testnet'' = Inr s \<and> map_of s ''firstBlock'' = Some (field BTC_testnet ''firstBlock'')"
  by (simp add: consensusSubset_def shipped_blocks)

section \<open>A verified pin means the same data\<close>

lemma verify_ticks_pinned:
  assumes "verify_ticks sha files pin network ts = Inr b" "tick \<in> set ts" "field pin tick = Some h" "truthy h"
  shows "consensusHash sha files tick network = Inr (to_lower (js_String h))"
  using assms
  by (induction ts) (auto split: if_splits sum.splits)

text \<open>Every member of a subset is present and plain; the shipped files are so.\<close>

definition subset_value :: "(string \<times> json option) list \<Rightarrow> json" where
  "subset_value s = JObj (map (\<lambda>kv. (fst kv, the (snd kv))) s)"

definition plain_subset :: "(string \<times> json option) list \<Rightarrow> bool" where
  "plain_subset s = (list_all (\<lambda>kv. snd kv \<noteq> None) s \<and> plain (subset_value s))"

lemma subset_text_value: "plain_subset s \<Longrightarrow> subset_text s = canonicalJson (subset_value s)"
proof -
  assume "plain_subset s"
  then have eq: "map (\<lambda>kv. (fst kv, case snd kv of Some v \<Rightarrow> canonicalJson v | None \<Rightarrow> ''undefined'')) s
      = map (\<lambda>kv. (fst kv, canonicalJson (snd kv))) (map (\<lambda>kv. (fst kv, the (snd kv))) s)"
    by (auto simp: plain_subset_def list_all_iff split: option.splits)
  show ?thesis by (simp only: subset_text_def subset_value_def canonicalJson.simps eq)
qed


definition BTC_testnet_subset :: "(string \<times> json option) list" where
  "BTC_testnet_subset = (case consensusSubset COIN_FILES ''BTC'' ''testnet'' of Inr s \<Rightarrow> s | Inl _ \<Rightarrow> [])"

lemma BTC_testnet_subset: "consensusSubset COIN_FILES ''BTC'' ''testnet'' = Inr BTC_testnet_subset"
  using shipped_subset by (auto simp: BTC_testnet_subset_def)

lemma shipped_subset_plain: "plain_subset BTC_testnet_subset"
  by code_simp

definition demo_pins :: json where
  "demo_pins = JObj [(''testnet'', JObj [(''BTC'', JStr ''AB'')])]"

lemma lower_AB: "to_lower ''AB'' = ''ab''"
  by code_simp

lemma demo_verified: "verifyConsensusPin (\<lambda>_. ''ab'') COIN_FILES demo_pins ''testnet'' = Inr False"
  using BTC_testnet_subset
  by (simp add: verifyConsensusPin_def demo_pins_def consensusHash_def lower_AB COIN_FILES_def)


section \<open>Confirmation depths\<close>

text \<open>
  On mainnet and testnet no setting lowers a coin's confirmation depth below the
  registry default, and a whole-number setting above it is honoured as given; the configured
  value counts only when the environment gives none.
\<close>

lemma confirmation_depth_floor:
  assumes "network = ''mainnet'' \<or> network = ''testnet''" and "0 < dflt"
  shows "dflt \<le> resolve_depth env cfg network tick dflt
       \<and> (\<forall>r. parse_int_num (env (depth_key tick)) = Fin r \<and> dflt \<le> r \<longrightarrow> resolve_depth env cfg network tick dflt = r)
       \<and> (\<forall>r v. env (depth_key tick) = None \<and> cfg (depth_key tick) = Some v
            \<and> parse_int_num (Some (js_String v)) = Fin r \<and> dflt \<le> r \<longrightarrow> resolve_depth env cfg network tick dflt = r)"
  using assms
  by (auto simp: resolve_depth_def or_num_def parse_int_num_def [of None] Let_def split: jsnum.splits)

lemma depth_text: "parse_int_num (Some ''2'') = Fin 2"
  by (simp add: parse_int_num_def parseInt10_def trim_start_def is_ws_def is_digit_def char_code_def decimal_nat_def
      nat_of_digits_def digit_val_def to_num_def double_limit_def)

text \<open>Regtest keeps the full override; the same setting below the floor is taken there.\<close>

lemma regtest_keeps_override:
  "resolve_depth [depth_key ''BTC'' \<mapsto> ''2''] Map.empty ''regtest'' ''BTC'' 6 = 2"
  "resolve_depth [depth_key ''BTC'' \<mapsto> ''2''] Map.empty ''mainnet'' ''BTC'' 6 = 6"
  by (simp_all add: resolve_depth_def or_num_def depth_text)

section \<open>The shipped registry\<close>

lemma shipped_confirmations: "DEFAULT_CONFIRMATIONS = [(''BTC'', 6), (''LTC'', 12), (''DOGE'', 60)]"
  by (simp add: DEFAULT_CONFIRMATIONS_def COIN_FILES_def BTC_coin_def LTC_coin_def DOGE_coin_def)

lemma shipped_full_names:
  "FULL_NAME_TO_TICK COIN_FILES ''bitcoin'' = Some ''BTC''" "FULL_NAME_TO_TICK COIN_FILES ''litecoin'' = Some ''LTC''"
  "FULL_NAME_TO_TICK COIN_FILES ''dogecoin'' = Some ''DOGE''"
  by (simp_all add: FULL_NAME_TO_TICK_def COIN_FILES_def BTC_coin_def LTC_coin_def DOGE_coin_def)

end
