(* ===== verification/StopBudget.thy ===== *)
theory StopBudget
  imports Naming
begin

text \<open>
  Stop budgets of containers: \<open>services/stop_budget_service.js\<close>, the coin node's budget in
  \<open>services/node_service/node_stop.js\<close>, and how docker's stop is read back in
  \<open>services/docker_service.js\<close>. Budgets are seconds and drains milliseconds, exact whole
  numbers. Operator lines are constructors carrying what their text says. What docker
  answers is an argument.
\<close>

section \<open>Budgets\<close>

definition DEFAULT_MODULE_STOP_TIMEOUT_SECONDS :: int where "DEFAULT_MODULE_STOP_TIMEOUT_SECONDS = 30"
definition DEFAULT_NODE_STOP_TIMEOUT_SECONDS :: int where "DEFAULT_NODE_STOP_TIMEOUT_SECONDS = 600"
definition STOP_DRAIN_MARGIN_MS :: int where "STOP_DRAIN_MARGIN_MS = 20000"
definition EXIT_ON_SIGTERM_DEFAULT :: int where "EXIT_ON_SIGTERM_DEFAULT = 143"
definition NODE_MODULE_NAME :: string where "NODE_MODULE_NAME = ''node''"

definition MODULE_STOP_TIMEOUT_SECONDS :: "string \<Rightarrow> int option" where
  "MODULE_STOP_TIMEOUT_SECONDS m = map_of [(''xchain-decoder'', 120), (''xchain-utxo-tracker'', 120)] m"

type_synonym env = "string \<rightharpoonup> string"

definition env_suffix :: "string \<Rightarrow> string" where
  "env_suffix m = map (\<lambda>c. if is_upper c \<or> is_digit c then c else CHR ''_'') (map upper_char m)"

definition moduleStopTimeoutEnvName :: "string \<Rightarrow> string" where
  "moduleStopTimeoutEnvName m = ''XCHAIN_NODE_MODULE_STOP_TIMEOUT_SECONDS_'' @ env_suffix m"

definition show_int :: "int \<Rightarrow> string" where
  "show_int i = (if i < 0 then CHR ''-'' # show_nat (nat (- i)) else show_nat (nat i))"

text \<open>A whole number of seconds written plainly, or the fallback.\<close>

definition whole_seconds :: "string option \<Rightarrow> int \<Rightarrow> int" where
  "whole_seconds raw fallback = (case raw of
     None \<Rightarrow> fallback
   | Some s \<Rightarrow>
       if trim s = [] then fallback
       else (case parseInt10 s of
               None \<Rightarrow> fallback
             | Some n \<Rightarrow> if n < 1 \<or> show_int n \<noteq> trim s then fallback else n))"

definition nodeStopTimeoutSeconds :: "env \<Rightarrow> int" where
  "nodeStopTimeoutSeconds env = whole_seconds (env ''XCHAIN_NODE_STOP_TIMEOUT_SECONDS'') DEFAULT_NODE_STOP_TIMEOUT_SECONDS"

definition default_budget :: "string \<Rightarrow> int" where
  "default_budget m = (case MODULE_STOP_TIMEOUT_SECONDS m of Some s \<Rightarrow> s | None \<Rightarrow> DEFAULT_MODULE_STOP_TIMEOUT_SECONDS)"

definition moduleStopTimeoutSeconds :: "env \<Rightarrow> string \<Rightarrow> int" where
  "moduleStopTimeoutSeconds env m =
     (if m = NODE_MODULE_NAME then nodeStopTimeoutSeconds env
      else whole_seconds (env (moduleStopTimeoutEnvName m)) (default_budget m))"

definition stopTimeoutArgs :: "env \<Rightarrow> string \<Rightarrow> string list" where
  "stopTimeoutArgs env m = [''--stop-timeout'', show_int (moduleStopTimeoutSeconds env m)]"

section \<open>Drain timers\<close>

definition isDefaultStopBudget :: "string \<Rightarrow> int \<Rightarrow> bool" where
  "isDefaultStopBudget m seconds = (seconds = default_budget m)"

definition shutdownTimeoutMsForBudget :: "string \<Rightarrow> int \<Rightarrow> int option" where
  "shutdownTimeoutMsForBudget m seconds =
     (if m = NODE_MODULE_NAME then None
      else if MODULE_STOP_TIMEOUT_SECONDS m = None \<and> isDefaultStopBudget m seconds then None
      else Some (max (seconds * 1000 - STOP_DRAIN_MARGIN_MS) (seconds * 1000 div 2)))"

definition moduleShutdownTimeoutMs :: "env \<Rightarrow> string \<Rightarrow> int option" where
  "moduleShutdownTimeoutMs env m =
     (if m = NODE_MODULE_NAME then None else shutdownTimeoutMsForBudget m (moduleStopTimeoutSeconds env m))"

definition serviceHonoursShutdownMs :: "string option \<Rightarrow> bool" where
  "serviceHonoursShutdownMs v = (case v of
     None \<Rightarrow> False
   | Some s \<Rightarrow> (case parseInt10 s of Some ms \<Rightarrow> 0 < ms | None \<Rightarrow> False))"

definition shutdown_ms :: "string option \<Rightarrow> int" where
  "shutdown_ms v = (case v of Some s \<Rightarrow> (case parseInt10 s of Some ms \<Rightarrow> ms | None \<Rightarrow> 0) | None \<Rightarrow> 0)"

definition overBudgetShutdownMs :: "string option \<Rightarrow> int \<Rightarrow> int option" where
  "overBudgetShutdownMs v budget =
     (if \<not> serviceHonoursShutdownMs v then None
      else if budget * 1000 \<le> shutdown_ms v then Some (shutdown_ms v) else None)"

datatype line =
    OverBudget int int
  | IgnoredShutdown string "int option" int
  | CreatedUnder int
  | CreatedUnstamped
  | CreatedBeforeForwarding
  | CreatedIgnored string
  | StopKilled int
  | StopUnclean int int
  | StopClean int int

definition SHUTDOWN_KEY :: string where "SHUTDOWN_KEY = ''SHUTDOWN_TIMEOUT_MS''"

text \<open>What is added to a container's environment, and the warning.\<close>

definition shutdownTimeoutEnv :: "env \<Rightarrow> string \<Rightarrow> env option \<Rightarrow> (string \<times> string) list \<times> line option" where
  "shutdownTimeoutEnv env m moduleConfig =
     (let configured = (case moduleConfig of Some c \<Rightarrow> c SHUTDOWN_KEY | None \<Rightarrow> None);
          explicit = (case configured of Some s \<Rightarrow> trim s \<noteq> [] | None \<Rightarrow> False);
          budget = moduleStopTimeoutSeconds env m;
          derived = shutdownTimeoutMsForBudget m budget
      in if m = [] \<or> m = NODE_MODULE_NAME then ([], None)
         else if explicit \<and> serviceHonoursShutdownMs configured
           then ([], map_option (\<lambda>over. OverBudget over budget) (overBudgetShutdownMs configured budget))
         else (case derived of Some ms \<Rightarrow> [(SHUTDOWN_KEY, show_int ms)] | None \<Rightarrow> [],
               if explicit then Some (IgnoredShutdown (the configured) derived budget) else None))"

text \<open>What \<open>docker inspect\<close> says of a container: its stop timeout and its drain timer.\<close>

record stop_settings =
  ss_stop_timeout :: "int option"
  ss_shutdown_ms :: "string option"

definition describeStopBudgetDrift :: "string \<Rightarrow> stop_settings option \<Rightarrow> int \<Rightarrow> line option" where
  "describeStopBudgetDrift m settings budget = (case settings of
     None \<Rightarrow> None
   | Some ss \<Rightarrow>
       if m = NODE_MODULE_NAME then None
       else let carried = (if serviceHonoursShutdownMs (ss_shutdown_ms ss) then ss_shutdown_ms ss else None);
                forwards = (shutdownTimeoutMsForBudget m budget \<noteq> None)
            in if \<not> forwards \<and> carried = None then None
               else if ss_stop_timeout ss \<noteq> Some budget then
                 (case ss_stop_timeout ss of Some s \<Rightarrow> Some (CreatedUnder s) | None \<Rightarrow> Some CreatedUnstamped)
               else if carried = None \<and> \<not> isDefaultStopBudget m budget then
                 (case ss_shutdown_ms ss of
                    Some raw \<Rightarrow> if trim raw = [] then Some CreatedBeforeForwarding else Some (CreatedIgnored raw)
                  | None \<Rightarrow> Some CreatedBeforeForwarding)
               else map_option (\<lambda>over. OverBudget over budget) (overBudgetShutdownMs carried budget))"

definition effectiveStopBudgetSeconds :: "string \<Rightarrow> stop_settings option \<Rightarrow> int \<Rightarrow> int" where
  "effectiveStopBudgetSeconds m settings budget = (case settings of
     None \<Rightarrow> budget
   | Some ss \<Rightarrow>
       if m = NODE_MODULE_NAME then budget
       else (case (case ss_stop_timeout ss of Some s \<Rightarrow> Some s | None \<Rightarrow> MODULE_STOP_TIMEOUT_SECONDS m) of
               Some low \<Rightarrow> if budget < low then low else budget
             | None \<Rightarrow> budget))"

section \<open>Stopping\<close>

record outcome =
  oc_stopped :: bool
  oc_seconds :: int
  oc_killed :: bool
  oc_exit :: "int option"

text \<open>\<open>readStopOutcome\<close>: the exit code as printed (\<open>None\<close> when the inspect fails) and the elapsed seconds.\<close>

definition readStopOutcome :: "string option \<Rightarrow> int \<Rightarrow> int \<Rightarrow> outcome" where
  "readStopOutcome printed seconds timeoutSeconds =
     (let code = (case printed of Some s \<Rightarrow> parseInt10 (trim s) | None \<Rightarrow> None)
      in \<lparr>oc_stopped = True, oc_seconds = seconds,
          oc_killed = (code = Some 137 \<or> (code = None \<and> timeoutSeconds \<le> seconds)), oc_exit = code\<rparr>)"

definition stopContainerByName :: "bool \<Rightarrow> string option \<Rightarrow> int \<Rightarrow> int \<Rightarrow> outcome" where
  "stopContainerByName reported printed seconds timeoutSeconds =
     (if \<not> reported then \<lparr>oc_stopped = False, oc_seconds = seconds, oc_killed = False, oc_exit = None\<rparr>
      else readStopOutcome printed seconds timeoutSeconds)"

definition stoppedUnclean :: "outcome \<Rightarrow> bool" where
  "stoppedUnclean oc = (oc_stopped oc \<and> \<not> oc_killed oc
     \<and> (case oc_exit oc of Some c \<Rightarrow> c \<noteq> 0 \<and> c \<noteq> EXIT_ON_SIGTERM_DEFAULT | None \<Rightarrow> False))"

definition describeModuleStopOutcome :: "outcome \<Rightarrow> int \<Rightarrow> line option" where
  "describeModuleStopOutcome oc budget =
     (if \<not> oc_stopped oc then None
      else if oc_killed oc then Some (StopKilled budget)
      else if stoppedUnclean oc then Some (StopUnclean (the (oc_exit oc)) budget)
      else Some (StopClean (oc_seconds oc) budget))"

definition nodeStoppedUnclean :: "outcome \<Rightarrow> bool" where
  "nodeStoppedUnclean oc = (oc_stopped oc \<and> \<not> oc_killed oc
     \<and> (case oc_exit oc of Some c \<Rightarrow> c \<noteq> 0 | None \<Rightarrow> False))"

definition describeNodeStopOutcome :: "outcome \<Rightarrow> int \<Rightarrow> line option" where
  "describeNodeStopOutcome oc budget =
     (if \<not> oc_stopped oc then None
      else if oc_killed oc then Some (StopKilled budget)
      else if nodeStoppedUnclean oc then Some (StopUnclean (the (oc_exit oc)) budget)
      else Some (StopClean (oc_seconds oc) budget))"

record stop_report =
  sr_outcome :: outcome
  sr_budget :: int
  sr_drift :: "line option"
  sr_line :: "line option"

text \<open>The docker stop is asked with the budget; \<open>settings\<close> is \<open>None\<close> when the container cannot be read.\<close>

definition stopModuleContainer ::
  "(int \<Rightarrow> outcome) \<Rightarrow> env \<Rightarrow> string \<Rightarrow> stop_settings option \<Rightarrow> stop_report" where
  "stopModuleContainer stop env m settings =
     (let budget = moduleStopTimeoutSeconds env m;
          used = (if m = NODE_MODULE_NAME then budget else effectiveStopBudgetSeconds m settings budget);
          oc = stop used
      in \<lparr>sr_outcome = oc, sr_budget = used,
          sr_drift = (if m = NODE_MODULE_NAME then None else describeStopBudgetDrift m settings budget),
          sr_line = describeModuleStopOutcome oc used\<rparr>)"

section \<open>Facts about budgets\<close>

lemma whole_seconds_pos: "1 \<le> fallback \<Longrightarrow> 1 \<le> whole_seconds raw fallback"
  by (auto simp: whole_seconds_def split: option.splits if_splits)

lemma default_budget_pos: "1 \<le> default_budget m"
  by (auto simp: default_budget_def MODULE_STOP_TIMEOUT_SECONDS_def DEFAULT_MODULE_STOP_TIMEOUT_SECONDS_def split: if_splits)

lemma budget_pos: "1 \<le> moduleStopTimeoutSeconds env m"
  by (auto simp: moduleStopTimeoutSeconds_def nodeStopTimeoutSeconds_def DEFAULT_NODE_STOP_TIMEOUT_SECONDS_def
      intro!: whole_seconds_pos default_budget_pos)

lemma effective_ge: "budget \<le> effectiveStopBudgetSeconds m settings budget"
  by (auto simp: effectiveStopBudgetSeconds_def split: option.splits)

lemma effective_stamp:
  "m \<noteq> NODE_MODULE_NAME \<Longrightarrow> settings = Some ss \<Longrightarrow> ss_stop_timeout ss = Some s
     \<Longrightarrow> s \<le> effectiveStopBudgetSeconds m settings budget"
  by (auto simp: effectiveStopBudgetSeconds_def)

lemma drain_inside:
  assumes "shutdownTimeoutMsForBudget m seconds = Some ms" "1 \<le> seconds"
  shows "0 < ms \<and> ms < seconds * 1000 \<and> (40 \<le> seconds \<longrightarrow> ms = seconds * 1000 - STOP_DRAIN_MARGIN_MS)"
  using assms by (auto simp: shutdownTimeoutMsForBudget_def STOP_DRAIN_MARGIN_MS_def max_def split: if_splits)

text \<open>
  What a container is created with: its \<open>--stop-timeout\<close> stamp, and its drain timer, either
  from the module's own configuration or forwarded by the node.
\<close>

definition created_settings :: "env \<Rightarrow> string \<Rightarrow> env option \<Rightarrow> stop_settings" where
  "created_settings env m moduleConfig = \<lparr>ss_stop_timeout = Some (moduleStopTimeoutSeconds env m),
     ss_shutdown_ms = (case map_of (fst (shutdownTimeoutEnv env m moduleConfig)) SHUTDOWN_KEY of
        Some v \<Rightarrow> Some v
      | None \<Rightarrow> (case moduleConfig of Some c \<Rightarrow> c SHUTDOWN_KEY | None \<Rightarrow> None))\<rparr>"

lemma parseInt_show_int: "0 < ms \<Longrightarrow> parseInt10 (show_int ms) = Some ms"
  by (simp add: show_int_def parseInt_digits show_nat_digits)



text \<open>
  A stop that docker had to force is never reported as clean, and a stop reported clean
  ended with code 0, with the default SIGTERM code, or with a code that could not be read
  before the budget ran out.
\<close>

lemma clean_stop_line_is_clean:
  assumes "oc = stopContainerByName reported printed seconds budget"
  shows "describeModuleStopOutcome oc budget = Some (StopClean s b)
       \<longleftrightarrow> reported \<and> s = seconds \<and> b = budget
         \<and> (case oc_exit oc of Some c \<Rightarrow> c = 0 \<or> c = EXIT_ON_SIGTERM_DEFAULT | None \<Rightarrow> seconds < budget)"
  using assms
  by (auto simp: describeModuleStopOutcome_def stopContainerByName_def readStopOutcome_def stoppedUnclean_def
      EXIT_ON_SIGTERM_DEFAULT_def Let_def split: option.splits)

end
