(* ===== verification/HostPorts.thy ===== *)
theory HostPorts
  imports JsJson
begin

text \<open>
  Host ports of a container about to be created: \<open>services/module_service/host_port_claim.js\<close>
  and the conflict check of \<open>services/module_service/docker_args.js\<close>. The \<open>docker run\<close> port
  arguments are the flat list the code builds; the published ports of the host, by
  container name, and the registry's port facets of the module are arguments.
\<close>

section \<open>Port specifications\<close>

record port_spec =
  ps_ip :: string
  ps_host :: string
  ps_container :: string

definition last_split :: "char \<Rightarrow> string \<Rightarrow> (string \<times> string) option" where
  "last_split d s =
     (if d \<in> set s then Some (rev (tl (dropWhile (\<lambda>c. c \<noteq> d) (rev s))), rev (takeWhile (\<lambda>c. c \<noteq> d) (rev s)))
      else None)"

definition parsePortSpec :: "string \<Rightarrow> port_spec option" where
  "parsePortSpec pair = (case last_split (CHR '':'') pair of
     None \<Rightarrow> None
   | Some (before, container) \<Rightarrow>
       (case last_split (CHR '':'') before of
          None \<Rightarrow> Some \<lparr>ps_ip = [], ps_host = before, ps_container = container\<rparr>
        | Some (ip, host) \<Rightarrow> Some \<lparr>ps_ip = ip, ps_host = host, ps_container = container\<rparr>))"

definition numeric :: "string \<Rightarrow> bool" where
  "numeric s = (s \<noteq> [] \<and> list_all is_digit s)"

definition host_port :: "string \<Rightarrow> string list" where
  "host_port v = (case parsePortSpec v of
     Some sp \<Rightarrow> if numeric (ps_host sp) then [ps_host sp] else []
   | None \<Rightarrow> [])"

text \<open>The numeric host ports the arguments ask for.\<close>

fun requested_ports :: "string list \<Rightarrow> string list" where
  "requested_ports (x # y # r) = (if x = ''-p'' then host_port y else []) @ requested_ports (y # r)"
| "requested_ports _ = []"

type_synonym published = "(string \<times> string list) list"

definition conflicts_of :: "published \<Rightarrow> string \<Rightarrow> string list \<Rightarrow> (string \<times> string list) list" where
  "conflicts_of published selfName requested = concat (map (\<lambda>h.
     (case map_of published h of
        None \<Rightarrow> []
      | Some holders \<Rightarrow> let others = filter (\<lambda>n. n \<noteq> selfName) holders
                       in if others \<noteq> [] then [(h, others)] else [])) requested)"

section \<open>Claiming another port\<close>

definition PORT_STEP :: nat where "PORT_STEP = 100"
definition MAX_PORT :: nat where "MAX_PORT = 65535"

function free_from :: "nat \<Rightarrow> string list \<Rightarrow> nat option" where
  "free_from port taken =
     (if MAX_PORT < port then None
      else if show_nat port \<notin> set taken then Some port
      else free_from (port + PORT_STEP) taken)"
  by pat_completeness auto
termination
  by (relation "measure (\<lambda>(port, _). Suc MAX_PORT - port)") (auto simp: PORT_STEP_def)

declare free_from.simps [simp del]

definition nextFreeHostPort :: "nat \<Rightarrow> string list \<Rightarrow> nat option" where
  "nextFreeHostPort from_port taken = free_from (from_port + PORT_STEP) taken"

record port_facet =
  pf_host :: string
  pf_container :: string
  pf_always :: bool

text \<open>The environment variables as text; an unset one reads \<open>undefined\<close>.\<close>

definition env_text :: "(string \<rightharpoonup> string) \<Rightarrow> string \<Rightarrow> string" where
  "env_text env k = (case env k of Some v \<Rightarrow> v | None \<Rightarrow> ''undefined'')"

definition port_pair :: "(string \<rightharpoonup> string) \<Rightarrow> port_facet \<Rightarrow> string" where
  "port_pair env p = env_text env (pf_host p) @ CHR '':'' # env_text env (pf_container p)"

fun index_of :: "string \<Rightarrow> string list \<Rightarrow> nat option" where
  "index_of x [] = None"
| "index_of x (y # ys) = (if x = y then Some 0 else map_option Suc (index_of x ys))"

record claim_state =
  cs_args :: "string list"
  cs_env :: "string \<rightharpoonup> string"
  cs_taken :: "string list"
  cs_kept :: "(string \<times> string list) list"

definition move_port :: "claim_state \<Rightarrow> port_facet \<Rightarrow> nat \<Rightarrow> nat \<Rightarrow> claim_state" where
  "move_port st entry pos free = st\<lparr>
     cs_args := (cs_args st)[pos := show_nat free @ CHR '':'' # env_text ((cs_env st)(pf_host entry \<mapsto> show_nat free)) (pf_container entry)],
     cs_env := (cs_env st)(pf_host entry \<mapsto> show_nat free),
     cs_taken := show_nat free # cs_taken st\<rparr>"

text \<open>One conflict: moved when an on-request port of the module asked for it, else kept.\<close>

definition claim_step :: "port_facet list \<Rightarrow> string \<times> string list \<Rightarrow> claim_state \<Rightarrow> claim_state" where
  "claim_step ports conflict st =
     (let keep = st\<lparr>cs_kept := conflict # cs_kept st\<rparr> in
      case List.find (\<lambda>p. \<not> pf_always p \<and> env_text (cs_env st) (pf_host p) = fst conflict) ports of
        None \<Rightarrow> keep
      | Some entry \<Rightarrow>
          (case index_of (port_pair (cs_env st) entry) (cs_args st) of
             None \<Rightarrow> keep
           | Some pos \<Rightarrow>
               if pos < 1 \<or> cs_args st ! (pos - 1) \<noteq> ''-p'' then keep
               else (case nextFreeHostPort (decimal_nat (fst conflict)) (cs_taken st) of
                       None \<Rightarrow> keep
                     | Some free \<Rightarrow> move_port st entry pos free)))"

definition claimFreeHostPorts ::
  "(string \<times> string list) list \<Rightarrow> string list \<Rightarrow> string list \<Rightarrow> published \<Rightarrow> port_facet list option
     \<Rightarrow> (string \<rightharpoonup> string) \<Rightarrow> claim_state" where
  "claimFreeHostPorts conflicts args requested published claim env = (case claim of
     None \<Rightarrow> \<lparr>cs_args = args, cs_env = env, cs_taken = [], cs_kept = conflicts\<rparr>
   | Some ports \<Rightarrow> fold (claim_step ports) (rev conflicts)
       \<lparr>cs_args = args, cs_env = env, cs_taken = map fst published @ requested, cs_kept = []\<rparr>)"

text \<open>\<open>Inl\<close> is the thrown conflict error; \<open>Inr\<close> the arguments and environment to run with.\<close>

definition assertNoHostPortConflicts ::
  "string list \<Rightarrow> string \<Rightarrow> published \<Rightarrow> port_facet list option \<Rightarrow> (string \<rightharpoonup> string)
     \<Rightarrow> (string \<times> string list) list + (string list \<times> (string \<rightharpoonup> string))" where
  "assertNoHostPortConflicts args selfName published claim env =
     (let requested = requested_ports args in
      if requested = [] then Inr (args, env)
      else let st = claimFreeHostPorts (conflicts_of published selfName requested) args requested published claim env
           in if cs_kept st \<noteq> [] then Inl (cs_kept st) else Inr (cs_args st, cs_env st))"

section \<open>Facts\<close>

lemma free_from_free: "free_from port taken = Some p \<Longrightarrow> show_nat p \<notin> set taken \<and> port \<le> p \<and> p \<le> MAX_PORT"
proof (induction port taken rule: free_from.induct)
  case (1 port taken)
  then show ?case by (subst (asm) free_from.simps) (auto split: if_splits)
qed

lemma last_split_append: "d \<notin> set y \<Longrightarrow> last_split d (x @ d # y) = Some (x, y)"
  by (simp add: last_split_def takeWhile_append dropWhile_append)

lemma last_split_none: "d \<notin> set s \<Longrightarrow> last_split d s = None"
  by (simp add: last_split_def)

lemma host_port_pair:
  assumes "numeric h" "CHR '':'' \<notin> set c"
  shows "host_port (h @ CHR '':'' # c) = [h]"
proof -
  have "CHR '':'' \<notin> set h"
    using assms(1) by (auto simp: numeric_def list_all_iff is_digit_def char_code_def)
  then show ?thesis
    using assms by (simp add: host_port_def parsePortSpec_def last_split_append last_split_none)
qed

lemma show_nat_numeric: "numeric (show_nat n)"
  by (simp add: numeric_def show_nat_digits)

text \<open>Replacing one value after \<open>-p\<close> replaces its host port and leaves the others.\<close>

lemma requested_tail: "y \<noteq> ''-p'' \<Longrightarrow> requested_ports (y # post) = requested_ports post"
  by (cases post) auto

lemma requested_split:
  assumes "y \<noteq> ''-p''"
  shows "requested_ports (pre @ ''-p'' # y # post)
     = requested_ports (pre @ [''-p'']) @ host_port y @ requested_ports post"
proof (induction pre)
  case Nil then show ?case using requested_tail [OF assms] by simp
next
  case (Cons x pre) then show ?case by (cases pre) auto
qed

lemma index_of_Some: "index_of x xs = Some i \<Longrightarrow> i < length xs \<and> xs ! i = x"
  by (induction xs arbitrary: i) (auto split: if_splits)

text \<open>
  The hosts another container holds, and the invariant of the loop: as many arguments still
  ask for a held port as there are conflicts not yet moved.
\<close>

definition held :: "published \<Rightarrow> string \<Rightarrow> string \<Rightarrow> bool" where
  "held published selfName h = (case map_of published h of
     None \<Rightarrow> False | Some holders \<Rightarrow> list_ex (\<lambda>n. n \<noteq> selfName) holders)"

definition held_count :: "published \<Rightarrow> string \<Rightarrow> string list \<Rightarrow> nat" where
  "held_count published selfName args = length (filter (held published selfName) (requested_ports args))"

definition plain_containers :: "port_facet list \<Rightarrow> (string \<rightharpoonup> string) \<Rightarrow> bool" where
  "plain_containers ports env = list_all (\<lambda>p. CHR '':'' \<notin> set (env_text env (pf_container p))) ports"

lemma conflict_entry:
  "(case map_of published h of
      None \<Rightarrow> []
    | Some holders \<Rightarrow> let others = filter (\<lambda>n. n \<noteq> self) holders in if others \<noteq> [] then [(h, others)] else [])
   = (if held published self h then [(h, filter (\<lambda>n. n \<noteq> self) (the (map_of published h)))] else [])"
  by (cases "map_of published h") (auto simp: held_def list_ex_iff filter_empty_conv)

lemma conflicts_of_facts:
  "length (conflicts_of published self hs) = length (filter (held published self) hs)"
  "list_all (\<lambda>c. held published self (fst c) \<and> fst c \<in> set hs) (conflicts_of published self hs)"
  unfolding conflicts_of_def conflict_entry by (induction hs) (auto simp: list_all_iff)

lemma requested_numeric: "h \<in> set (requested_ports args) \<Longrightarrow> numeric h"
  by (induction args rule: requested_ports.induct)
    (auto simp: host_port_def split: option.splits if_splits)

lemma list_update_split:
  assumes "1 \<le> pos" "pos < length xs"
  shows "xs = take (pos - 1) xs @ xs ! (pos - 1) # xs ! pos # drop (Suc pos) xs"
    and "xs[pos := v] = take (pos - 1) xs @ xs ! (pos - 1) # v # drop (Suc pos) xs"
proof -
  obtain k where k: "pos = Suc k" using assms(1) by (cases pos) auto
  show "xs = take (pos - 1) xs @ xs ! (pos - 1) # xs ! pos # drop (Suc pos) xs"
    using id_take_nth_drop [of k xs] Cons_nth_drop_Suc [of "Suc k" xs] assms(2) k by simp
  show "xs[pos := v] = take (pos - 1) xs @ xs ! (pos - 1) # v # drop (Suc pos) xs"
    using upd_conv_take_nth_drop [of pos xs v] take_Suc_conv_app_nth [of k xs] assms(2) k by simp
qed

text \<open>One claim trades a held port for one nobody publishes.\<close>

lemma move_port_counts:
  assumes pos: "1 \<le> pos" "index_of (port_pair (cs_env st) entry) (cs_args st) = Some pos" "cs_args st ! (pos - 1) = ''-p''"
    and host: "env_text (cs_env st) (pf_host entry) = h" "numeric h" "held published self h"
    and cont: "CHR '':'' \<notin> set (env_text (cs_env st) (pf_container entry))"
      "CHR '':'' \<notin> set (env_text ((cs_env st)(pf_host entry \<mapsto> show_nat free)) (pf_container entry))"
    and free: "\<not> held published self (show_nat free)"
  shows "Suc (held_count published self (cs_args (move_port st entry pos free))) = held_count published self (cs_args st)"
proof -
  let ?new = "show_nat free @ CHR '':'' # env_text ((cs_env st)(pf_host entry \<mapsto> show_nat free)) (pf_container entry)"
  let ?pre = "take (pos - 1) (cs_args st)" and ?post = "drop (Suc pos) (cs_args st)"
  note ix = index_of_Some [OF pos(2)]
  have old: "cs_args st ! pos = h @ CHR '':'' # env_text (cs_env st) (pf_container entry)"
    using ix host(1) by (simp add: port_pair_def)
  let ?old = "h @ CHR '':'' # env_text (cs_env st) (pf_container entry)"
  have args: "cs_args st = ?pre @ ''-p'' # ?old # ?post"
    using list_update_split(1) [of pos "cs_args st"] pos ix old by simp
  have new: "cs_args (move_port st entry pos free) = ?pre @ ''-p'' # ?new # ?post"
    using list_update_split(2) [of pos "cs_args st" ?new] pos ix by (simp add: move_port_def)
  have colon: "CHR '':'' \<in> set ?old" "CHR '':'' \<in> set ?new" by simp_all
  then have "?old \<noteq> ''-p''" "?new \<noteq> ''-p''" by fastforce+
  then have "requested_ports (?pre @ ''-p'' # ?old # ?post) = requested_ports (?pre @ [''-p'']) @ [h] @ requested_ports ?post"
    "requested_ports (?pre @ ''-p'' # ?new # ?post) = requested_ports (?pre @ [''-p'']) @ [show_nat free] @ requested_ports ?post"
    using requested_split [of ?old ?pre ?post] requested_split [of ?new ?pre ?post]
      host_port_pair [OF host(2) cont(1)] host_port_pair [OF show_nat_numeric cont(2)] by auto
  then have "requested_ports (cs_args st) = requested_ports (?pre @ [''-p'']) @ [h] @ requested_ports ?post"
    and "requested_ports (cs_args (move_port st entry pos free))
      = requested_ports (?pre @ [''-p'']) @ [show_nat free] @ requested_ports ?post"
    using args new by metis+
  then show ?thesis using host(3) free by (simp add: held_count_def)
qed

lemma plain_containers_update:
  assumes "plain_containers ports env"
  shows "plain_containers ports (env(k \<mapsto> show_nat n))"
proof -
  have "CHR '':'' \<notin> set (show_nat n)"
    using show_nat_digits [of n] by (auto simp: list_all_iff is_digit_def char_code_def)
  then show ?thesis using assms by (auto simp: plain_containers_def list_all_iff env_text_def)
qed

definition claim_ready :: "published \<Rightarrow> port_facet list \<Rightarrow> claim_state \<Rightarrow> bool" where
  "claim_ready published ports st =
     (plain_containers ports (cs_env st) \<and> set (map fst published) \<subseteq> set (cs_taken st))"

lemma claim_step_cases:
  "claim_step ports c st = st\<lparr>cs_kept := c # cs_kept st\<rparr>
   \<or> (\<exists>entry pos free. claim_step ports c st = move_port st entry pos free \<and> entry \<in> set ports
      \<and> env_text (cs_env st) (pf_host entry) = fst c \<and> index_of (port_pair (cs_env st) entry) (cs_args st) = Some pos
      \<and> 1 \<le> pos \<and> cs_args st ! (pos - 1) = ''-p'' \<and> nextFreeHostPort (decimal_nat (fst c)) (cs_taken st) = Some free)"
proof (cases "List.find (\<lambda>p. \<not> pf_always p \<and> env_text (cs_env st) (pf_host p) = fst c) ports")
  case None then show ?thesis by (simp add: claim_step_def)
next
  case entry: (Some entry)
  then have en: "entry \<in> set ports" "env_text (cs_env st) (pf_host entry) = fst c"
    by (auto simp: find_Some_iff)
  show ?thesis
  proof (cases "index_of (port_pair (cs_env st) entry) (cs_args st)")
    case None then show ?thesis using entry by (simp add: claim_step_def Let_def)
  next
    case pos: (Some pos)
    show ?thesis
    proof (cases "nextFreeHostPort (decimal_nat (fst c)) (cs_taken st)")
      case None then show ?thesis using entry pos by (simp add: claim_step_def Let_def)
    next
      case (Some free)
      then show ?thesis
        using entry pos en by (cases "pos < 1 \<or> cs_args st ! (pos - 1) \<noteq> ''-p''") (auto simp: claim_step_def Let_def)
    qed
  qed
qed

lemma claim_step_counts:
  assumes ready: "claim_ready published ports st" and c: "held published self (fst c)" "numeric (fst c)"
  shows "held_count published self (cs_args (claim_step ports c st)) + Suc (length (cs_kept st))
       = held_count published self (cs_args st) + length (cs_kept (claim_step ports c st))
     \<and> claim_ready published ports (claim_step ports c st)"
proof (cases "\<exists>entry pos free. claim_step ports c st = move_port st entry pos free \<and> entry \<in> set ports
    \<and> env_text (cs_env st) (pf_host entry) = fst c \<and> index_of (port_pair (cs_env st) entry) (cs_args st) = Some pos
    \<and> 1 \<le> pos \<and> cs_args st ! (pos - 1) = ''-p'' \<and> nextFreeHostPort (decimal_nat (fst c)) (cs_taken st) = Some free")
  case True
  then obtain entry pos free where mv: "claim_step ports c st = move_port st entry pos free" and en: "entry \<in> set ports"
    "env_text (cs_env st) (pf_host entry) = fst c" "index_of (port_pair (cs_env st) entry) (cs_args st) = Some pos"
    "1 \<le> pos" "cs_args st ! (pos - 1) = ''-p''" "nextFreeHostPort (decimal_nat (fst c)) (cs_taken st) = Some free"
    by blast
  have "show_nat free \<notin> set (cs_taken st)"
    using free_from_free en(6) by (auto simp: nextFreeHostPort_def)
  then have "map_of published (show_nat free) = None"
    using ready by (auto simp: claim_ready_def map_of_eq_None_iff)
  then have free: "\<not> held published self (show_nat free)" by (simp add: held_def)
  have plain: "plain_containers ports (cs_env st)" using ready by (simp add: claim_ready_def)
  have cont: "CHR '':'' \<notin> set (env_text (cs_env st) (pf_container entry))"
    "CHR '':'' \<notin> set (env_text ((cs_env st)(pf_host entry \<mapsto> show_nat free)) (pf_container entry))"
    using en(1) plain plain_containers_update [OF plain, of "pf_host entry" free]
    by (auto simp: plain_containers_def list_all_iff)
  have "claim_ready published ports (move_port st entry pos free)"
    using ready plain_containers_update [OF plain] by (auto simp: claim_ready_def move_port_def)
  moreover have "cs_kept (move_port st entry pos free) = cs_kept st" by (simp add: move_port_def)
  ultimately show ?thesis
    using move_port_counts [OF en(4) en(3) en(5) en(2) c(2,1) cont free] mv by simp
next
  case False
  then have "claim_step ports c st = st\<lparr>cs_kept := c # cs_kept st\<rparr>"
    using claim_step_cases [of ports c st] by blast
  then show ?thesis using ready by (simp add: claim_ready_def)
qed

lemma claim_fold_counts:
  assumes "list_all (\<lambda>c. held published self (fst c) \<and> numeric (fst c)) cs" "claim_ready published ports st"
  shows "held_count published self (cs_args (fold (claim_step ports) cs st)) + length cs + length (cs_kept st)
       = held_count published self (cs_args st) + length (cs_kept (fold (claim_step ports) cs st))"
  using assms
proof (induction cs arbitrary: st)
  case (Cons c cs)
  have c: "held published self (fst c)" "numeric (fst c)" using Cons.prems(1) by auto
  note step = claim_step_counts [OF Cons.prems(2) c]
  show ?case using Cons.IH [of "claim_step ports c st"] Cons.prems(1) step by simp
qed simp

text \<open>
  C39. When the conflict check lets a container be created, none of the host ports its final
  \<open>docker run\<close> arguments ask for is published by another container, whether or not busy
  ports were moved on the way.
\<close>

theorem host_ports_free_after_check:
  assumes ok: "assertNoHostPortConflicts args self published claim env = Inr (args', env')"
    and plain: "case claim of Some ports \<Rightarrow> plain_containers ports env | None \<Rightarrow> True"
  shows "list_all (\<lambda>h. \<not> held published self h) (requested_ports args')"
proof (cases "requested_ports args = []")
  case True then show ?thesis using ok by (simp add: assertNoHostPortConflicts_def)
next
  case False
  let ?cs = "conflicts_of published self (requested_ports args)"
  have len: "length ?cs = held_count published self args"
    by (simp add: held_count_def conflicts_of_facts)
  have res: "cs_kept (claimFreeHostPorts ?cs args (requested_ports args) published claim env) = []"
    "args' = cs_args (claimFreeHostPorts ?cs args (requested_ports args) published claim env)"
    using ok False by (auto simp: assertNoHostPortConflicts_def Let_def split: if_splits)
  have "held_count published self args' = 0"
  proof (cases claim)
    case None
    then show ?thesis using res len by (simp add: claimFreeHostPorts_def)
  next
    case (Some ports)
    let ?st = "\<lparr>cs_args = args, cs_env = env, cs_taken = map fst published @ requested_ports args, cs_kept = []\<rparr>"
    have "list_all (\<lambda>c. held published self (fst c) \<and> numeric (fst c)) (rev ?cs)"
      using conflicts_of_facts(2) [of published self "requested_ports args"] requested_numeric
      by (auto simp: list_all_iff)
    moreover have "claim_ready published ports ?st"
      using plain Some by (simp add: claim_ready_def)
    ultimately show ?thesis
      using claim_fold_counts [of published self "rev ?cs" ports ?st] res len Some
      by (simp add: claimFreeHostPorts_def)
  qed
  then show ?thesis by (simp add: held_count_def filter_empty_conv list_all_iff)
qed

definition demo_facet :: port_facet where
  "demo_facet = \<lparr>pf_host = ''DECODER_PORT'', pf_container = ''DECODER_API_PORT'', pf_always = False\<rparr>"

definition demo_env :: "string \<rightharpoonup> string" where
  "demo_env = [''DECODER_PORT'' \<mapsto> ''3002'', ''DECODER_API_PORT'' \<mapsto> ''3002'']"

definition demo_published :: published where
  "demo_published = [(''3002'', [''you'']), (''3102'', [''them''])]"


lemma demo_texts:
  "show_nat 3102 = ''3102''" "show_nat 3202 = ''3202''" "decimal_nat ''3002'' = 3002" "numeric ''3002''"
  "parsePortSpec ''3002:3002'' = Some \<lparr>ps_ip = [], ps_host = ''3002'', ps_container = ''3002''\<rparr>"
  by (simp_all add: number_text_eval text_number_eval numeric_def parsePortSpec_def last_split_def)

lemma demo_free: "nextFreeHostPort 3002 [''3002'', ''3102'', ''3002''] = Some 3202"
  by (simp add: nextFreeHostPort_def free_from.simps PORT_STEP_def MAX_PORT_def demo_texts)

lemma demo_ports:
  "requested_ports [''-p'', ''3002:3002''] = [''3002'']"
  "conflicts_of demo_published ''me'' [''3002''] = [(''3002'', [''you''])]"
  by (simp_all add: host_port_def demo_texts conflicts_of_def demo_published_def)

lemma demo_step:
  "claim_step [demo_facet] (''3002'', [''you'']) \<lparr>cs_args = [''-p'', ''3002:3002''], cs_env = demo_env,
       cs_taken = [''3002'', ''3102'', ''3002''], cs_kept = []\<rparr>
   = \<lparr>cs_args = [''-p'', ''3202:3002''], cs_env = demo_env(''DECODER_PORT'' \<mapsto> ''3202''),
      cs_taken = [''3202'', ''3002'', ''3102'', ''3002''], cs_kept = []\<rparr>"
  by (simp add: claim_step_def demo_facet_def demo_env_def env_text_def port_pair_def demo_texts demo_free move_port_def)

lemma demo_claim:
  "assertNoHostPortConflicts [''-p'', ''3002:3002''] ''me'' demo_published (Some [demo_facet]) demo_env
     = Inr ([''-p'', ''3202:3002''], demo_env(''DECODER_PORT'' \<mapsto> ''3202''))"
  using demo_step
  by (simp add: assertNoHostPortConflicts_def demo_ports claimFreeHostPorts_def Let_def del: requested_ports.simps)
    (simp add: demo_published_def)

theorem host_ports_free_after_check_witness:
  "list_all (\<lambda>h. \<not> held demo_published ''me'' h) (requested_ports [''-p'', ''3202:3002''])"
  by (rule host_ports_free_after_check [OF demo_claim])
    (simp add: plain_containers_def demo_facet_def demo_env_def env_text_def)

end
