(* ===== verification/ContainerArgs.thy ===== *)
theory ContainerArgs
  imports StopBudget HostPorts
begin

text \<open>
  Arguments of \<open>docker run\<close> besides ports: the healthcheck table and its flags
  (\<open>services/module_service/docker_args.js\<close>, \<open>healthcheck_command.js\<close>), the forwarded
  observability variables, and the memory limit (\<open>services/memory_limit_service.js\<close>).
\<close>

section \<open>The probe command\<close>

definition quote_one :: "char \<Rightarrow> string" where
  "quote_one c = (if c = CHR 0x27 then [CHR 0x27, CHR 0x5C, CHR 0x27, CHR 0x27] else [c])"

definition shellQuote :: "string \<Rightarrow> string" where
  "shellQuote v = CHR 0x27 # concat (map quote_one v) @ [CHR 0x27]"

definition diagnostic :: "nat \<Rightarrow> string" where
  "diagnostic ms = ''const url=process.argv[1],body=process.argv[2],options={signal:AbortSignal.timeout('' @ show_nat ms
     @ '')};if(body!==undefined){options.method=\"POST\";options.headers={\"Content-Type\":\"application/json\"};options.body=body}''
     @ ''fetch(url,options).then(async response=>{const text=(await response.text()).slice(0,1500);''
     @ ''process.stdout.write(\"health probe failed: HTTP \"+response.status+\" \"+text+\"'' @ [CHR 0x5C] @ ''n\")})''
     @ ''.catch(error=>process.stdout.write(\"health probe failed: \"+error.message+\"'' @ [CHR 0x5C] @ ''n\"))''"

definition healthcheckCommand :: "string \<Rightarrow> string option \<Rightarrow> nat \<Rightarrow> string" where
  "healthcheckCommand url postData timeoutSeconds =
     ''wget -T '' @ show_nat timeoutSeconds @ '' -qO-''
     @ (case postData of None \<Rightarrow> []
        | Some d \<Rightarrow> '' --post-data='' @ shellQuote d @ '' --header='' @ shellQuote ''Content-Type: application/json'')
     @ '' '' @ url @ '' || { node -e '' @ shellQuote (diagnostic (timeoutSeconds * 1000)) @ '' '' @ shellQuote url
     @ (case postData of None \<Rightarrow> [] | Some d \<Rightarrow> '' '' @ shellQuote d) @ ''; exit 1; }''"

text \<open>
  How a POSIX shell reads one word: single quotes keep everything up to the next one, an
  unquoted backslash keeps the next character, and an unquoted blank or operator ends it.
\<close>

definition word_end :: "char \<Rightarrow> bool" where
  "word_end c = (c \<in> set '' ;|&<>()'' \<or> c = CHR 0x09 \<or> c = CHR 0x0A)"

fun sh_word :: "bool \<Rightarrow> string \<Rightarrow> (string \<times> string) option" where
  "sh_word True [] = None"
| "sh_word True (c # cs) =
     (if c = CHR 0x27 then sh_word False cs else map_option (\<lambda>(w, r). (c # w, r)) (sh_word True cs))"
| "sh_word False [] = Some ([], [])"
| "sh_word False (c # cs) =
     (if c = CHR 0x27 then sh_word True cs
      else if c = CHR 0x5C then
        (case cs of [] \<Rightarrow> None | d # r \<Rightarrow> map_option (\<lambda>(w, r'). (d # w, r')) (sh_word False r))
      else if word_end c then Some ([], c # cs)
      else map_option (\<lambda>(w, r). (c # w, r)) (sh_word False cs))"

lemma sh_word_quoted:
  assumes "sh_word False rest = Some ([], rest)"
  shows "sh_word True (concat (map quote_one v) @ CHR 0x27 # rest) = Some (v, rest)"
  using assms by (induction v) (auto simp: quote_one_def)

text \<open>
  C40. Whatever value is quoted, the shell running a container's healthcheck reads the quoted
  text as exactly that value, as one word, and stops where the quoted text stops.
\<close>

theorem shell_quote_round_trip:
  assumes "case rest of c # _ \<Rightarrow> word_end c | [] \<Rightarrow> True"
  shows "sh_word False (shellQuote v @ rest) = Some (v, rest)"
proof -
  have "sh_word False rest = Some ([], rest)"
    using assms by (cases rest) (auto simp: word_end_def)
  then show ?thesis by (simp add: shellQuote_def sh_word_quoted)
qed

theorem shell_quote_round_trip_witness:
  "sh_word False (shellQuote [CHR 0x27, CHR ''$'', CHR 0x5C, CHR '' ''] @ ''; exit 1; }'')
     = Some ([CHR 0x27, CHR ''$'', CHR 0x5C, CHR '' ''], ''; exit 1; }'')"
  by (rule shell_quote_round_trip) (simp add: word_end_def)

section \<open>The healthcheck table\<close>

datatype probe_kind = HttpGet | JsonrpcPing | JsonrpcHealth

record healthcheck =
  hc_port_key :: string
  hc_probe :: probe_kind
  hc_path :: "string option"
  hc_interval :: string
  hc_timeout :: string
  hc_retries :: nat
  hc_start_period :: string
  hc_autoheal :: bool

definition DEPENDENCY_HEALTH_START_PERIOD :: string where "DEPENDENCY_HEALTH_START_PERIOD = ''60s''"

definition hc_entry :: "string \<Rightarrow> probe_kind \<Rightarrow> string option \<Rightarrow> string \<Rightarrow> bool \<Rightarrow> healthcheck" where
  "hc_entry portKey probe path start heal = \<lparr>hc_port_key = portKey, hc_probe = probe, hc_path = path,
     hc_interval = ''15s'', hc_timeout = ''5s'', hc_retries = 3, hc_start_period = start, hc_autoheal = heal\<rparr>"

definition SERVICE_HEALTHCHECK :: "(string \<times> healthcheck) list" where
  "SERVICE_HEALTHCHECK = [
     (XCHAIN_DECODER, hc_entry ''DECODER_API_PORT'' HttpGet (Some ''/live'') ''60s'' True),
     (XCHAIN_ENCODER, hc_entry ''ENCODER_API_PORT'' HttpGet None DEPENDENCY_HEALTH_START_PERIOD False),
     (XCHAIN_UTXO_TRACKER, hc_entry ''UTXO_TRACKER_API_PORT'' HttpGet None ''60s'' False),
     (XCHAIN_INDEXER, hc_entry ''INDEXER_API_PORT'' HttpGet None ''60s'' True),
     (XCHAIN_REGTEST_MINER, hc_entry ''REGTEST_MINER_API_PORT'' JsonrpcHealth None ''60s'' False),
     (HUB_MODULE_NAME, hc_entry ''HUB_PORT'' JsonrpcHealth None DEPENDENCY_HEALTH_START_PERIOD False),
     (EXPLORER_MODULE_NAME, hc_entry ''EXPLORER_API_PORT_HTTP'' JsonrpcPing None DEPENDENCY_HEALTH_START_PERIOD False),
     (SYNC_MODULE_NAME, hc_entry ''SYNC_API_PORT'' HttpGet (Some ''/health'') ''300s'' False)]"

text \<open>\<open>/^\d+(ms|s|m|h)$/\<close>, a duration Go's parser accepts.\<close>

definition duration :: "string \<Rightarrow> bool" where
  "duration v = (takeWhile is_digit v \<noteq> [] \<and> dropWhile is_digit v \<in> {''ms'', ''s'', ''m'', ''h''})"

text \<open>\<open>replace(/[^A-Z0-9]+/g, '_')\<close>: a run of other characters becomes one underscore.\<close>

fun squeeze :: "bool \<Rightarrow> string \<Rightarrow> string" where
  "squeeze inrun [] = []"
| "squeeze inrun (c # cs) =
     (if is_upper c \<or> is_digit c then c # squeeze False cs
      else if inrun then squeeze True cs else CHR ''_'' # squeeze True cs)"

definition resolveStartPeriod :: "env \<Rightarrow> string \<Rightarrow> string \<Rightarrow> string" where
  "resolveStartPeriod env md fallback =
     (case env (''XCHAIN_NODE_HEALTH_START_PERIOD_'' @ squeeze False (map upper_char md)) of
        None \<Rightarrow> fallback
      | Some raw \<Rightarrow>
          if raw = [] then fallback
          else if duration (trim raw) then trim raw
          else if trim raw \<noteq> [] \<and> list_all is_digit (trim raw) then trim raw @ ''s''
          else fallback)"

definition buildHealthcheckArgs :: "env \<Rightarrow> string \<Rightarrow> env \<Rightarrow> string list" where
  "buildHealthcheckArgs host md vars = (case map_of SERVICE_HEALTHCHECK md of
     None \<Rightarrow> []
   | Some hc \<Rightarrow>
       (case vars (hc_port_key hc) of
          None \<Rightarrow> []
        | Some port \<Rightarrow>
            if port = [] then []
            else let base = ''http://localhost:'' @ port;
                     rpc = (\<lambda>meth. ''{\"jsonrpc\":\"2.0\",\"method\":\"'' @ meth @ ''\",\"id\":1}'');
                     (url, post) = (case hc_probe hc of
                        JsonrpcHealth \<Rightarrow> (base @ ''/'', Some (rpc ''health''))
                      | JsonrpcPing \<Rightarrow> (base @ ''/'', Some (rpc ''ping''))
                      | HttpGet \<Rightarrow> (base @ (case hc_path hc of Some p \<Rightarrow> p | None \<Rightarrow> ''/status''), None))
                 in [''--health-cmd'', healthcheckCommand url post
                        (case parseInt10 (hc_timeout hc) of Some t \<Rightarrow> nat t | None \<Rightarrow> 0),
                     ''--health-interval'', hc_interval hc, ''--health-timeout'', hc_timeout hc,
                     ''--health-retries'', show_nat (hc_retries hc),
                     ''--health-start-period'', resolveStartPeriod host md (hc_start_period hc)]))"

lemma duration_seconds: "v \<noteq> [] \<Longrightarrow> list_all is_digit v \<Longrightarrow> duration (v @ ''s'')"
  by (simp add: duration_def takeWhile_append dropWhile_append list_all_iff is_digit_def char_code_def)

lemma resolveStartPeriod_duration: "duration fallback \<Longrightarrow> duration (resolveStartPeriod env md fallback)"
  by (auto simp: resolveStartPeriod_def duration_seconds split: option.splits)

lemma table_durations: "map_of SERVICE_HEALTHCHECK md = Some hc \<Longrightarrow> duration (hc_start_period hc)"
  by (auto simp: SERVICE_HEALTHCHECK_def hc_entry_def DEPENDENCY_HEALTH_START_PERIOD_def duration_def is_digit_def
      char_code_def split: if_splits)

text \<open>
  Whatever the operator sets as a service's health start period, the flags handed to
  \<open>docker run\<close> carry a duration Go's parser accepts, with a unit, so an override never
  makes the container creation fail; a service without a table entry or a port gets no
  healthcheck flags at all.
\<close>

lemma health_args_start_period_valid:
  "buildHealthcheckArgs host md vars = [] \<or> duration (last (buildHealthcheckArgs host md vars))"
proof (cases "map_of SERVICE_HEALTHCHECK md")
  case (Some hc)
  then show ?thesis
    using resolveStartPeriod_duration [OF table_durations [OF Some]]
    by (auto simp: buildHealthcheckArgs_def Let_def split: option.splits probe_kind.splits)
qed (simp add: buildHealthcheckArgs_def)

section \<open>Observability variables\<close>

definition OBSERVABILITY_ENV_KEYS :: "string list" where
  "OBSERVABILITY_ENV_KEYS = [''LOG_LEVEL'', ''LOG_FORMAT'', ''METRICS_ENABLED'', ''XCHAIN_LOG_PATCH'']"

definition resolveObservabilityEnv :: "env option \<Rightarrow> env \<Rightarrow> (string \<times> string) list" where
  "resolveObservabilityEnv vars host = concat (map (\<lambda>key.
     if (case vars of Some v \<Rightarrow> v key \<noteq> None | None \<Rightarrow> False) then []
     else (case host key of None \<Rightarrow> [] | Some raw \<Rightarrow> if raw = [] then [] else [(key, raw)])) OBSERVABILITY_ENV_KEYS)"

section \<open>Memory limits\<close>

definition MIB :: nat where "MIB = 1024 * 1024"
definition TRACKER_FLOOR_MB :: nat where "TRACKER_FLOOR_MB = 1024"
definition TRACKER_CEILING_MB :: nat where "TRACKER_CEILING_MB = 16384"

definition moduleEnvKey :: "string \<Rightarrow> string" where
  "moduleEnvKey md = ''XCHAIN_NODE_MODULE_MEMORY_MB_'' @ env_suffix md"

definition envMemoryMb :: "env \<Rightarrow> string \<Rightarrow> nat option" where
  "envMemoryMb env md = (case env (moduleEnvKey md) of
     None \<Rightarrow> None
   | Some raw \<Rightarrow> if raw = [] \<or> trim raw = [] \<or> \<not> list_all is_digit (trim raw) then None
                 else Some (decimal_nat (trim raw)))"

record tracker_limit =
  tl_mb :: nat
  tl_share :: nat
  tl_floored :: bool
  tl_count :: nat

definition trackerMemoryLimitMb :: "nat \<Rightarrow> nat \<Rightarrow> tracker_limit" where
  "trackerMemoryLimitMb hostBytes trackerCount =
     (let count = max 1 trackerCount;
          shareMb = hostBytes div (2 * count * MIB)
      in \<lparr>tl_mb = min TRACKER_CEILING_MB (max TRACKER_FLOOR_MB shareMb), tl_share = shareMb,
          tl_floored = (shareMb < TRACKER_FLOOR_MB), tl_count = count\<rparr>)"

definition dockerMemoryArgs :: "nat \<Rightarrow> string list" where
  "dockerMemoryArgs mb = [''--memory'', show_nat mb @ ''m'', ''--memory-swap'', show_nat mb @ ''m'']"

datatype memory_source = FromEnv | Derived | NoLimit

record memory_args =
  ma_args :: "string list"
  ma_source :: memory_source
  ma_mb :: "nat option"
  ma_limit :: "tracker_limit option"

definition memoryArgsFor :: "env \<Rightarrow> string \<Rightarrow> nat \<Rightarrow> nat \<Rightarrow> memory_args" where
  "memoryArgsFor env md hostBytes trackerCount =
     (let raw = env (moduleEnvKey md); explicit = envMemoryMb env md;
          none = \<lparr>ma_args = [], ma_source = NoLimit, ma_mb = None, ma_limit = None\<rparr>;
          d = trackerMemoryLimitMb hostBytes trackerCount
      in if raw \<noteq> None \<and> raw \<noteq> Some [] \<and> explicit = None then none
         else (case explicit of
            Some mb \<Rightarrow> \<lparr>ma_args = (if mb = 0 then [] else dockerMemoryArgs mb), ma_source = FromEnv,
                        ma_mb = Some mb, ma_limit = None\<rparr>
          | None \<Rightarrow> if md \<noteq> XCHAIN_UTXO_TRACKER then none
                    else \<lparr>ma_args = dockerMemoryArgs (tl_mb d), ma_source = Derived,
                          ma_mb = Some (tl_mb d), ma_limit = Some d\<rparr>))"

type_synonym module_row = "string \<times> string \<times> string"

definition countInstalledTrackers :: "module_row list option \<Rightarrow> string \<Rightarrow> string \<Rightarrow> nat" where
  "countInstalledTrackers rows coin network =
     (let trackers = filter (\<lambda>(md, c, n). md = XCHAIN_UTXO_TRACKER) (case rows of Some rs \<Rightarrow> rs | None \<Rightarrow> [])
      in length trackers + (if list_ex (\<lambda>(md, c, n). c = coin \<and> n = network) trackers then 0 else 1))"

lemma length_or_one: "1 \<le> length xs + (if list_ex P xs then 0 else 1)"
  by (cases xs) auto

lemma count_pos: "1 \<le> countInstalledTrackers rows coin network"
  unfolding countInstalledTrackers_def Let_def by (rule length_or_one)

text \<open>
  The memory limits derived for the trackers of one host never oversubscribe it: when no
  share is below the floor, all installed trackers together stay within half the host's
  memory, and each limit lies between the floor and the ceiling.
\<close>

lemma tracker_limits_fit_host:
  assumes "n = countInstalledTrackers rows coin network"
    and "ma_limit (memoryArgsFor env XCHAIN_UTXO_TRACKER hostBytes n) = Some d" and "\<not> tl_floored d"
  shows "n * tl_mb d * MIB * 2 \<le> hostBytes \<and> TRACKER_FLOOR_MB \<le> tl_mb d \<and> tl_mb d \<le> TRACKER_CEILING_MB
       \<and> ma_mb (memoryArgsFor env XCHAIN_UTXO_TRACKER hostBytes n) = Some (tl_mb d)"
proof -
  have d: "d = trackerMemoryLimitMb hostBytes n"
    and mb: "ma_mb (memoryArgsFor env XCHAIN_UTXO_TRACKER hostBytes n) = Some (tl_mb d)"
    using assms(2) by (auto simp: memoryArgsFor_def Let_def split: if_splits option.splits)
  have share: "tl_mb d \<le> hostBytes div (2 * n * MIB)" "TRACKER_FLOOR_MB \<le> tl_mb d" "tl_mb d \<le> TRACKER_CEILING_MB"
    using d assms(1,3) count_pos by (auto simp: trackerMemoryLimitMb_def Let_def max_def min_def TRACKER_CEILING_MB_def TRACKER_FLOOR_MB_def
        split: if_splits)
  have "tl_mb d * (2 * n * MIB) \<le> hostBytes div (2 * n * MIB) * (2 * n * MIB)"
    using share(1) by (rule mult_le_mono1)
  also have "\<dots> \<le> hostBytes" by simp
  finally show ?thesis using share mb by (simp add: ac_simps)
qed

end
