(* ===== verification/JsDouble.thy ===== *)
theory JsDouble
  imports JsJson
begin

text \<open>
  The rounding of IEEE 754 doubles, for the code whose correctness hangs on it: the double
  nearest to an exact value, the half-even rule on ties, and \<open>toFixed(8)\<close>, which reads a
  double back at eight decimal places.
\<close>

section \<open>Powers of two around a value\<close>

fun bit_length :: "nat \<Rightarrow> nat" where
  "bit_length n = (if n = 0 then 0 else Suc (bit_length (n div 2)))"

declare bit_length.simps [simp del]

definition pow2 :: "int \<Rightarrow> rat" where
  "pow2 k = (if 0 \<le> k then 2 ^ nat k else 1 / 2 ^ nat (- k))"

text \<open>The exponent \<open>e\<close> with \<open>2 ^ e \<le> x < 2 ^ (e + 1)\<close> of a positive value.\<close>

definition exponent_of :: "rat \<Rightarrow> int" where
  "exponent_of x = (if 1 \<le> x then int (bit_length (nat \<lfloor>x\<rfloor>)) - 1
     else - int (bit_length (nat (\<lceil>1 / x\<rceil> - 1))))"

definition half_even :: "rat \<Rightarrow> int" where
  "half_even y = (let n = \<lfloor>y\<rfloor>; d = y - of_int n in
     if d < 1 / 2 then n else if 1 / 2 < d then n + 1 else if even n then n else n + 1)"

text \<open>The spacing of doubles around a value, subnormal spacing below \<open>2 ^ -1022\<close>.\<close>

definition ulp :: "rat \<Rightarrow> rat" where
  "ulp x = pow2 (max (exponent_of \<bar>x\<bar>) (- 1022) - 52)"

definition dbl :: "rat \<Rightarrow> rat" where
  "dbl x = (if x = 0 then 0 else of_int (half_even (x / ulp x)) * ulp x)"

text \<open>\<open>x.toFixed(8)\<close> of a non-negative double below \<open>10 ^ 21\<close>, in units of \<open>10 ^ -8\<close>.\<close>

definition fixed8 :: "rat \<Rightarrow> nat" where
  "fixed8 x = nat \<lfloor>x * 10 ^ 8 + 1 / 2\<rfloor>"

section \<open>Rounding error\<close>

lemma bit_length_bounds: "0 < n \<Longrightarrow> 2 ^ (bit_length n - 1) \<le> n \<and> n < 2 ^ bit_length n \<and> 0 < bit_length n"
proof (induction n rule: bit_length.induct)
  case (1 n)
  show ?case
  proof (cases "n = 1")
    case True then show ?thesis by (simp add: bit_length.simps)
  next
    case False
    with 1 have IH: "2 ^ (bit_length (n div 2) - 1) \<le> n div 2" "n div 2 < 2 ^ bit_length (n div 2)"
      "0 < bit_length (n div 2)" by auto
    have b: "bit_length n = Suc (bit_length (n div 2))" using 1(2) by (subst bit_length.simps) simp
    have "(2::nat) ^ bit_length (n div 2) = 2 * 2 ^ (bit_length (n div 2) - 1)"
      using IH(3) by (simp flip: power_Suc)
    then have "2 ^ bit_length (n div 2) \<le> n" using IH(1) by linarith
    moreover have "n < 2 * 2 ^ bit_length (n div 2)" using IH(2) by linarith
    ultimately show ?thesis unfolding b by simp
  qed
qed

lemma pow2_pos [simp]: "0 < pow2 k"
  by (simp add: pow2_def)

lemma pow2_mono: "a \<le> b \<Longrightarrow> pow2 a \<le> pow2 b"
proof -
  assume ab: "a \<le> b"
  consider "0 \<le> a" | "a < 0" "0 \<le> b" | "b < 0" using ab by linarith
  then show ?thesis
  proof cases
    case 1 then show ?thesis using ab by (auto simp: pow2_def intro: power_increasing)
  next
    case 2
    have "(1::rat) \<le> 2 ^ nat (- a)" "(1::rat) \<le> 2 ^ nat b" by simp_all
    then have "1 / (2::rat) ^ nat (- a) \<le> 1" "(1::rat) \<le> 2 ^ nat b" by (simp_all add: divide_le_eq)
    then have "1 / (2::rat) ^ nat (- a) \<le> 2 ^ nat b" by (rule order_trans)
    then show ?thesis using 2 by (simp add: pow2_def)
  next
    case 3
    have "(2::rat) ^ nat (- b) \<le> 2 ^ nat (- a)" using ab 3 by (intro power_increasing) auto
    then show ?thesis using 3 ab by (auto simp: pow2_def frac_le)
  qed
qed

lemma exponent_of_small: "0 < x \<Longrightarrow> x < 2 ^ k \<Longrightarrow> exponent_of x < int k"
proof -
  assume x: "0 < x" "x < 2 ^ k"
  show ?thesis
  proof (cases "1 \<le> x")
    case True
    then have n: "0 < nat \<lfloor>x\<rfloor>" by simp
    have "of_nat (nat \<lfloor>x\<rfloor>) \<le> x" using True by simp
    also have "\<dots> < 2 ^ k" by (rule x)
    finally have "of_nat (nat \<lfloor>x\<rfloor>) < (of_nat (2 ^ k) :: rat)" by simp
    then have lt: "nat \<lfloor>x\<rfloor> < 2 ^ k" unfolding of_nat_less_iff .
    have "(2::nat) ^ (bit_length (nat \<lfloor>x\<rfloor>) - 1) < 2 ^ k"
      using bit_length_bounds [OF n] lt by linarith
    then have "bit_length (nat \<lfloor>x\<rfloor>) - 1 < k" by (rule power_less_imp_less_exp [rotated]) simp
    then show ?thesis using True bit_length_bounds [OF n] by (simp add: exponent_of_def)
  next
    case False
    have "1 < 1 / x" using x False by simp
    then have "1 < \<lceil>1 / x\<rceil>" by linarith
    then have "0 < bit_length (nat (\<lceil>1 / x\<rceil> - 1))" using bit_length_bounds [of "nat (\<lceil>1 / x\<rceil> - 1)"] by simp
    then show ?thesis using False by (simp add: exponent_of_def)
  qed
qed

lemma half_even_error: "\<bar>of_int (half_even y) - y\<bar> \<le> 1 / 2"
proof -
  have "of_int \<lfloor>y\<rfloor> \<le> y" "y < of_int \<lfloor>y\<rfloor> + 1" by linarith+
  then show ?thesis by (auto simp: half_even_def Let_def abs_le_iff)
qed

lemma dbl_error: "\<bar>dbl x - x\<bar> \<le> ulp x / 2"
proof (cases "x = 0")
  case False
  have u: "0 < ulp x" by (simp add: ulp_def)
  have "dbl x - x = (of_int (half_even (x / ulp x)) - x / ulp x) * ulp x"
    using False u by (simp add: dbl_def left_diff_distrib)
  then have "\<bar>dbl x - x\<bar> = \<bar>of_int (half_even (x / ulp x)) - x / ulp x\<bar> * ulp x"
    using u by (simp add: abs_mult)
  also have "\<dots> \<le> 1 / 2 * ulp x"
    using half_even_error u by (intro mult_right_mono) auto
  finally show ?thesis by simp
qed (simp add: dbl_def ulp_def less_imp_le)

lemma ulp_below: "0 < x \<Longrightarrow> x < 2 ^ k \<Longrightarrow> ulp x \<le> pow2 (max (int k - 1) (- 1022) - 52)"
  using exponent_of_small [of x k] by (auto simp: ulp_def intro!: pow2_mono)

lemma dbl_near:
  assumes "0 \<le> x" "x < 2 ^ 26"
  shows "\<bar>dbl x - x\<bar> \<le> 1 / 2 ^ 28"
proof (cases "x = 0")
  case False
  then have "ulp x \<le> pow2 (- 27)" using ulp_below [of x 26] assms by simp
  then show ?thesis using dbl_error [of x] by (simp add: pow2_def)
qed (simp add: dbl_def)

lemma dbl_nonneg: "0 \<le> x \<Longrightarrow> 0 \<le> dbl x"
proof -
  assume x: "0 \<le> x"
  have u: "0 < ulp x" by (simp add: ulp_def)
  then have "0 \<le> \<lfloor>x / ulp x\<rfloor>" using x by simp
  then have "0 \<le> half_even (x / ulp x)" by (auto simp: half_even_def Let_def)
  then show ?thesis using u by (simp add: dbl_def)
qed

text \<open>Up to \<open>2 ^ 26\<close> a double keeps eight decimal places apart.\<close>

lemma fixed8_dbl:
  assumes "n < 2 ^ 26 * 10 ^ 8"
  shows "fixed8 (dbl (of_nat n / 10 ^ 8)) = n"
proof (cases "n = 0")
  case False
  let ?x = "of_nat n / 10 ^ 8 :: rat"
  have "(of_nat n :: rat) < of_nat (2 ^ 26 * 10 ^ 8)" using assms by (simp only: of_nat_less_iff)
  then have "\<bar>dbl ?x - ?x\<bar> \<le> 1 / 2 ^ 28" by (intro dbl_near) (simp_all add: divide_less_eq)
  then have "\<bar>(dbl ?x - ?x) * 10 ^ 8\<bar> \<le> 1 / 2 ^ 28 * 10 ^ 8" unfolding abs_mult by (intro mult_mono) simp_all
  moreover have "(dbl ?x - ?x) * 10 ^ 8 = dbl ?x * 10 ^ 8 - of_nat n" by (simp add: left_diff_distrib)
  ultimately have "\<bar>dbl ?x * 10 ^ 8 - of_nat n\<bar> \<le> 1 / 2 ^ 28 * 10 ^ 8" by (simp only:)
  also have "\<dots> < (1 / 2 :: rat)" by simp
  finally have "\<bar>dbl ?x * 10 ^ 8 - of_nat n\<bar> < 1 / 2" .
  then have "- (1 / 2) < dbl ?x * 10 ^ 8 - of_nat n" "dbl ?x * 10 ^ 8 - of_nat n < 1 / 2" unfolding abs_less_iff by linarith+
  then have "of_nat n \<le> dbl ?x * 10 ^ 8 + 1 / 2" "dbl ?x * 10 ^ 8 + 1 / 2 < of_nat n + 1" by linarith+
  then have "\<lfloor>dbl ?x * 10 ^ 8 + 1 / 2\<rfloor> = int n" by (simp only: floor_eq_iff of_int_of_nat_eq)
  then show ?thesis by (simp add: fixed8_def)
qed (simp add: dbl_def fixed8_def)

text \<open>Whole numbers below \<open>2 ^ 53\<close> are doubles.\<close>

lemma half_even_int [simp]: "half_even (of_int i) = i"
  by (simp add: half_even_def)

lemma dbl_nat: "n < 2 ^ 53 \<Longrightarrow> dbl (of_nat n) = of_nat n"
proof (cases "n = 0")
  case False
  assume "n < 2 ^ 53"
  then have "(of_nat n :: rat) < of_nat (2 ^ 53)" by (simp only: of_nat_less_iff)
  then have "exponent_of (of_nat n) < 53" using False exponent_of_small [of "of_nat n" 53] by simp
  then have "max (exponent_of (of_nat n)) (- 1022) - 52 \<le> 0" by simp
  then have "ulp (of_nat n) = 1 / 2 ^ nat (52 - max (exponent_of (of_nat n)) (- 1022))"
    by (auto simp: ulp_def pow2_def)
  then obtain k where k: "ulp (of_nat n) = 1 / 2 ^ k" by blast
  have "of_nat n / (1 / 2 ^ k) = (of_int (int n * 2 ^ k) :: rat)" by simp
  then have "half_even (of_nat n / (1 / 2 ^ k)) = int n * 2 ^ k" by (simp only: half_even_int)
  then show ?thesis using False unfolding dbl_def k by simp
qed (simp add: dbl_def)

end
