(* ===== verification/JsNumber.thy ===== *)
theory JsNumber
  imports Coins JsDouble
begin

text \<open>
  \<open>Number(v)\<close> of any JSON value and the rounded arithmetic of doubles.
\<close>

section \<open>Number values\<close>

fun to_double :: "jsnum \<Rightarrow> jsnum" where
  "to_double (Fin r) = to_num (dbl r)"
| "to_double n = n"

text \<open>\<open>Number(v)\<close>; \<open>None\<close> is \<open>undefined\<close>.\<close>

fun exact_Number :: "json \<Rightarrow> jsnum" where
  "exact_Number JNull = Fin 0"
| "exact_Number (JBool b) = Fin (if b then 1 else 0)"
| "exact_Number (JNum n) = n"
| "exact_Number (JStr s) = js_Number s"
| "exact_Number (JArr vs) = js_Number (js_String (JArr vs))"
| "exact_Number (JObj _) = NaN"

definition Number :: "json \<Rightarrow> jsnum" where
  "Number v = to_double (exact_Number v)"

definition Number_opt :: "json option \<Rightarrow> jsnum" where
  "Number_opt v = (case v of None \<Rightarrow> NaN | Some j \<Rightarrow> Number j)"

definition num :: "json option \<Rightarrow> jsnum" where
  "num x = (let n = Number_opt x in if is_finite n then n else Fin 0)"

definition dadd :: "jsnum \<Rightarrow> jsnum \<Rightarrow> jsnum" where "dadd a b = to_double (js_add a b)"
definition dmul :: "jsnum \<Rightarrow> jsnum \<Rightarrow> jsnum" where "dmul a b = to_double (js_mul a b)"

fun round_num :: "jsnum \<Rightarrow> jsnum" where
  "round_num (Fin r) = Fin (of_int (js_round r))"
| "round_num n = n"

end
