(* ===== verification/JsDate.thy ===== *)
theory JsDate
  imports JsJson
begin

text \<open>
  The part of the JavaScript \<open>Date\<close> object the services use, in milliseconds since the epoch
  (UTC): the calendar fields of an instant, \<open>Date.UTC\<close>, \<open>toISOString\<close>, and \<open>Date.parse\<close>, which
  the language defines on the texts \<open>toISOString\<close> writes and leaves to the engine on any other.
\<close>

section \<open>Padded decimal fields\<close>

text \<open>\<open>s.padStart(n, '0')\<close>.\<close>

definition pad_start :: "nat \<Rightarrow> string \<Rightarrow> string" where
  "pad_start n s = replicate (n - length s) (CHR ''0'') @ s"

lemma decimal_nat_append: "decimal_nat (xs @ ys) = decimal_nat xs * 10 ^ length ys + decimal_nat ys"
proof (induction ys rule: rev_induct)
  case (snoc y ys)
  then show ?case using decimal_nat_snoc [of "xs @ ys" y] by (simp add: algebra_simps)
qed (simp add: decimal_nat_def nat_of_digits_def)

lemma decimal_nat_Nil [simp]: "decimal_nat [] = 0"
  by (simp add: decimal_nat_def nat_of_digits_def)

lemma decimal_nat_zeros [simp]: "decimal_nat (replicate n (CHR ''0'')) = 0"
proof (induction n)
  case (Suc n)
  then show ?case
    using decimal_nat_append [of "[CHR ''0'']" "replicate n (CHR ''0'')"] by (simp add: digit_val_def char_code_def)
qed simp

lemma decimal_nat_pad_start [simp]: "decimal_nat (pad_start n s) = decimal_nat s"
  by (simp add: pad_start_def decimal_nat_append)

lemma show_nat_length: "n < 10 ^ k \<Longrightarrow> 0 < k \<Longrightarrow> length (show_nat n) \<le> k"
proof (induction n arbitrary: k rule: show_nat.induct)
  case (1 n)
  show ?case
  proof (cases "n < 10")
    case True then show ?thesis using 1 by (subst show_nat.simps) simp
  next
    case False
    obtain j where k: "k = Suc j" using 1(3) by (cases k) auto
    then have "0 < j" using False 1(2) by (cases j) simp_all
    note k = k this
    have "n div 10 < 10 ^ j" using 1(2) k by (simp add: div_less_iff_less_mult mult.commute)
    then show ?thesis using False 1(1) k by (subst show_nat.simps) simp
  qed
qed

lemma pad_start_length: "n < 10 ^ k \<Longrightarrow> 0 < k \<Longrightarrow> length (pad_start k (show_nat n)) = k"
  using show_nat_length [of n k] by (simp add: pad_start_def)

lemma pad_start_digits [simp]: "list_all is_digit s \<Longrightarrow> list_all is_digit (pad_start n s)"
  by (auto simp: pad_start_def list_all_iff is_digit_def char_code_def)

lemma decimal_nat_less: "list_all is_digit ds \<Longrightarrow> decimal_nat ds < 10 ^ length ds"
proof (induction ds rule: rev_induct)
  case (snoc d ds)
  then have "digit_val d < 10" by (simp add: is_digit_def digit_val_def) linarith
  then show ?case using snoc by simp
qed simp

text \<open>A decimal field of fixed width, and what a fixed-width field reads as.\<close>

definition pad :: "nat \<Rightarrow> nat \<Rightarrow> string" where
  "pad k n = pad_start k (show_nat n)"

lemma pad_facts:
  assumes "n < 10 ^ k" "0 < k"
  shows "length (pad k n) = k" "list_all is_digit (pad k n)" "decimal_nat (pad k n) = n"
  using assms by (simp_all add: pad_def pad_start_length show_nat_digits)

section \<open>The calendar\<close>

definition leap :: "int \<Rightarrow> bool" where
  "leap y = (y mod 4 = 0 \<and> (y mod 100 \<noteq> 0 \<or> y mod 400 = 0))"

text \<open>The day number of the first of January of a year; day 0 is 1970-01-01.\<close>

definition DayFromYear :: "int \<Rightarrow> int" where
  "DayFromYear y = 365 * (y - 1970) + (y - 1969) div 4 - (y - 1901) div 100 + (y - 1601) div 400"

text \<open>Days before the first of month \<open>m\<close> (0 for January) within the year.\<close>

definition MonthStart :: "bool \<Rightarrow> int \<Rightarrow> int" where
  "MonthStart l m = [0, 31, 59, 90, 120, 151, 181, 212, 243, 273, 304, 334] ! nat m + (if l \<and> 2 \<le> m then 1 else 0)"

definition MakeDay :: "int \<Rightarrow> int \<Rightarrow> int \<Rightarrow> int" where
  "MakeDay y m dt = (let ym = y + m div 12; mn = m mod 12 in DayFromYear ym + MonthStart (leap ym) mn + dt - 1)"

definition msPerDay :: int where "msPerDay = 86400000"

definition MakeTime :: "int \<Rightarrow> int \<Rightarrow> int \<Rightarrow> int \<Rightarrow> int" where
  "MakeTime h mi s ms = h * 3600000 + mi * 60000 + s * 1000 + ms"

text \<open>\<open>Date.UTC(y, m, d, h, mi, s)\<close>: two-digit years are of the twentieth century, a field beyond
  its range carries into the next.\<close>

definition Date_UTC :: "int \<Rightarrow> int \<Rightarrow> int \<Rightarrow> int \<Rightarrow> int \<Rightarrow> int \<Rightarrow> int" where
  "Date_UTC y m d h mi s =
     (let yr = (if 0 \<le> y \<and> y \<le> 99 then 1900 + y else y) in MakeDay yr m d * msPerDay + MakeTime h mi s 0)"

lemma div_succ_inside:
  "0 < k \<Longrightarrow> 0 \<le> r \<Longrightarrow> r < k \<Longrightarrow> (q * k + r) div k = q \<and> (q * k + r) mod k = r" for k q r :: int
  by simp

lemma div_succ: "0 < k \<Longrightarrow> (x + 1) div k = x div k + (if (x + 1) mod k = 0 then 1 else 0)" for x k :: int
proof -
  assume k: "0 < k"
  obtain q r where x: "x = q * k + r" and r: "0 \<le> r" "r < k"
    using k div_mult_mod_eq [of x k] pos_mod_bound [of k x] pos_mod_sign [of k x] by metis
  note d = div_succ_inside [OF k]
  show ?thesis
  proof (cases "r + 1 = k")
    case True
    then have "x + 1 = (q + 1) * k + 0" unfolding x by (simp add: algebra_simps)
    then show ?thesis using d [of 0 "q + 1"] d [OF r] k unfolding x by simp
  next
    case False
    then have "0 \<le> r + 1" "r + 1 < k" "x + 1 = q * k + (r + 1)" using r unfolding x by linarith+
    then show ?thesis using d [of "r + 1" q] d [OF r] r unfolding x by (simp add: add.assoc)
  qed
qed

lemma DayFromYear_step_eq:
  "DayFromYear (y + 1) = DayFromYear y + 365 + (if y mod 4 = 0 then 1 else 0)
     - (if y mod 100 = 0 then 1 else 0) + (if y mod 400 = 0 then 1 else 0)"
proof -
  define A B C where "A = (y - 1969) div 4" "B = (y - 1901) div 100" "C = (y - 1601) div 400"
  have s: "y + 1 - 1969 = y - 1969 + 1" "y + 1 - 1901 = y - 1901 + 1" "y + 1 - 1601 = y - 1601 + 1" by linarith+
  have "(y - 1969 + 1) mod 4 = (y + 4 * (- 492)) mod 4" "(y - 1901 + 1) mod 100 = (y + 100 * (- 19)) mod 100"
    "(y - 1601 + 1) mod 400 = (y + 400 * (- 4)) mod 400"
    by (rule arg_cong [where f = "\<lambda>x. x mod _"], simp)+
  then have m: "(y - 1969 + 1) mod 4 = y mod 4" "(y - 1901 + 1) mod 100 = y mod 100" "(y - 1601 + 1) mod 400 = y mod 400"
    by (simp_all only: mod_mult_self2)
  have q: "(y - 1969 + 1) div 4 = A + (if y mod 4 = 0 then 1 else 0)"
    "(y - 1901 + 1) div 100 = B + (if y mod 100 = 0 then 1 else 0)"
    "(y - 1601 + 1) div 400 = C + (if y mod 400 = 0 then 1 else 0)"
    using div_succ [of 4 "y - 1969"] div_succ [of 100 "y - 1901"] div_succ [of 400 "y - 1601"]
    unfolding m A_B_C_def by (simp_all only: zero_less_numeral simp_thms)
  have "365 * (y + 1 - 1970) = 365 * (y - 1970) + 365" by simp
  then show ?thesis unfolding DayFromYear_def s q A_B_C_def [symmetric] by linarith
qed

lemma DayFromYear_step: "DayFromYear (y + 1) = DayFromYear y + (if leap y then 366 else 365)"
proof -
  have d: "y mod 400 = 0 \<longrightarrow> y mod 100 = 0" "y mod 100 = 0 \<longrightarrow> y mod 4 = 0"
    using dvd_trans [of 100 400 y] dvd_trans [of 4 100 y] by (simp_all add: dvd_eq_mod_eq_0)
  show ?thesis
  proof (cases "leap y")
    case True
    then have "y mod 4 = 0" "(y mod 100 = 0) = (y mod 400 = 0)" using d unfolding leap_def by argo+
    then show ?thesis using True
      by (cases "y mod 400 = 0") (simp_all only: DayFromYear_step_eq simp_thms if_True if_False)
  next
    case False
    then have "(y mod 4 = 0) = (y mod 100 = 0)" "y mod 400 \<noteq> 0" using d unfolding leap_def by argo+
    then show ?thesis using False
      by (cases "y mod 100 = 0") (simp_all only: DayFromYear_step_eq simp_thms if_True if_False)
  qed
qed

lemma DayFromYear_less: "DayFromYear y < DayFromYear (y + 1)"
  by (simp add: DayFromYear_step)

lemma DayFromYear_mono: "y \<le> z \<Longrightarrow> DayFromYear y \<le> DayFromYear z"
proof (induction z rule: int_ge_induct)
  case (step z) then show ?case using DayFromYear_less [of z] by linarith
qed simp

function year_from :: "int \<Rightarrow> int \<Rightarrow> int" where
  "year_from y d = (if DayFromYear (y + 1) \<le> d then year_from (y + 1) d else y)"
  by auto
termination
  using DayFromYear_less by (relation "measure (\<lambda>(y, d). nat (d - DayFromYear y))") (auto, smt)

declare year_from.simps [simp del]

text \<open>The calendar fields of an instant on or after the epoch.\<close>

definition DayOf :: "int \<Rightarrow> int" where "DayOf t = t div msPerDay"

definition YearOfDay :: "int \<Rightarrow> int" where "YearOfDay d = year_from (1970 + d div 366) d"

definition DayInYear :: "int \<Rightarrow> int" where "DayInYear d = d - DayFromYear (YearOfDay d)"

definition month_count :: "bool \<Rightarrow> int \<Rightarrow> int" where
  "month_count l k = int (length (filter (\<lambda>m. MonthStart l m \<le> k) [1, 2, 3, 4, 5, 6, 7, 8, 9, 10, 11]))"

definition MonthOfDay :: "int \<Rightarrow> int" where
  "MonthOfDay d = month_count (leap (YearOfDay d)) (DayInYear d)"

definition DateOfDay :: "int \<Rightarrow> int" where
  "DateOfDay d = DayInYear d - MonthStart (leap (YearOfDay d)) (MonthOfDay d) + 1"

definition getUTCFullYear :: "int \<Rightarrow> int" where "getUTCFullYear t = YearOfDay (DayOf t)"
definition getUTCMonth :: "int \<Rightarrow> int" where "getUTCMonth t = MonthOfDay (DayOf t)"
definition getUTCDate :: "int \<Rightarrow> int" where "getUTCDate t = DateOfDay (DayOf t)"
definition getUTCHours :: "int \<Rightarrow> int" where "getUTCHours t = t div 3600000 mod 24"
definition getUTCMinutes :: "int \<Rightarrow> int" where "getUTCMinutes t = t div 60000 mod 60"
definition getUTCSeconds :: "int \<Rightarrow> int" where "getUTCSeconds t = t div 1000 mod 60"
definition getUTCMilliseconds :: "int \<Rightarrow> int" where "getUTCMilliseconds t = t mod 1000"

lemma year_from_bounds:
  "DayFromYear y \<le> d \<Longrightarrow> DayFromYear (year_from y d) \<le> d \<and> d < DayFromYear (year_from y d + 1) \<and> y \<le> year_from y d"
proof (induction y d rule: year_from.induct)
  case (1 y d)
  show ?case
  proof (cases "DayFromYear (y + 1) \<le> d")
    case True
    then show ?thesis using 1 by (subst (1 2 3) year_from.simps) simp
  next
    case False
    then show ?thesis using 1 by (subst (1 2 3) year_from.simps) simp
  qed
qed

lemma DayFromYear_upper: "0 \<le> k \<Longrightarrow> DayFromYear (1970 + k) \<le> 366 * k"
proof (induction k rule: int_ge_induct)
  case base then show ?case by (simp add: DayFromYear_def)
next
  case (step k)
  then show ?case using DayFromYear_step [of "1970 + k"] by (simp add: algebra_simps split: if_splits)
qed

lemma YearOfDay_bounds:
  assumes "0 \<le> d"
  shows "DayFromYear (YearOfDay d) \<le> d" "d < DayFromYear (YearOfDay d + 1)" "1970 \<le> YearOfDay d"
proof -
  have "0 \<le> d div 366" using assms by (simp add: pos_imp_zdiv_nonneg_iff)
  moreover have "366 * (d div 366) \<le> d" by presburger
  ultimately have "DayFromYear (1970 + d div 366) \<le> d" using DayFromYear_upper by (meson order_trans)
  then show "DayFromYear (YearOfDay d) \<le> d" "d < DayFromYear (YearOfDay d + 1)" "1970 \<le> YearOfDay d"
    using year_from_bounds \<open>0 \<le> d div 366\<close> unfolding YearOfDay_def by fastforce+
qed

lemma YearOfDay_unique:
  assumes "0 \<le> d" "DayFromYear y \<le> d" "d < DayFromYear (y + 1)"
  shows "YearOfDay d = y"
proof -
  note b = YearOfDay_bounds [OF assms(1)]
  have "\<not> YearOfDay d + 1 \<le> y" using DayFromYear_mono [of "YearOfDay d + 1" y] b assms by linarith
  moreover have "\<not> y + 1 \<le> YearOfDay d" using DayFromYear_mono [of "y + 1" "YearOfDay d"] b assms by linarith
  ultimately show ?thesis by linarith
qed

lemma DayInYear_bounds:
  assumes "0 \<le> d"
  shows "0 \<le> DayInYear d" "DayInYear d < (if leap (YearOfDay d) then 366 else 365)"
  using YearOfDay_bounds [OF assms] DayFromYear_step [of "YearOfDay d"] by (simp_all add: DayInYear_def)


lemma month_table:
  "list_all (\<lambda>l. list_all (\<lambda>k. let m = month_count l k; dt = k - MonthStart l m in m \<le> 11 \<and> 0 \<le> dt \<and> dt < 31)
     [0..if l then 365 else 364]) [True, False]"
  by code_simp

lemma month_split:
  assumes "0 \<le> k" "k < (if l then 366 else 365)"
  shows "0 \<le> month_count l k \<and> month_count l k \<le> 11 \<and> 0 \<le> k - MonthStart l (month_count l k) \<and> k - MonthStart l (month_count l k) < 31"
  using month_table assms by (cases l) (auto simp: list_all_iff Let_def month_count_def)

lemma month_date_bounds:
  assumes "0 \<le> d"
  shows "0 \<le> MonthOfDay d" "MonthOfDay d \<le> 11" "1 \<le> DateOfDay d" "DateOfDay d \<le> 31"
  using month_split [OF DayInYear_bounds [OF assms]] by (simp_all add: MonthOfDay_def DateOfDay_def)

lemma MakeDay_fields: "0 \<le> d \<Longrightarrow> MakeDay (YearOfDay d) (MonthOfDay d) (DateOfDay d) = d"
  using month_date_bounds [of d] by (simp add: MakeDay_def DateOfDay_def DayInYear_def Let_def)

lemma time_fields:
  "MakeTime (getUTCHours t) (getUTCMinutes t) (getUTCSeconds t) (getUTCMilliseconds t) = t mod msPerDay"
proof -
  have e: "t div 60000 = t div 1000 div 60" "t div 3600000 = t div 1000 div 60 div 60"
    "t mod 86400000 = t - 86400000 * (t div 1000 div 60 div 60 div 24)"
    by (simp_all add: zdiv_zmult2_eq [symmetric] minus_mult_div_eq_mod [symmetric])
  show ?thesis
    unfolding MakeTime_def getUTCHours_def getUTCMinutes_def getUTCSeconds_def getUTCMilliseconds_def msPerDay_def e
    by (simp add: minus_mult_div_eq_mod [symmetric] algebra_simps)
qed

lemma instant_fields:
  assumes "0 \<le> t"
  shows "MakeDay (getUTCFullYear t) (getUTCMonth t) (getUTCDate t) * msPerDay
    + MakeTime (getUTCHours t) (getUTCMinutes t) (getUTCSeconds t) (getUTCMilliseconds t) = t"
proof -
  have "0 \<le> DayOf t" using assms by (simp add: DayOf_def msPerDay_def pos_imp_zdiv_nonneg_iff)
  then show ?thesis
    unfolding getUTCFullYear_def getUTCMonth_def getUTCDate_def time_fields
    by (simp add: MakeDay_fields DayOf_def)
qed

lemma field_bounds:
  assumes "0 \<le> t"
  shows "1970 \<le> getUTCFullYear t" "0 \<le> getUTCMonth t" "getUTCMonth t \<le> 11" "1 \<le> getUTCDate t" "getUTCDate t \<le> 31"
    "0 \<le> getUTCHours t" "getUTCHours t < 24" "0 \<le> getUTCMinutes t" "getUTCMinutes t < 60"
    "0 \<le> getUTCSeconds t" "getUTCSeconds t < 60" "0 \<le> getUTCMilliseconds t" "getUTCMilliseconds t < 1000"
proof -
  have "0 \<le> DayOf t" using assms by (simp add: DayOf_def msPerDay_def pos_imp_zdiv_nonneg_iff)
  then show "1970 \<le> getUTCFullYear t" "0 \<le> getUTCMonth t" "getUTCMonth t \<le> 11" "1 \<le> getUTCDate t" "getUTCDate t \<le> 31"
    using month_date_bounds YearOfDay_bounds(3) by (simp_all add: getUTCFullYear_def getUTCMonth_def getUTCDate_def)
qed (simp_all add: getUTCHours_def getUTCMinutes_def getUTCSeconds_def getUTCMilliseconds_def)

text \<open>The instants of the years up to 9999, which the texts below have a four-digit year for.\<close>

definition four_digit_instant :: "int \<Rightarrow> bool" where
  "four_digit_instant t = (0 \<le> t \<and> t < 253402300800000)"

lemma four_digit_year:
  assumes "four_digit_instant t"
  shows "getUTCFullYear t \<le> 9999"
proof -
  have "DayOf t * 86400000 \<le> t"
    using div_mult_mod_eq [of t 86400000] pos_mod_sign [of 86400000 t] unfolding DayOf_def msPerDay_def by linarith
  then have d: "0 \<le> DayOf t" "DayOf t < 2932897"
    using assms by (simp_all add: four_digit_instant_def DayOf_def msPerDay_def pos_imp_zdiv_nonneg_iff)
  have "DayFromYear 10000 = 2932897" by (simp add: DayFromYear_def)
  moreover have "DayFromYear (getUTCFullYear t) \<le> DayOf t"
    using YearOfDay_bounds(1) [OF d(1)] by (simp add: getUTCFullYear_def)
  ultimately show ?thesis using DayFromYear_mono [of 10000 "getUTCFullYear t"] d(2) by linarith
qed

section \<open>ISO texts\<close>

definition int_pad :: "nat \<Rightarrow> int \<Rightarrow> string" where
  "int_pad k n = pad k (nat n)"

definition toISOString :: "int \<Rightarrow> string" where
  "toISOString t =
     (if getUTCFullYear t \<le> 9999 then int_pad 4 (getUTCFullYear t) else CHR ''+'' # int_pad 6 (getUTCFullYear t))
     @ ''-'' @ int_pad 2 (getUTCMonth t + 1) @ ''-'' @ int_pad 2 (getUTCDate t)
     @ ''T'' @ int_pad 2 (getUTCHours t) @ '':'' @ int_pad 2 (getUTCMinutes t) @ '':'' @ int_pad 2 (getUTCSeconds t)
     @ ''.'' @ int_pad 3 (getUTCMilliseconds t) @ ''Z''"

text \<open>A run of exactly \<open>k\<close> digits and the literal after it.\<close>

definition digits_then :: "nat \<Rightarrow> string \<Rightarrow> string \<Rightarrow> (int \<times> string) option" where
  "digits_then k sep s = (let d = take k s; r = drop k s in
     if length d = k \<and> list_all is_digit d \<and> take (length sep) r = sep
     then Some (int (decimal_nat d), drop (length sep) r) else None)"

text \<open>
  \<open>Date.parse\<close>: the instant whose ISO text it is; \<open>other\<close> is what the engine makes of any
  other text.
\<close>

definition iso_instant :: "string \<Rightarrow> int option" where
  "iso_instant s = Option.bind (digits_then 4 ''-'' s) (\<lambda>(y, s1).
     Option.bind (digits_then 2 ''-'' s1) (\<lambda>(mo, s2).
     Option.bind (digits_then 2 ''T'' s2) (\<lambda>(d, s3).
     Option.bind (digits_then 2 '':'' s3) (\<lambda>(h, s4).
     Option.bind (digits_then 2 '':'' s4) (\<lambda>(mi, s5).
     Option.bind (digits_then 2 ''.'' s5) (\<lambda>(sec, s6).
     Option.bind (digits_then 3 ''Z'' s6) (\<lambda>(ms, s7).
       let t = (if 1 \<le> mo \<and> mo \<le> 12 then MakeDay y (mo - 1) d * msPerDay + MakeTime h mi sec ms else - 1)
       in if 0 \<le> t \<and> s7 = [] \<and> toISOString t = s then Some t else None)))))))"

definition Date_parse :: "(string \<Rightarrow> int option) \<Rightarrow> string \<Rightarrow> int option" where
  "Date_parse other s = (case iso_instant s of Some t \<Rightarrow> Some t | None \<Rightarrow> other s)"

lemma digits_then_pad:
  assumes "0 \<le> n" "n < 10 ^ k" "0 < k"
  shows "digits_then k sep (int_pad k n @ sep @ r) = Some (n, r)"
proof -
  have "nat n < 10 ^ k" using assms by (simp add: nat_less_iff)
  then show ?thesis using pad_facts [of "nat n" k] assms by (simp add: digits_then_def int_pad_def Let_def)
qed

lemma digits_then_pad_end:
  "0 \<le> n \<Longrightarrow> n < 10 ^ k \<Longrightarrow> 0 < k \<Longrightarrow> digits_then k sep (int_pad k n @ sep) = Some (n, [])"
  using digits_then_pad [of n k sep "[]"] by simp

lemma iso_instant_toISOString:
  assumes "four_digit_instant t"
  shows "iso_instant (toISOString t) = Some t"
proof -
  have t: "0 \<le> t" using assms by (simp add: four_digit_instant_def)
  note b = field_bounds [OF t] four_digit_year [OF assms]
  define s where "s = toISOString t"
  have s: "s = int_pad 4 (getUTCFullYear t) @ ''-'' @ int_pad 2 (getUTCMonth t + 1) @ ''-'' @ int_pad 2 (getUTCDate t)
     @ ''T'' @ int_pad 2 (getUTCHours t) @ '':'' @ int_pad 2 (getUTCMinutes t) @ '':'' @ int_pad 2 (getUTCSeconds t)
     @ ''.'' @ int_pad 3 (getUTCMilliseconds t) @ ''Z'' @ []"
    using b by (simp add: s_def toISOString_def)
  have "iso_instant s = Some t" if "toISOString t = s"
    unfolding iso_instant_def that [symmetric]
    by (simp only: that, subst (1) s) (use b t instant_fields [OF t] that in \<open>simp add: digits_then_pad digits_then_pad_end Let_def del: append.simps append_Cons\<close>)
  then show ?thesis by (simp add: s_def)
qed

lemma Date_parse_toISOString [simp]: "four_digit_instant t \<Longrightarrow> Date_parse other (toISOString t) = Some t"
  by (simp add: Date_parse_def iso_instant_toISOString)

end
