(* ===== verification/StakeAmounts.thy ===== *)
theory StakeAmounts
  imports JsNumber JsDate
begin

text \<open>
  XCHAIN amounts and the mint plan: the unit arithmetic of
  \<open>services/validator_stake_service/free_key.js\<close>, the mint rules of \<open>mint_rules.js\<close>, and
  \<open>planMints\<close> of \<open>services/validator_stake_service.js\<close>. Numbers that reach the code are
  doubles: every conversion and arithmetic operation rounds. Reasons and errors are
  constructors that carry what their text carries.
\<close>

section \<open>Amounts in units\<close>

definition UNIT_DIGITS :: nat where "UNIT_DIGITS = 8"

definition pad_end :: "nat \<Rightarrow> string \<Rightarrow> string" where
  "pad_end n s = s @ replicate (n - length s) (CHR ''0'')"

definition toUnits :: "string \<Rightarrow> nat option" where
  "toUnits amount = (let t = trim amount; ip = takeWhile is_digit t; r = dropWhile is_digit t in
     if ip = [] then None
     else case r of
         [] \<Rightarrow> Some (decimal_nat ip * 10 ^ UNIT_DIGITS)
       | c # fp \<Rightarrow>
           if c = CHR ''.'' \<and> fp \<noteq> [] \<and> length fp \<le> 8 \<and> list_all is_digit fp
           then Some (decimal_nat ip * 10 ^ UNIT_DIGITS + decimal_nat (pad_end UNIT_DIGITS fp)) else None)"

definition fromUnits :: "nat \<Rightarrow> string" where
  "fromUnits units = (let scale = 10 ^ UNIT_DIGITS;
       frac = rev (dropWhile (\<lambda>c. c = CHR ''0'') (rev (pad_start UNIT_DIGITS (show_nat (units mod scale)))))
     in show_nat (units div scale) @ (if frac \<noteq> [] then CHR ''.'' # frac else []))"

text \<open>
  \<open>x.toFixed(8)\<close> of a non-negative number. From \<open>10 ^ 21\<close> on it is the exponent form, which
  is not a plain decimal.
\<close>

definition to_fixed8 :: "rat \<Rightarrow> string" where
  "to_fixed8 x = show_nat (fixed8 x div 10 ^ 8) @ CHR ''.'' # pad_start 8 (show_nat (fixed8 x mod 10 ^ 8))"

fun amountUnits :: "json \<Rightarrow> nat option" where
  "amountUnits (JNum (Fin r)) = (if 0 \<le> r \<and> r < 10 ^ 21 then toUnits (to_fixed8 r) else None)"
| "amountUnits (JNum _) = None"
| "amountUnits v = toUnits (js_String v)"

definition opt_String :: "json option \<Rightarrow> string" where
  "opt_String v = (case v of None \<Rightarrow> ''undefined'' | Some j \<Rightarrow> js_String j)"

fun sum_units :: "nat \<Rightarrow> json list \<Rightarrow> nat option" where
  "sum_units acc [] = Some acc"
| "sum_units acc (r # rs) = (case toUnits (opt_String (field r ''amount'')) of
     None \<Rightarrow> None | Some u \<Rightarrow> sum_units (acc + u) rs)"

definition sumAmounts :: "json list \<Rightarrow> string option" where
  "sumAmounts rows = map_option fromUnits (sum_units 0 rows)"

definition mintAmountText :: "jsnum \<Rightarrow> string option" where
  "mintAmountText amount = (case amountUnits (JNum amount) of
     None \<Rightarrow> None | Some u \<Rightarrow> if u = 0 then None else Some (fromUnits u))"

section \<open>Amount texts round trip\<close>

lemma trim_digits:
  assumes "list_all is_digit (c # cs)" "list_all (\<lambda>x. \<not> is_ws x) r"
  shows "trim ((c # cs) @ r) = (c # cs) @ r"
proof -
  have nows: "\<not> is_ws x" if "x \<in> set ((c # cs) @ r)" for x
    using that assms by (auto simp: list_all_iff dest: is_digit_not_ws)
  then have "dropWhile is_ws ((c # cs) @ r) = (c # cs) @ r" by simp
  moreover have "dropWhile is_ws (rev ((c # cs) @ r)) = rev ((c # cs) @ r)"
    using nows by (subst dropWhile_eq_self_iff) (metis hd_in_set set_rev)
  ultimately show ?thesis unfolding trim_def by (simp only: rev_rev_ident)
qed

lemma strip_zeros:
  obtains k where "s = rev (dropWhile (\<lambda>c. c = CHR ''0'') (rev s)) @ replicate k (CHR ''0'')"
proof -
  let ?z = "\<lambda>c. c = CHR ''0''"
  have "takeWhile ?z (rev s) = replicate (length (takeWhile ?z (rev s))) (CHR ''0'')"
    by (intro replicate_eqI) (auto dest: set_takeWhileD)
  moreover have "rev (rev s) = rev (takeWhile ?z (rev s) @ dropWhile ?z (rev s))" by simp
  ultimately have "s = rev (dropWhile ?z (rev s)) @ rev (replicate (length (takeWhile ?z (rev s))) (CHR ''0''))"
    by (metis rev_append rev_rev_ident)
  then show thesis unfolding rev_replicate by (rule that)
qed

lemma toUnits_decimal:
  assumes ip: "list_all is_digit ip" "ip \<noteq> []" and fp: "list_all is_digit fp" "length fp \<le> 8"
  shows "toUnits (ip @ (if fp \<noteq> [] then CHR ''.'' # fp else []))
    = Some (decimal_nat ip * 10 ^ 8 + decimal_nat (pad_end 8 fp))"
proof -
  obtain c cs where c: "ip = c # cs" using ip by (cases ip) auto
  have dot: "\<not> is_digit (CHR ''.'')" "\<not> is_ws (CHR ''.'')" by (simp_all add: is_digit_def is_ws_def char_code_def)
  have "list_all (\<lambda>x. \<not> is_ws x) (if fp \<noteq> [] then CHR ''.'' # fp else [])"
    using fp(1) dot digits_no_ws by auto
  then have t: "trim (ip @ (if fp \<noteq> [] then CHR ''.'' # fp else [])) = ip @ (if fp \<noteq> [] then CHR ''.'' # fp else [])"
    using trim_digits ip unfolding c by blast
  have tw: "takeWhile is_digit (ip @ (if fp \<noteq> [] then CHR ''.'' # fp else [])) = ip"
    "dropWhile is_digit (ip @ (if fp \<noteq> [] then CHR ''.'' # fp else [])) = (if fp \<noteq> [] then CHR ''.'' # fp else [])"
    using ip(1) dot by (auto simp: list_all_iff takeWhile_append dropWhile_append)
  show ?thesis
    unfolding toUnits_def Let_def t tw using ip(2) fp
    by (auto simp: UNIT_DIGITS_def pad_end_def)
qed

text \<open>The two halves of an amount text: whole digits, and a fraction whose padding is the remainder.\<close>

lemma fromUnits_parts:
  obtains f k where "fromUnits u = show_nat (u div 10 ^ 8) @ (if f \<noteq> [] then CHR ''.'' # f else [])"
    "list_all is_digit f" "length f \<le> 8" "k = 8 - length f" "decimal_nat (f @ replicate k (CHR ''0'')) = u mod 10 ^ 8"
proof -
  define p where "p = pad_start 8 (show_nat (u mod 10 ^ 8))"
  define f where "f = rev (dropWhile (\<lambda>c. c = CHR ''0'') (rev p))"
  obtain k where k: "p = f @ replicate k (CHR ''0'')" unfolding f_def by (rule strip_zeros)
  have len: "length p = 8" unfolding p_def by (intro pad_start_length) simp_all
  then have lens: "length f \<le> 8" "k = 8 - length f" unfolding k by simp_all
  have "list_all is_digit p" by (simp add: p_def show_nat_digits)
  then have dg: "list_all is_digit f" unfolding k by simp
  have val: "decimal_nat (f @ replicate k (CHR ''0'')) = u mod 10 ^ 8"
    unfolding k [symmetric] by (simp add: p_def)
  have tx: "fromUnits u = show_nat (u div 10 ^ 8) @ (if f \<noteq> [] then CHR ''.'' # f else [])"
    unfolding fromUnits_def Let_def UNIT_DIGITS_def f_def p_def ..
  show thesis by (rule that [OF tx dg lens val])
qed

lemma toUnits_fromUnits [simp]: "toUnits (fromUnits u) = Some u"
proof -
  obtain f k where f: "fromUnits u = show_nat (u div 10 ^ 8) @ (if f \<noteq> [] then CHR ''.'' # f else [])"
    "list_all is_digit f" "length f \<le> 8" "k = 8 - length f" "decimal_nat (f @ replicate k (CHR ''0'')) = u mod 10 ^ 8"
    by (rule fromUnits_parts)
  then show ?thesis
    using toUnits_decimal [of "show_nat (u div 10 ^ 8)" f] by (simp add: show_nat_digits pad_end_def)
qed

lemma toUnits_fixed [simp]: "toUnits (to_fixed8 x) = Some (fixed8 x)"
proof -
  let ?p = "pad_start 8 (show_nat (fixed8 x mod 10 ^ 8))"
  have len: "length ?p = 8" by (intro pad_start_length) simp_all
  then have ne: "?p \<noteq> []" by auto
  show ?thesis
    unfolding to_fixed8_def
    using toUnits_decimal [of "show_nat (fixed8 x div 10 ^ 8)" ?p] ne len
    by (simp add: show_nat_digits pad_end_def)
qed

lemma js_Number_decimal:
  assumes ip: "list_all is_digit ip" "ip \<noteq> []" and fp: "list_all is_digit fp"
  shows "js_Number (ip @ (if fp \<noteq> [] then CHR ''.'' # fp else []))
    = to_num (of_nat (decimal_nat (ip @ fp)) / 10 ^ length fp)"
proof -
  let ?r = "if fp \<noteq> [] then CHR ''.'' # fp else []"
  obtain c cs where c: "ip = c # cs" using ip by (cases ip) auto
  have dot: "\<not> is_digit (CHR ''.'')" "\<not> is_ws (CHR ''.'')" by (simp_all add: is_digit_def is_ws_def char_code_def)
  have "list_all (\<lambda>x. \<not> is_ws x) ?r" using fp dot digits_no_ws by auto
  then have t: "trim (ip @ ?r) = ip @ ?r" using trim_digits ip unfolding c by blast
  have tw: "takeWhile is_digit (ip @ ?r) = ip" "dropWhile is_digit (ip @ ?r) = ?r"
    using ip(1) dot by (auto simp: list_all_iff takeWhile_append dropWhile_append)
  have cd: "is_digit c" using ip c by simp
  have c_not: "c \<noteq> CHR ''-''" "c \<noteq> CHR ''+''" "c \<noteq> CHR ''I''" "c \<noteq> CHR ''x''"
    using cd by (auto simp: is_digit_def char_code_def)
  have pre: "take 2 (ip @ ?r) \<notin> {[CHR ''0'', x], [CHR ''0'', y]}" if "\<not> is_digit x" "\<not> is_digit y" "x \<noteq> CHR ''.''" "y \<noteq> CHR ''.''" for x y
    using that ip(1) unfolding c by (cases cs) (auto split: if_splits)
  have "take 2 (ip @ ?r) \<notin> {''0x'', ''0X''}" "take 2 (ip @ ?r) \<notin> {''0o'', ''0O''}" "take 2 (ip @ ?r) \<notin> {''0b'', ''0B''}"
    by (rule pre; simp add: is_digit_def char_code_def)+
  moreover have "unsigned_decimal (ip @ ?r) = Some (to_num (of_nat (decimal_nat (ip @ fp)) / 10 ^ length fp))"
  proof -
    have "ip @ ?r \<noteq> ''Infinity''" using c_not(3) by (simp add: c)
    moreover have "takeWhile is_digit fp = fp" "dropWhile is_digit fp = []" using fp by (auto simp: list_all_iff)
    ultimately show ?thesis
      unfolding unsigned_decimal_def Let_def tw using ip(2)
      by (cases fp) (simp_all add: exponent_part_def scale10_def nat_add_distrib)
  qed
  moreover have "ip @ ?r = c # (cs @ ?r)" by (simp add: c)
  ultimately show ?thesis
    unfolding js_Number_def Let_def t using c_not by (simp only: list.case list.distinct if_False simp_thms the_default_nan_def option.case)
qed

lemma js_Number_fromUnits: "js_Number (fromUnits u) = to_num (of_nat u / 10 ^ 8)"
proof -
  obtain f k where f: "fromUnits u = show_nat (u div 10 ^ 8) @ (if f \<noteq> [] then CHR ''.'' # f else [])"
    "list_all is_digit f" "length f \<le> 8" "k = 8 - length f" "decimal_nat (f @ replicate k (CHR ''0'')) = u mod 10 ^ 8"
    by (rule fromUnits_parts)
  have k: "8 = length f + k" using f by simp
  have "decimal_nat (show_nat (u div 10 ^ 8) @ f) * 10 ^ k = u div 10 ^ 8 * 10 ^ 8 + decimal_nat f * 10 ^ k"
    unfolding decimal_nat_append k power_add by (simp add: algebra_simps)
  also have "\<dots> = u" using f(5) by (simp add: decimal_nat_append)
  finally have "of_nat u = (of_nat (decimal_nat (show_nat (u div 10 ^ 8) @ f)) * 10 ^ k :: rat)"
    by (metis of_nat_mult of_nat_numeral of_nat_power)
  then have "of_nat u / 10 ^ 8 = (of_nat (decimal_nat (show_nat (u div 10 ^ 8) @ f)) / 10 ^ length f :: rat)"
    unfolding k power_add by simp
  then show ?thesis
    unfolding f(1) using js_Number_decimal [OF show_nat_digits show_nat_not_Nil f(2)] by simp
qed

lemma Number_fromUnits:
  assumes "u < 2 ^ 26 * 10 ^ 8"
  shows "Number (JStr (fromUnits u)) = Fin (dbl (of_nat u / 10 ^ 8))"
    "amountUnits (JNum (Number (JStr (fromUnits u)))) = Some u"
proof -
  have "(of_nat u :: rat) < of_nat (2 ^ 26 * 10 ^ 8)" using assms by (simp only: of_nat_less_iff)
  then have x: "of_nat u / 10 ^ 8 < (2 ^ 26 :: rat)" by (simp add: divide_less_eq)
  let ?d = "dbl (of_nat u / 10 ^ 8)"
  have near: "\<bar>?d - of_nat u / 10 ^ 8\<bar> \<le> 1 / 2 ^ 28" by (rule dbl_near [OF _ x]) simp
  have pos: "0 \<le> ?d" by (rule dbl_nonneg) simp
  have "?d \<le> of_nat u / 10 ^ 8 + 1 / 2 ^ 28" using near unfolding abs_le_iff by linarith
  also have "\<dots> \<le> 2 ^ 26 + 1" using x by (intro add_mono) simp_all
  finally have "?d < 2 ^ 27" by (rule le_less_trans) simp
  then have small: "?d < 10 ^ 21" "\<bar>?d\<bar> < double_limit" using pos by (simp_all add: double_limit_def)
  have ux: "\<bar>of_nat u / 10 ^ 8 :: rat\<bar> < double_limit" using x by (simp add: double_limit_def)
  show A: "Number (JStr (fromUnits u)) = Fin ?d"
    using ux small by (simp add: Number_def js_Number_fromUnits to_num_small)
  show "amountUnits (JNum (Number (JStr (fromUnits u)))) = Some u"
    unfolding A using small pos fixed8_dbl [OF assms] by simp
qed

end
