(* ===== verification/StakeReads.thy ===== *)
theory StakeReads
  imports StakeAmounts
begin

text \<open>
  What a stake run reads from the explorer: the paged reads of the validator set
  (\<open>validator_set_read.js\<close>), of sleeps (\<open>address_sleep.js\<close>), of delegations (\<open>free_key.js\<close>)
  and of one balance row (\<open>token_balance_read.js\<close>), and the judgements made on them. The
  explorer is a function from page numbers to responses, a call that throws is \<open>Inl\<close> its
  message. A contract of a complete paged read is a locale, interpreted on both loops.
\<close>

section \<open>Responses\<close>

datatype read_error =
    Threw string
  | TooManyRows
  | NoRowList nat
  | Shrank nat nat
  | Truncated nat nat
  | NoTip
  | NoResumeBlock
  | NoMintAmount

type_synonym fetch = "nat \<Rightarrow> string + json"

definition page_rows :: "json \<Rightarrow> json list option" where
  "page_rows v = (case field v ''data'' of Some (JArr rows) \<Rightarrow> Some rows | _ \<Rightarrow> None)"

text \<open>A total the plain loops accept, and the stricter one of the set and balance reads.\<close>

definition whole_count :: "json \<Rightarrow> nat option" where
  "whole_count t = (case integer_value (Number t) of
     Some i \<Rightarrow> if 0 \<le> i then Some (nat i) else None | None \<Rightarrow> None)"

definition plain_total :: "json \<Rightarrow> nat option" where
  "plain_total v = (case field v ''total'' of
     None \<Rightarrow> None | Some t \<Rightarrow> if t = JNull then None else whole_count t)"

definition readTotal :: "json \<Rightarrow> nat option" where
  "readTotal v = (case field v ''total'' of
     None \<Rightarrow> None | Some t \<Rightarrow> if t = JNull \<or> t = JStr [] then None else whole_count t)"

section \<open>The loops\<close>

definition PAGE_LIMIT :: nat where "PAGE_LIMIT = 100"
definition MAX_PAGES :: nat where "MAX_PAGES = 1001"

text \<open>The loop of \<open>readSleepRows\<close> and \<open>readDelegationsByPubkey\<close>.\<close>

function sweep_rows :: "fetch \<Rightarrow> nat \<Rightarrow> json list \<Rightarrow> read_error + json list" where
  "sweep_rows get page rows =
     (if MAX_PAGES < page then Inl TooManyRows
      else case get page of
        Inl e \<Rightarrow> Inl (Threw e)
      | Inr v \<Rightarrow>
         (case page_rows v of
            None \<Rightarrow> Inl (NoRowList page)
          | Some data \<Rightarrow>
              let rows' = rows @ data in
              if (case plain_total v of Some t \<Rightarrow> t \<le> length rows' | None \<Rightarrow> length data < PAGE_LIMIT) then Inr rows'
              else if data = [] then Inl (Truncated (length rows') (the (plain_total v)))
              else sweep_rows get (Suc page) rows'))"
  by pat_completeness auto
termination
  by (relation "measure (\<lambda>(_, page, _). Suc MAX_PAGES - page)") (auto simp: MAX_PAGES_def)

declare sweep_rows.simps [simp del]

definition readSleepRows :: "fetch \<Rightarrow> read_error + json list" where
  "readSleepRows getSleeps = sweep_rows getSleeps 1 []"

text \<open>\<open>readValidatorSet\<close>: the last reported total is kept, and a shrinking one is refused.\<close>

function sweep_set :: "fetch \<Rightarrow> nat \<Rightarrow> nat option \<Rightarrow> json list \<Rightarrow> read_error + json list" where
  "sweep_set get page known rows =
     (if MAX_PAGES < page then Inl TooManyRows
      else case get page of
        Inl e \<Rightarrow> Inl (Threw e)
      | Inr v \<Rightarrow>
         (case page_rows v of
            None \<Rightarrow> Inl (NoRowList page)
          | Some data \<Rightarrow>
              let pageTotal = readTotal v in
              if (case (pageTotal, known) of (Some t, Some k) \<Rightarrow> t < k | _ \<Rightarrow> False) then Inl (Shrank (the known) (the pageTotal))
              else let total = (if pageTotal \<noteq> None then pageTotal else known); rows' = rows @ data in
                if (case total of Some t \<Rightarrow> t \<le> length rows' | None \<Rightarrow> length data < PAGE_LIMIT) then Inr rows'
                else if data = [] then Inl (Truncated (length rows') (the total))
                else sweep_set get (Suc page) total rows'))"
  by pat_completeness auto
termination
  by (relation "measure (\<lambda>(_, page, _, _). Suc MAX_PAGES - page)") (auto simp: MAX_PAGES_def)

declare sweep_set.simps [simp del]

definition readValidatorSet :: "fetch \<Rightarrow> read_error + json list" where
  "readValidatorSet getValidators = sweep_set getValidators 1 None []"

text \<open>\<open>readTokenRow\<close> stops at the first row of the tick; \<open>Inr None\<close> is the complete list without it.\<close>

definition BALANCE_PAGE_LIMIT :: nat where "BALANCE_PAGE_LIMIT = 500"
definition BALANCE_MAX_PAGES :: nat where "BALANCE_MAX_PAGES = 201"

function sweep_balance :: "fetch \<Rightarrow> string \<Rightarrow> nat \<Rightarrow> nat option \<Rightarrow> nat \<Rightarrow> read_error + json option" where
  "sweep_balance get tick page known seen =
     (if BALANCE_MAX_PAGES < page then Inl TooManyRows
      else case get page of
        Inl e \<Rightarrow> Inl (Threw e)
      | Inr v \<Rightarrow>
         (case page_rows v of
            None \<Rightarrow> Inl (NoRowList page)
          | Some data \<Rightarrow>
              (case List.find (\<lambda>b. field b ''tick'' = Some (JStr tick)) data of
                 Some row \<Rightarrow> Inr (Some row)
               | None \<Rightarrow>
                   let pageTotal = readTotal v in
                   if (case (pageTotal, known) of (Some t, Some k) \<Rightarrow> t < k | _ \<Rightarrow> False) then Inl (Shrank (the known) (the pageTotal))
                   else let total = (if pageTotal \<noteq> None then pageTotal else known); seen' = seen + length data in
                     if (case total of Some t \<Rightarrow> t \<le> seen' | None \<Rightarrow> length data < BALANCE_PAGE_LIMIT) then Inr None
                     else if data = [] then Inl (Truncated seen' (the total))
                     else sweep_balance get tick (Suc page) total seen')))"
  by pat_completeness auto
termination
  by (relation "measure (\<lambda>(_, _, page, _, _). Suc BALANCE_MAX_PAGES - page)") (auto simp: BALANCE_MAX_PAGES_def)

declare sweep_balance.simps [simp del]

definition readTokenRow :: "fetch \<Rightarrow> string \<Rightarrow> read_error + json option" where
  "readTokenRow getBalances tick = sweep_balance getBalances tick 1 None 0"

section \<open>The contract of a paged read\<close>

text \<open>
  A table the explorer serves page by page with its size as the total. A read of it that
  succeeds returns the table, whatever its size, and it succeeds up to the page ceiling.
\<close>

definition page_of :: "nat \<Rightarrow> json list \<Rightarrow> nat \<Rightarrow> json list" where
  "page_of limit table p = take limit (drop ((p - 1) * limit) table)"

definition served :: "nat \<Rightarrow> json list \<Rightarrow> fetch \<Rightarrow> bool" where
  "served limit table get = (\<forall>p. \<exists>v. get p = Inr v
     \<and> page_rows v = Some (page_of limit table p) \<and> readTotal v = Some (length table))"

text \<open>An explorer that serves a table so.\<close>

definition serve :: "nat \<Rightarrow> json list \<Rightarrow> fetch" where
  "serve limit table p = Inr (JObj [(''total'', JNum (Fin (of_nat (length table)))), (''data'', JArr (page_of limit table p))])"

lemma serve_served: "length table < 2 ^ 53 \<Longrightarrow> served limit table (serve limit table)"
proof -
  assume n: "length table < 2 ^ 53"
  then have "(of_nat (length table) :: rat) < of_nat (2 ^ 53)" by (simp only: of_nat_less_iff)
  also have "\<dots> < double_limit" by (simp add: double_limit_def)
  finally have "to_num (of_nat (length table)) = Fin (of_nat (length table))" by (intro to_num_small) simp
  then show ?thesis
    using dbl_nat [OF n]
    by (simp add: served_def serve_def page_rows_def readTotal_def whole_count_def Number_def integer_value_def field_def)
qed

locale paged_read =
  fixes read :: "fetch \<Rightarrow> read_error + json list"
    and limit :: nat and max_pages :: nat
  assumes reads: "served limit table get
    \<Longrightarrow> read get = (if length table \<le> max_pages * limit then Inr table else Inl TooManyRows)"
begin

lemma sound: "served limit table get \<Longrightarrow> read get = Inr rows \<Longrightarrow> rows = table"
  by (simp add: reads split: if_splits)

lemma exact: "served limit table get \<Longrightarrow> length table \<le> max_pages * limit \<Longrightarrow> read get = Inr table"
  by (simp add: reads)

lemma fails_only_too_long: "served limit table get \<Longrightarrow> read get = Inl e \<Longrightarrow> max_pages * limit < length table"
  by (simp add: reads split: if_splits)

end

lemma served_page:
  assumes "served limit table get"
  obtains v where "get p = Inr v" "page_rows v = Some (page_of limit table p)"
    "readTotal v = Some (length table)" "plain_total v = Some (length table)"
proof -
  obtain v where v: "get p = Inr v" "page_rows v = Some (page_of limit table p)" "readTotal v = Some (length table)"
    using assms unfolding served_def by blast
  moreover from v(3) have "plain_total v = Some (length table)"
    by (auto simp: readTotal_def plain_total_def split: option.splits if_splits)
  ultimately show thesis by (rule that)
qed

text \<open>What one more page adds, and when it is the last.\<close>

lemma page_step:
  "take (page * limit) table @ page_of limit table (Suc page) = take (Suc page * limit) table"
  using take_add [of "page * limit" limit table] by (simp add: page_of_def add.commute)

lemma page_nonempty: "\<not> length table \<le> Suc page * limit \<Longrightarrow> 0 < limit \<Longrightarrow> page_of limit table (Suc page) \<noteq> []"
  by (simp add: page_of_def)

lemma sweep_rows_served:
  assumes "served PAGE_LIMIT table get"
  shows "page \<le> MAX_PAGES \<Longrightarrow> page = 0 \<or> page * PAGE_LIMIT < length table \<Longrightarrow>
    sweep_rows get (Suc page) (take (page * PAGE_LIMIT) table)
      = (if length table \<le> MAX_PAGES * PAGE_LIMIT then Inr table else Inl TooManyRows)"
proof (induction "MAX_PAGES - page" arbitrary: page)
  case 0
  then have "page = MAX_PAGES" by simp
  then show ?case using 0 by (subst sweep_rows.simps) (simp add: MAX_PAGES_def)
next
  case (Suc n)
  obtain v where v: "get (Suc page) = Inr v" "page_rows v = Some (page_of PAGE_LIMIT table (Suc page))"
    "plain_total v = Some (length table)" using served_page [OF assms, of "Suc page"] by metis
  have step: "sweep_rows get (Suc page) (take (page * PAGE_LIMIT) table) =
     (if length table \<le> Suc page * PAGE_LIMIT then Inr table
      else sweep_rows get (Suc (Suc page)) (take (Suc page * PAGE_LIMIT) table))"
    using Suc.hyps(2) page_nonempty [of table page PAGE_LIMIT]
    by (subst sweep_rows.simps) (auto simp: v Let_def page_step PAGE_LIMIT_def simp del: mult_Suc)
  show ?case
  proof (cases "length table \<le> Suc page * PAGE_LIMIT")
    case True
    have "Suc page * PAGE_LIMIT \<le> MAX_PAGES * PAGE_LIMIT" using Suc.hyps(2) by (intro mult_right_mono) auto
    then have "length table \<le> MAX_PAGES * PAGE_LIMIT" using True by (rule le_trans [rotated])
    then show ?thesis using True by (simp add: step)
  next
    case False
    then show ?thesis using Suc.hyps(1) [of "Suc page"] Suc.hyps(2) by (simp add: step)
  qed
qed

lemma sweep_set_served:
  assumes "served PAGE_LIMIT table get"
  shows "page \<le> MAX_PAGES \<Longrightarrow> page = 0 \<or> page * PAGE_LIMIT < length table \<Longrightarrow> known = None \<or> known = Some (length table) \<Longrightarrow>
    sweep_set get (Suc page) known (take (page * PAGE_LIMIT) table)
      = (if length table \<le> MAX_PAGES * PAGE_LIMIT then Inr table else Inl TooManyRows)"
proof (induction "MAX_PAGES - page" arbitrary: page known)
  case 0
  then have "page = MAX_PAGES" by simp
  then show ?case using 0 by (subst sweep_set.simps) (simp add: MAX_PAGES_def)
next
  case (Suc n)
  obtain v where v: "get (Suc page) = Inr v" "page_rows v = Some (page_of PAGE_LIMIT table (Suc page))"
    "readTotal v = Some (length table)" using served_page [OF assms, of "Suc page"] by metis
  have step: "sweep_set get (Suc page) known (take (page * PAGE_LIMIT) table) =
     (if length table \<le> Suc page * PAGE_LIMIT then Inr table
      else sweep_set get (Suc (Suc page)) (Some (length table)) (take (Suc page * PAGE_LIMIT) table))"
    using Suc.hyps(2) Suc.prems(3) page_nonempty [of table page PAGE_LIMIT]
    by (subst sweep_set.simps) (auto simp: v Let_def page_step PAGE_LIMIT_def simp del: mult_Suc)
  show ?case
  proof (cases "length table \<le> Suc page * PAGE_LIMIT")
    case True
    have "Suc page * PAGE_LIMIT \<le> MAX_PAGES * PAGE_LIMIT" using Suc.hyps(2) by (intro mult_right_mono) auto
    then have "length table \<le> MAX_PAGES * PAGE_LIMIT" using True by (rule le_trans [rotated])
    then show ?thesis using True by (simp add: step)
  next
    case False
    then show ?thesis using Suc.hyps(1) [of "Suc page"] Suc.hyps(2) by (simp add: step)
  qed
qed

interpretation row_pages: paged_read readSleepRows PAGE_LIMIT MAX_PAGES
  by unfold_locales (use sweep_rows_served [of _ _ 0] in \<open>simp add: readSleepRows_def\<close>)

interpretation set_pages: paged_read readValidatorSet PAGE_LIMIT MAX_PAGES
  by unfold_locales (use sweep_set_served [of _ _ 0 None] in \<open>simp add: readValidatorSet_def\<close>)

text \<open>
  An empty-text total counts as zero in the plain loop, so it ends after one page; the set
  and balance reads treat it as no total at all.
\<close>

lemma empty_total_ends_sweep:
  "readSleepRows (\<lambda>p. Inr (JObj [(''total'', JStr []), (''data'', JArr (replicate 100 (JObj [])))]))
     = Inr (replicate 100 (JObj []))"
  unfolding readSleepRows_def
  by (subst sweep_rows.simps)
    (simp add: MAX_PAGES_def page_rows_def plain_total_def whole_count_def Number_def js_Number_def trim_def
      integer_value_def dbl_def to_num_def double_limit_def field_def)

end
