(* ===== verification/StakeKey.thy ===== *)
theory StakeKey
  imports StakeReads
begin

text \<open>
  Whether a signing key is free for a STAKE (\<open>validator_stake_service/free_key.js\<close>) and
  whether the stake address is asleep (\<open>address_sleep.js\<close>). The judgement is related to a
  specification over the explorer's whole tables, through the contract of the paged reads.
\<close>

section \<open>The tip and the reuse gate\<close>

text \<open>\<open>status && status.last_block && status.last_block[coin]\<close>.\<close>

definition last_block_of :: "json \<Rightarrow> string \<Rightarrow> json option" where
  "last_block_of status coin =
     (if \<not> truthy status then Some status
      else case field status ''last_block'' of
        None \<Rightarrow> None
      | Some lb \<Rightarrow> if \<not> truthy lb then Some lb else field lb coin)"

definition readTip :: "string + json \<Rightarrow> string \<Rightarrow> read_error + int" where
  "readTip response coin = (case response of
     Inl e \<Rightarrow> Inl (Threw e)
   | Inr status \<Rightarrow>
       (case integer_value (Number_opt (last_block_of status coin)) of
          Some t \<Rightarrow> if t < 0 then Inl NoTip else Inr t
        | None \<Rightarrow> Inl NoTip))"

definition STAKE_KEY_REUSE_ACTIVATION :: "(string \<times> int option) list" where
  "STAKE_KEY_REUSE_ACTIVATION =
     [(''BTC:mainnet'', None), (''LTC:mainnet'', None), (''DOGE:mainnet'', None), (''mainnet'', None),
      (''BTC:testnet'', Some 156000), (''LTC:testnet'', Some 4897000), (''DOGE:testnet'', Some 67920000),
      (''testnet'', None), (''regtest'', Some 0)]"

definition COIN_BY_FULL_NAME :: "(string \<times> string) list" where
  "COIN_BY_FULL_NAME = [(''bitcoin'', ''BTC''), (''litecoin'', ''LTC''), (''dogecoin'', ''DOGE'')]"

definition stakeKeyReuseHeight :: "string \<Rightarrow> string option \<Rightarrow> int option" where
  "stakeKeyReuseHeight network coin =
     (let own = (\<lambda>k. map_of STAKE_KEY_REUSE_ACTIVATION k \<noteq> None);
          key = (case coin of
             Some c \<Rightarrow> if c \<noteq> [] \<and> own (c @ CHR '':'' # network) then c @ CHR '':'' # network else network
           | None \<Rightarrow> network)
      in (case map_of STAKE_KEY_REUSE_ACTIVATION key of Some h \<Rightarrow> h | None \<Rightarrow> None))"

text \<open>The entry of \<open>COIN_NETWORKS\<close> a run works with: the SDK network and the explorer's coin.\<close>

record coin_network =
  cn_stake :: string
  cn_doge :: string
  cn_stakeCoin :: string
  cn_dogeCoin :: string

definition COIN_NETWORKS :: "(string \<times> coin_network) list" where
  "COIN_NETWORKS =
     [(''mainnet'', \<lparr>cn_stake = ''bitcoin-mainnet'', cn_doge = ''dogecoin-mainnet'', cn_stakeCoin = ''BTC'', cn_dogeCoin = ''DOGE''\<rparr>),
      (''testnet'', \<lparr>cn_stake = ''bitcoin-testnet'', cn_doge = ''dogecoin-testnet'', cn_stakeCoin = ''TBTC'', cn_dogeCoin = ''TDOGE''\<rparr>),
      (''regtest'', \<lparr>cn_stake = ''bitcoin-regtest'', cn_doge = ''dogecoin-regtest'', cn_stakeCoin = ''RBTC'', cn_dogeCoin = ''RDOGE''\<rparr>)]"

definition full_name :: "coin_network \<Rightarrow> string" where
  "full_name coins = hd (split_on (CHR ''-'') (cn_stake coins))"

definition stakeCoin :: "coin_network \<Rightarrow> string option" where
  "stakeCoin coins = map_of COIN_BY_FULL_NAME (full_name coins)"

section \<open>Rows\<close>

definition row_valid :: "json \<Rightarrow> bool" where
  "row_valid r = (field r ''status'' = Some (JStr ''valid''))"

definition isUndeactivated :: "json \<Rightarrow> bool" where
  "isUndeactivated row = (case field row ''deactivation_block'' of
     None \<Rightarrow> True | Some v \<Rightarrow> v = JNull \<or> v = JStr [])"

definition deactivationBlock :: "json \<Rightarrow> int option" where
  "deactivationBlock row = (if isUndeactivated row then None
     else integer_value (Number_opt (field row ''deactivation_block'')))"

definition row_key :: "json \<Rightarrow> string" where
  "row_key r = to_lower (if truthy_opt (field r ''signing_pubkey'') then opt_String (field r ''signing_pubkey'') else [])"

definition keyed :: "string \<Rightarrow> json list \<Rightarrow> json list" where
  "keyed pubkey rows = filter (\<lambda>r. row_valid r \<and> row_key r = pubkey) rows"

text \<open>An unknown landing block counts as zero in the sum's comparison, an unknown cooldown never admits.\<close>

definition stakeRowsHoldingKey :: "json list \<Rightarrow> bool \<Rightarrow> int option \<Rightarrow> int option \<Rightarrow> json list" where
  "stakeRowsHoldingKey rows reuseActive landBlock cooldownBlocks =
     (if \<not> reuseActive then rows
      else filter (\<lambda>r. case deactivationBlock r of
          None \<Rightarrow> True
        | Some d \<Rightarrow> \<not> (case cooldownBlocks of
            None \<Rightarrow> False | Some c \<Rightarrow> d + c \<le> (case landBlock of None \<Rightarrow> 0 | Some l \<Rightarrow> l))) rows)"

definition delegationRowsHoldingKey :: "json list \<Rightarrow> int option \<Rightarrow> json list" where
  "delegationRowsHoldingKey rows landBlock = filter (\<lambda>r.
     row_valid r \<and> (isUndeactivated r \<or> (case deactivationBlock r of
        None \<Rightarrow> True | Some d \<Rightarrow> (case landBlock of None \<Rightarrow> True | Some l \<Rightarrow> l < d)))) rows"

definition readDelegationsByPubkey :: "fetch \<Rightarrow> string \<Rightarrow> read_error + json list" where
  "readDelegationsByPubkey getDelegations pubkey = (case sweep_rows getDelegations 1 [] of
     Inl e \<Rightarrow> Inl e | Inr rows \<Rightarrow> Inr (filter (\<lambda>r. truthy r \<and> row_key r = pubkey) rows))"

definition row_num :: "string \<Rightarrow> json \<Rightarrow> jsnum" where
  "row_num k r = Number_opt (field r k)"

definition newest :: "json list \<Rightarrow> json" where
  "newest rs = foldl (\<lambda>a b. if js_gt (row_num ''action_index'' b) (row_num ''action_index'' a) then b else a) (hd rs) (tl rs)"

section \<open>The judgement of a key\<close>

record judgement =
  j_reuseHeight :: "int option"
  j_reuseActive :: bool
  j_tipBlock :: "int option"
  j_tipError :: "read_error option"
  j_holding :: "json list"
  j_liveCount :: nat
  j_liveAmount :: "string option"
  j_freeFromBlock :: "int option"

definition judgeStakeRows :: "json list \<Rightarrow> string \<Rightarrow> coin_network \<Rightarrow> int option \<Rightarrow> read_error + int \<Rightarrow> judgement" where
  "judgeStakeRows rows network coins cooldownBlocks tip =
     (let reuseHeight = stakeKeyReuseHeight network (stakeCoin coins);
          asked = reuseHeight \<noteq> None \<and> list_all (\<lambda>r. \<not> isUndeactivated r) rows;
          tipBlock = (if asked then (case tip of Inr t \<Rightarrow> Some t | Inl _ \<Rightarrow> None) else None);
          reuseActive = (case (tipBlock, reuseHeight) of (Some t, Some h) \<Rightarrow> h \<le> t + 1 | _ \<Rightarrow> False);
          landBlock = map_option (\<lambda>t. t + 1) tipBlock;
          holding = stakeRowsHoldingKey rows reuseActive landBlock cooldownBlocks;
          live = filter isUndeactivated rows;
          ends = List.map_filter deactivationBlock holding
      in \<lparr>j_reuseHeight = reuseHeight, j_reuseActive = reuseActive, j_tipBlock = tipBlock,
          j_tipError = (if asked then (case tip of Inl e \<Rightarrow> Some e | Inr _ \<Rightarrow> None) else None),
          j_holding = holding, j_liveCount = length live,
          j_liveAmount = (if live \<noteq> [] then sumAmounts live else None),
          j_freeFromBlock = (if reuseActive \<and> length ends = length holding \<and> ends \<noteq> []
             then map_option (\<lambda>c. foldl max (hd ends) (tl ends) + c) cooldownBlocks else None)\<rparr>)"

record key_holders =
  kh_existing :: "json option"
  kh_judgement :: "judgement option"
  kh_existingUnknown :: "read_error option"
  kh_delegated :: "json list option"
  kh_delegationUnknown :: "read_error option"

definition no_holders :: key_holders where
  "no_holders = \<lparr>kh_existing = None, kh_judgement = None, kh_existingUnknown = None,
     kh_delegated = None, kh_delegationUnknown = None\<rparr>"

definition stake_part :: "read_error + json list \<Rightarrow> string \<Rightarrow> string \<Rightarrow> coin_network \<Rightarrow> int option \<Rightarrow> read_error + int \<Rightarrow> key_holders" where
  "stake_part set_read pubkey network coins cooldownBlocks tip = (case set_read of
     Inl e \<Rightarrow> no_holders\<lparr>kh_existingUnknown := Some e\<rparr>
   | Inr v \<Rightarrow>
       let rows = keyed pubkey v in
       if rows = [] then no_holders
       else let judged = judgeStakeRows rows network coins cooldownBlocks tip in
         if j_holding judged = [] then no_holders
         else no_holders\<lparr>kh_existing := Some (newest (j_holding judged)), kh_judgement := Some judged\<rparr>)"

definition readKeyHolders ::
  "fetch \<Rightarrow> fetch \<Rightarrow> read_error + int \<Rightarrow> string \<Rightarrow> string \<Rightarrow> coin_network \<Rightarrow> int option \<Rightarrow> key_holders" where
  "readKeyHolders getValidators getDelegations tip pubkey network coins cooldownBlocks =
     (let out = stake_part (readValidatorSet getValidators) pubkey network coins cooldownBlocks tip in
      if kh_existing out \<noteq> None then out
      else (case readDelegationsByPubkey getDelegations pubkey of
          Inl e \<Rightarrow> out\<lparr>kh_delegationUnknown := Some e\<rparr>
        | Inr rows \<Rightarrow>
            let landBlock = (if list_ex (\<lambda>r. row_valid r \<and> \<not> isUndeactivated r) rows
                  then (case tip of Inr t \<Rightarrow> Some (t + 1) | Inl _ \<Rightarrow> None) else None);
                holding = delegationRowsHoldingKey rows landBlock
            in if holding \<noteq> [] then out\<lparr>kh_delegated := Some holding\<rparr> else out))"

section \<open>What a free key means\<close>

text \<open>
  Over the whole tables: every valid stake row of the key is deactivated and past its
  cooldown at the landing block, with the reuse gate armed by then, and every valid
  delegation of it has been deactivated by then.
\<close>

definition key_free :: "json list \<Rightarrow> json list \<Rightarrow> string \<Rightarrow> int option \<Rightarrow> int option \<Rightarrow> int \<Rightarrow> bool" where
  "key_free stakes delegations pubkey reuse cooldown land =
     (list_all (\<lambda>r. (\<exists>h d c. reuse = Some h \<and> h \<le> land \<and> deactivationBlock r = Some d
          \<and> cooldown = Some c \<and> d + c \<le> land)) (keyed pubkey stakes)
      \<and> list_all (\<lambda>r. \<exists>d. deactivationBlock r = Some d \<and> d \<le> land) (keyed pubkey delegations))"

definition says_free :: "key_holders \<Rightarrow> bool" where
  "says_free k = (kh_existing k = None \<and> kh_existingUnknown k = None
     \<and> kh_delegated k = None \<and> kh_delegationUnknown k = None)"

lemma deactivationBlock_live: "deactivationBlock r = Some d \<Longrightarrow> \<not> isUndeactivated r"
  by (auto simp: deactivationBlock_def split: if_splits)

lemma row_valid_truthy: "row_valid r \<Longrightarrow> truthy r"
  by (cases r) (auto simp: row_valid_def field_def JsPrelude.fields_def)

lemma released_iff:
  "(case d of None \<Rightarrow> True | Some e \<Rightarrow> \<not> (case cooldown of None \<Rightarrow> False | Some c \<Rightarrow> e + c \<le> l))
     \<longleftrightarrow> \<not> (\<exists>e c. d = Some e \<and> cooldown = Some c \<and> e + c \<le> (l::int))"
  by (auto split: option.splits)

lemma holding_released:
  "stakeRowsHoldingKey rows True (Some l) cooldown = []
     \<longleftrightarrow> list_all (\<lambda>r. \<exists>d c. deactivationBlock r = Some d \<and> cooldown = Some c \<and> d + c \<le> l) rows"
  by (simp add: stakeRowsHoldingKey_def released_iff list_all_iff filter_empty_conv)

lemma judged_free:
  assumes "rows \<noteq> []"
  shows "j_holding (judgeStakeRows rows network coins cooldown (Inr t)) = []
    \<longleftrightarrow> list_all (\<lambda>r. (\<exists>h d c. stakeKeyReuseHeight network (stakeCoin coins) = Some h \<and> h \<le> t + 1
          \<and> deactivationBlock r = Some d \<and> cooldown = Some c \<and> d + c \<le> t + 1)) rows"
proof -
  consider "stakeKeyReuseHeight network (stakeCoin coins) = None"
    | r where "r \<in> set rows" "isUndeactivated r"
    | h where "stakeKeyReuseHeight network (stakeCoin coins) = Some h" "list_all (\<lambda>r. \<not> isUndeactivated r) rows"
    by (cases "stakeKeyReuseHeight network (stakeCoin coins)") (auto simp: list_all_iff)
  then show ?thesis
  proof cases
    case 1
    then show ?thesis using assms by (cases rows) (simp_all add: judgeStakeRows_def stakeRowsHoldingKey_def Let_def)
  next
    case 2
    then have "\<not> list_all (\<lambda>r. \<not> isUndeactivated r) rows" by (auto simp: list_all_iff)
    then have "j_holding (judgeStakeRows rows network coins cooldown (Inr t)) = rows"
      by (simp add: judgeStakeRows_def stakeRowsHoldingKey_def Let_def)
    then show ?thesis using assms 2 by (auto simp: list_all_iff dest: deactivationBlock_live)
  next
    case 3
    then have "j_holding (judgeStakeRows rows network coins cooldown (Inr t))
        = stakeRowsHoldingKey rows (h \<le> t + 1) (Some (t + 1)) cooldown"
      by (simp add: judgeStakeRows_def Let_def)
    then show ?thesis
      using assms 3 holding_released [of rows "t + 1" cooldown]
      by (cases "h \<le> t + 1") (simp, cases rows, simp_all add: stakeRowsHoldingKey_def)
  qed
qed

lemma stake_part_free:
  "kh_existing (stake_part (Inr stakes) pubkey network coins cooldown (Inr t)) = None
    \<longleftrightarrow> list_all (\<lambda>r. (\<exists>h d c. stakeKeyReuseHeight network (stakeCoin coins) = Some h \<and> h \<le> t + 1
          \<and> deactivationBlock r = Some d \<and> cooldown = Some c \<and> d + c \<le> t + 1)) (keyed pubkey stakes)"
  using judged_free [of "keyed pubkey stakes" network coins cooldown t]
  by (cases "keyed pubkey stakes = []") (simp_all add: stake_part_def no_holders_def Let_def)

lemma stake_part_known: "kh_existingUnknown (stake_part (Inr stakes) pubkey network coins cooldown tip) = None"
  by (simp add: stake_part_def no_holders_def Let_def)

lemma stake_part_no_delegated:
  "kh_delegated (stake_part set_read pubkey network coins cooldown tip) = None"
  "kh_delegationUnknown (stake_part set_read pubkey network coins cooldown tip) = None"
  by (simp_all add: stake_part_def no_holders_def Let_def split: sum.splits)

text \<open>Among the rows read for the key, the valid ones hold it unless deactivated by the landing block.\<close>

lemma delegations_free:
  assumes "rows = filter (\<lambda>r. truthy r \<and> row_key r = pubkey) delegations"
    and "landBlock = (if list_ex (\<lambda>r. row_valid r \<and> \<not> isUndeactivated r) rows then Some l else None)"
  shows "delegationRowsHoldingKey rows landBlock = []
    \<longleftrightarrow> list_all (\<lambda>r. \<exists>d. deactivationBlock r = Some d \<and> d \<le> l) (keyed pubkey delegations)"
  unfolding assms delegationRowsHoldingKey_def keyed_def
  by (fastforce simp: list_all_iff list_ex_iff filter_empty_conv not_less dest: deactivationBlock_live row_valid_truthy
      split: option.splits if_splits)

text \<open>
  C13. When the explorer serves the validator set and the delegations page by page and tells
  the tip, the run finds a signing key free exactly when it is free over the whole tables at
  the next block, however many pages they take.
\<close>

theorem key_reads_refine_tables:
  assumes stakes: "served PAGE_LIMIT stakes getValidators" "length stakes \<le> MAX_PAGES * PAGE_LIMIT"
    and delegations: "served PAGE_LIMIT delegations getDelegations" "length delegations \<le> MAX_PAGES * PAGE_LIMIT"
    and tip: "readTip status coin = Inr t"
  shows "says_free (readKeyHolders getValidators getDelegations (readTip status coin) pubkey network coins cooldown)
    \<longleftrightarrow> key_free stakes delegations pubkey (stakeKeyReuseHeight network (stakeCoin coins)) cooldown (t + 1)"
proof -
  let ?out = "stake_part (Inr stakes) pubkey network coins cooldown (Inr t)"
  have rd: "readValidatorSet getValidators = Inr stakes" by (rule set_pages.exact [OF stakes])
  have dl: "readDelegationsByPubkey getDelegations pubkey = Inr (filter (\<lambda>r. truthy r \<and> row_key r = pubkey) delegations)"
    using row_pages.exact [OF delegations] by (simp add: readDelegationsByPubkey_def readSleepRows_def)
  note free = stake_part_free [of stakes pubkey network coins cooldown t]
  show ?thesis
  proof (cases "kh_existing ?out = None")
    case False
    then show ?thesis
      using free by (simp add: readKeyHolders_def rd tip says_free_def key_free_def)
  next
    case True
    note parts = stake_part_known [of stakes pubkey network coins cooldown "Inr t"]
      stake_part_no_delegated [of "Inr stakes" pubkey network coins cooldown "Inr t"]
    note del = delegations_free [OF refl refl, of pubkey delegations "t + 1"]
    define rows where "rows = filter (\<lambda>r. truthy r \<and> row_key r = pubkey) delegations"
    define holding where "holding = delegationRowsHoldingKey rows
      (if list_ex (\<lambda>r. row_valid r \<and> \<not> isUndeactivated r) rows then Some (t + 1) else None)"
    have "readKeyHolders getValidators getDelegations (Inr t) pubkey network coins cooldown
        = (if holding \<noteq> [] then ?out\<lparr>kh_delegated := Some holding\<rparr> else ?out)"
      unfolding readKeyHolders_def rd dl holding_def rows_def Let_def sum.case using True by simp
    then show ?thesis
      using True free del parts unfolding tip by (simp add: says_free_def key_free_def holding_def rows_def)
  qed
qed

definition demo_withdrawn :: json where
  "demo_withdrawn = JObj [(''status'', JStr ''valid''), (''signing_pubkey'', JStr ''ab''),
     (''deactivation_block'', JNum (Fin 150000)), (''action_index'', JNum (Fin 7))]"

definition demo_status :: "string + json" where
  "demo_status = Inr (JObj [(''last_block'', JObj [(''TBTC'', JNum (Fin 156000))])])"

definition demo_coins :: coin_network where
  "demo_coins = the (map_of COIN_NETWORKS ''testnet'')"

lemma demo_numbers: "dbl 150000 = 150000" "dbl 156000 = 156000"
  using dbl_nat [of 150000] dbl_nat [of 156000] by simp_all

lemma demo_tip: "readTip demo_status ''TBTC'' = Inr 156000"
  by (simp add: readTip_def demo_status_def last_block_of_def field_def Number_opt_def Number_def demo_numbers to_num_def
      double_limit_def integer_value_def)

theorem key_reads_refine_tables_witness:
  "says_free (readKeyHolders (serve PAGE_LIMIT [demo_withdrawn]) (serve PAGE_LIMIT []) (readTip demo_status ''TBTC'')
     ''ab'' ''testnet'' demo_coins (Some 1000))"
proof -
  have d: "deactivationBlock demo_withdrawn = Some 150000"
    by (simp add: deactivationBlock_def isUndeactivated_def demo_withdrawn_def field_def Number_opt_def Number_def demo_numbers
        to_num_def double_limit_def integer_value_def)
  have h: "stakeKeyReuseHeight ''testnet'' (stakeCoin demo_coins) = Some 156000"
    by (simp add: stakeKeyReuseHeight_def stakeCoin_def full_name_def demo_coins_def COIN_NETWORKS_def COIN_BY_FULL_NAME_def
        STAKE_KEY_REUSE_ACTIVATION_def)
  have "key_free [demo_withdrawn] [] ''ab'' (stakeKeyReuseHeight ''testnet'' (stakeCoin demo_coins)) (Some 1000) (156000 + 1)"
    unfolding key_free_def h by (simp add: keyed_def d)
  then show ?thesis
    by (subst key_reads_refine_tables [OF serve_served _ serve_served _ demo_tip])
      (simp_all add: PAGE_LIMIT_def MAX_PAGES_def)
qed

section \<open>Sleep\<close>

definition ADDRESS_SLEEP_TYPE :: rat where "ADDRESS_SLEEP_TYPE = 1"

record sleep_state =
  sl_sleeping :: bool
  sl_resumeBlock :: "int option"
  sl_actionIndex :: "jsnum option"

definition own_sleeps :: "json list \<Rightarrow> string \<Rightarrow> json list" where
  "own_sleeps rows address = filter (\<lambda>r. truthy r \<and> opt_String (field r ''source'') = address
     \<and> row_num ''type'' r = Fin ADDRESS_SLEEP_TYPE \<and> row_valid r) rows"

definition judgeAddressSleep :: "json list \<Rightarrow> string \<Rightarrow> int \<Rightarrow> read_error + sleep_state" where
  "judgeAddressSleep rows address landBlock =
     (let own = own_sleeps rows address in
      if own = [] then Inr \<lparr>sl_sleeping = False, sl_resumeBlock = None, sl_actionIndex = None\<rparr>
      else (case integer_value (row_num ''resume_block'' (newest own)) of
          None \<Rightarrow> Inl NoResumeBlock
        | Some b \<Rightarrow> Inr \<lparr>sl_sleeping = (b = -1 \<or> landBlock < b), sl_resumeBlock = Some b,
            sl_actionIndex = Some (row_num ''action_index'' (newest own))\<rparr>))"

definition readAddressSleep :: "fetch \<Rightarrow> string \<Rightarrow> int \<Rightarrow> read_error + sleep_state" where
  "readAddressSleep getSleeps address landBlock = (case readSleepRows getSleeps of
     Inl e \<Rightarrow> Inl e | Inr rows \<Rightarrow> judgeAddressSleep rows address landBlock)"

text \<open>The sleep as plan state: the state, or the message of the failed read.\<close>

definition readSleepState :: "read_error + int \<Rightarrow> fetch \<Rightarrow> string \<Rightarrow> read_error + sleep_state" where
  "readSleepState tip getSleeps address = (case tip of
     Inl e \<Rightarrow> Inl e | Inr t \<Rightarrow> readAddressSleep getSleeps address (t + 1))"

datatype sleep_refusal =
    AsleepForever "jsnum option"
  | AsleepUntil "int option" "jsnum option"
  | SleepUnknown read_error

definition sleepRefusal :: "sleep_state \<Rightarrow> sleep_refusal option" where
  "sleepRefusal sleep = (if \<not> sl_sleeping sleep then None
     else if sl_resumeBlock sleep = Some (-1) then Some (AsleepForever (sl_actionIndex sleep))
     else Some (AsleepUntil (sl_resumeBlock sleep) (sl_actionIndex sleep)))"

text \<open>\<open>stakeSleepBlocker\<close>.\<close>

definition stakeSleepBlocker :: "read_error + sleep_state \<Rightarrow> sleep_refusal option" where
  "stakeSleepBlocker state = (case state of Inl e \<Rightarrow> Some (SleepUnknown e) | Inr sleep \<Rightarrow> sleepRefusal sleep)"

text \<open>Awake: no sleep of the address, or the newest one is over by the landing block.\<close>

definition awake :: "json list \<Rightarrow> string \<Rightarrow> int \<Rightarrow> bool" where
  "awake sleeps address land = (own_sleeps sleeps address = []
     \<or> (\<exists>b. integer_value (row_num ''resume_block'' (newest (own_sleeps sleeps address))) = Some b \<and> b \<noteq> -1 \<and> b \<le> land))"

lemma sleep_blocker_awake:
  assumes "served PAGE_LIMIT sleeps getSleeps" "length sleeps \<le> MAX_PAGES * PAGE_LIMIT"
  shows "stakeSleepBlocker (readSleepState (Inr t) getSleeps address) = None \<longleftrightarrow> awake sleeps address (t + 1)"
  using row_pages.exact [OF assms]
  by (auto simp: stakeSleepBlocker_def readSleepState_def readAddressSleep_def judgeAddressSleep_def sleepRefusal_def awake_def
      Let_def split: option.splits)

lemma readSleepState_tip_error [simp]: "readSleepState (Inl e) getSleeps address = Inl e"
  by (simp add: readSleepState_def)

end
