(* ===== verification/StakePlan.thy ===== *)
theory StakePlan
  imports StakeKey
begin

text \<open>
  The mint plan of a stake run: the token's mint rules and the address's earlier mints
  (\<open>validator_stake_service/mint_rules.js\<close>), and \<open>planMints\<close>, which splits the shortfall
  into MINTs (\<open>services/validator_stake_service.js\<close>).
\<close>

section \<open>Mint rules\<close>

definition reported :: "json option \<Rightarrow> jsnum option" where
  "reported x = (case x of
     None \<Rightarrow> None
   | Some v \<Rightarrow> if v = JNull \<or> v = JStr [] then None
       else if is_finite (Number v) \<and> js_le (Fin 0) (Number v) then Some (Number v) else None)"

datatype unreadable_rules = NoMintsGroup | Missing "string list"

record mint_rules =
  mr_max :: "jsnum option"
  mr_addressMax :: "jsnum option"
  mr_startBlock :: "jsnum option"
  mr_stopBlock :: "jsnum option"
  mr_locked :: "json option"
  mr_unreadable :: "unreadable_rules option"

definition object_member :: "json \<Rightarrow> string \<Rightarrow> json option" where
  "object_member v k = (case field v k of Some m \<Rightarrow> if truthy m \<and> is_object m then Some m else None | None \<Rightarrow> None)"

definition readTokenMintRules :: "json \<Rightarrow> mint_rules" where
  "readTokenMintRules token = (case object_member token ''mints'' of
     None \<Rightarrow> \<lparr>mr_max = None, mr_addressMax = None, mr_startBlock = None, mr_stopBlock = None, mr_locked = None,
       mr_unreadable = Some NoMintsGroup\<rparr>
   | Some mints \<Rightarrow>
       let locked = (case object_member token ''locks'' of Some l \<Rightarrow> field l ''mint'' | None \<Rightarrow> None);
           max_m = reported (field mints ''max''); max_a = reported (field mints ''address_max'');
           start = reported (field mints ''start_block''); stop = reported (field mints ''stop_block'');
           missing = (if max_m = None then [''mints.max''] else []) @ (if max_a = None then [''mints.address_max''] else [])
             @ (if start = None then [''mints.start_block''] else []) @ (if stop = None then [''mints.stop_block''] else [])
             @ (if locked \<in> {Some (JBool True), Some (JBool False)} then [] else [''locks.mint''])
       in \<lparr>mr_max = max_m, mr_addressMax = max_a, mr_startBlock = start, mr_stopBlock = stop, mr_locked = locked,
           mr_unreadable = (if missing \<noteq> [] then Some (Missing missing) else None)\<rparr>)"

datatype mint_closed =
    MintLocked
  | OpensAt jsnum int
  | ClosedAfter jsnum int
  | WindowUnknown read_error

text \<open>\<open>x > 0\<close> and \<open>land < x\<close> on a value that may be null, which counts as zero.\<close>

definition or_zero :: "jsnum option \<Rightarrow> jsnum" where
  "or_zero x = (case x of None \<Rightarrow> Fin 0 | Some n \<Rightarrow> n)"

definition mintClosedReason :: "mint_rules \<Rightarrow> int \<Rightarrow> mint_closed option" where
  "mintClosedReason rules landBlock =
     (let start = or_zero (mr_startBlock rules); stop = or_zero (mr_stopBlock rules); land = Fin (of_int landBlock) in
      if truthy_opt (mr_locked rules) then Some MintLocked
      else if js_gt start (Fin 0) \<and> js_lt land start then Some (OpensAt start landBlock)
      else if js_gt stop (Fin 0) \<and> js_gt land stop then Some (ClosedAfter stop landBlock)
      else None)"

definition UNITS :: rat where "UNITS = 10 ^ 8"

definition selfMintUnits :: "json \<Rightarrow> string \<Rightarrow> string \<Rightarrow> read_error + jsnum" where
  "selfMintUnits row address tick =
     (if \<not> truthy row \<or> \<not> row_valid row \<or> opt_String (field row ''source'') \<noteq> address \<or> opt_String (field row ''tick'') \<noteq> tick
      then Inr (Fin 0)
      else (let n = Number_opt (field row ''amount'') in
        if field row ''amount'' \<in> {Some JNull, Some (JStr [])} \<or> \<not> is_finite n \<or> js_lt n (Fin 0) then Inl NoMintAmount
        else Inr (round_num (dmul n (Fin UNITS)))))"

fun add_units :: "string \<Rightarrow> string \<Rightarrow> jsnum \<Rightarrow> json list \<Rightarrow> read_error + jsnum" where
  "add_units address tick units [] = Inr units"
| "add_units address tick units (r # rs) = (case selfMintUnits r address tick of
     Inl e \<Rightarrow> Inl e | Inr u \<Rightarrow> add_units address tick (dadd units u) rs)"

function sweep_mints :: "fetch \<Rightarrow> string \<Rightarrow> string \<Rightarrow> nat \<Rightarrow> jsnum \<Rightarrow> nat \<Rightarrow> read_error + jsnum" where
  "sweep_mints get address tick page units seen =
     (if MAX_PAGES < page then Inl TooManyRows
      else case get page of
        Inl e \<Rightarrow> Inl (Threw e)
      | Inr v \<Rightarrow>
         (case page_rows v of
            None \<Rightarrow> Inl (NoRowList page)
          | Some data \<Rightarrow>
              (case add_units address tick units data of
                 Inl e \<Rightarrow> Inl e
               | Inr units' \<Rightarrow>
                   let seen' = seen + length data in
                   if (case plain_total v of Some t \<Rightarrow> t \<le> seen' | None \<Rightarrow> length data < PAGE_LIMIT) then Inr units'
                   else if data = [] then Inl (Truncated seen' (the (plain_total v)))
                   else sweep_mints get address tick (Suc page) units' seen')))"
  by pat_completeness auto
termination
  by (relation "measure (\<lambda>(_, _, _, page, _, _). Suc MAX_PAGES - page)") (auto simp: MAX_PAGES_def)

declare sweep_mints.simps [simp del]

fun over_units :: "jsnum \<Rightarrow> jsnum" where
  "over_units (Fin r) = to_double (Fin (r / UNITS))"
| "over_units n = n"

definition readSelfMinted :: "fetch \<Rightarrow> string \<Rightarrow> string \<Rightarrow> read_error + jsnum" where
  "readSelfMinted getMints address tick = (case sweep_mints getMints address tick 1 (Fin 0) 0 of
     Inl e \<Rightarrow> Inl e | Inr units \<Rightarrow> Inr (over_units units))"

record mint_state =
  ms_mintMax :: "jsnum option"
  ms_mintAddressMax :: "jsnum option"
  ms_mintUnreadable :: "unreadable_rules option"
  ms_mintClosed :: "mint_closed option"
  ms_mintedSoFar :: "jsnum option"
  ms_mintedUnknown :: "read_error option"

definition readMintState :: "json \<Rightarrow> read_error + int \<Rightarrow> fetch \<Rightarrow> string \<Rightarrow> string \<Rightarrow> mint_state" where
  "readMintState token tip getMints address tick =
     (let rules = readTokenMintRules token;
          state = \<lparr>ms_mintMax = mr_max rules, ms_mintAddressMax = mr_addressMax rules, ms_mintUnreadable = mr_unreadable rules,
            ms_mintClosed = None, ms_mintedSoFar = None, ms_mintedUnknown = None\<rparr>
      in if mr_unreadable rules \<noteq> None then state
         else let st1 = state\<lparr>ms_mintClosed :=
                (if truthy_opt (mr_locked rules) then mintClosedReason rules 0
                 else (case tip of Inl e \<Rightarrow> Some (WindowUnknown e) | Inr t \<Rightarrow> mintClosedReason rules (t + 1)))\<rparr>
              in if \<not> js_gt (or_zero (mr_addressMax rules)) (Fin 0) then st1
                 else (case readSelfMinted getMints address tick of
                     Inr m \<Rightarrow> st1\<lparr>ms_mintedSoFar := Some m\<rparr> | Inl e \<Rightarrow> st1\<lparr>ms_mintedUnknown := Some e\<rparr>))"

definition overAddressCap :: "jsnum \<Rightarrow> jsnum \<Rightarrow> jsnum option \<Rightarrow> bool" where
  "overAddressCap minted short cap = (case cap of
     None \<Rightarrow> False
   | Some c \<Rightarrow> js_gt c (Fin 0)
       \<and> js_gt (round_num (dmul (dadd minted short) (Fin UNITS))) (round_num (dmul c (Fin UNITS))))"

section \<open>\<open>planMints\<close>\<close>

datatype plan_reason =
    BalanceUnavailable
  | NotExact jsnum jsnum
  | NotOnMainnet nat
  | RulesUnreadable unreadable_rules
  | MaxMintUnknown
  | Closed mint_closed
  | MintedUnknown read_error
  | OverAddressCap jsnum jsnum

record mint_plan =
  mp_short :: "jsnum option"
  mp_mints :: "jsnum list"
  mp_reason :: "plan_reason option"

text \<open>The loop that cuts the shortfall into pieces; the piece size is never zero.\<close>

function split_units :: "nat \<Rightarrow> nat \<Rightarrow> nat list" where
  "split_units left perMint =
     (if left = 0 \<or> perMint = 0 then []
      else let a = (if left < perMint then left else perMint) in a # split_units (left - a) perMint)"
  by pat_completeness auto
termination
  by (relation "measure fst") (auto split: if_splits)

declare split_units.simps [simp del]

definition units_number :: "nat \<Rightarrow> jsnum" where
  "units_number u = Number (JStr (fromUnits u))"

definition cap_units :: "jsnum \<Rightarrow> nat option" where
  "cap_units mintMax = (if js_gt mintMax (Fin 0) then amountUnits (JNum mintMax) else None)"

definition piece :: "jsnum \<Rightarrow> nat \<Rightarrow> nat" where
  "piece mintMax short = (case cap_units mintMax of Some c \<Rightarrow> if 0 < c then c else short | None \<Rightarrow> short)"

definition stuck :: "nat \<Rightarrow> plan_reason \<Rightarrow> mint_plan" where
  "stuck short r = \<lparr>mp_short = Some (units_number short), mp_mints = [], mp_reason = Some r\<rparr>"

definition enough :: mint_plan where
  "enough = \<lparr>mp_short = Some (Fin 0), mp_mints = [], mp_reason = None\<rparr>"

definition plan_short :: "string \<Rightarrow> nat \<Rightarrow> mint_state \<Rightarrow> mint_plan" where
  "plan_short network short st =
     (if network = ''mainnet'' then stuck short (NotOnMainnet short)
      else case ms_mintUnreadable st of
        Some u \<Rightarrow> stuck short (RulesUnreadable u)
      | None \<Rightarrow>
         (case ms_mintMax st of
            None \<Rightarrow> stuck short MaxMintUnknown
          | Some mintMax \<Rightarrow>
              if \<not> is_finite mintMax \<or> js_lt mintMax (Fin 0) then stuck short MaxMintUnknown
              else (case ms_mintClosed st of
                  Some c \<Rightarrow> stuck short (Closed c)
                | None \<Rightarrow>
                   (case ms_mintedUnknown st of
                      Some e \<Rightarrow> stuck short (MintedUnknown e)
                    | None \<Rightarrow>
                        let minted = or_zero (ms_mintedSoFar st) in
                        \<lparr>mp_short = Some (units_number short),
                         mp_mints = map units_number (split_units short (piece mintMax short)),
                         mp_reason = (if overAddressCap minted (units_number short) (ms_mintAddressMax st)
                            then Some (OverAddressCap minted (units_number short)) else None)\<rparr>))))"

definition planMints :: "string \<Rightarrow> jsnum option \<Rightarrow> jsnum \<Rightarrow> mint_state \<Rightarrow> mint_plan" where
  "planMints network tokenBal amount st = (case tokenBal of
     None \<Rightarrow> \<lparr>mp_short = None, mp_mints = [], mp_reason = Some BalanceUnavailable\<rparr>
   | Some bal \<Rightarrow>
       if js_le amount bal then enough
       else (case (amountUnits (JNum bal), amountUnits (JNum amount)) of
           (Some balU, Some amountU) \<Rightarrow>
             if amountU \<le> balU then enough else plan_short network (amountU - balU) st
         | _ \<Rightarrow> \<lparr>mp_short = None, mp_mints = [], mp_reason = Some (NotExact bal amount)\<rparr>))"

section \<open>The pieces add up\<close>

lemma split_units_sum: "0 < perMint \<Longrightarrow> sum_list (split_units left perMint) = left"
proof (induction left perMint rule: split_units.induct)
  case (1 left perMint)
  then show ?case by (subst split_units.simps) (auto simp: Let_def)
qed

lemma split_units_piece: "u \<in> set (split_units left perMint) \<Longrightarrow> 0 < u \<and> u \<le> perMint \<and> u \<le> left"
proof (induction left perMint rule: split_units.induct)
  case (1 left perMint)
  then show ?case by (subst (asm) split_units.simps) (fastforce simp: Let_def split: if_splits)
qed

lemma split_units_count: "0 < perMint \<Longrightarrow> length (split_units left perMint) = (left + perMint - 1) div perMint"
proof (induction left perMint rule: split_units.induct)
  case (1 left perMint)
  show ?case
  proof (cases "left = 0")
    case True then show ?thesis using 1(2) by (subst split_units.simps) simp
  next
    case False
    then show ?thesis
    proof (cases "left < perMint")
      case True
      then have "(left + perMint - 1) div perMint = 1" using False by (intro div_nat_eqI) auto
      then show ?thesis using True False by (subst split_units.simps) (simp add: split_units.simps Let_def)
    next
      case le: False
      have "length (split_units (left - perMint) perMint) = (left - perMint + perMint - 1) div perMint"
        using 1 False le by simp
      moreover have "(left + perMint - 1) div perMint = Suc ((left - 1) div perMint)"
        using 1(2) le False by (metis Nat.add_diff_assoc2 One_nat_def Suc_leI add.commute div_add_self2 less_not_refl not_gr_zero plus_1_eq_Suc)
      ultimately show ?thesis using le False 1(2) by (subst split_units.simps) (simp add: Let_def)
    qed
  qed
qed

lemma fixed8_mono: "a \<le> b \<Longrightarrow> fixed8 a \<le> fixed8 b"
  unfolding fixed8_def by (intro nat_mono floor_mono) simp

lemma mint_text: "0 < u \<Longrightarrow> u < 2 ^ 26 * 10 ^ 8 \<Longrightarrow> mintAmountText (units_number u) = Some (fromUnits u)"
  using Number_fromUnits(2) [of u] by (simp add: mintAmountText_def units_number_def)

lemma split_units_texts:
  assumes "0 < perMint" "left < 2 ^ 26 * 10 ^ 8"
  shows "map mintAmountText (map units_number (split_units left perMint)) = map (Some \<circ> fromUnits) (split_units left perMint)"
proof -
  have "mintAmountText (units_number u) = Some (fromUnits u)" if "u \<in> set (split_units left perMint)" for u
    using split_units_piece [OF that] assms(2) by (intro mint_text) auto
  then show ?thesis by simp
qed

lemma plan_short_minted:
  assumes "mp_reason (plan_short network short st) = None"
  obtains mintMax where "ms_mintMax st = Some mintMax" "network \<noteq> ''mainnet''" "ms_mintUnreadable st = None"
    "ms_mintClosed st = None" "ms_mintedUnknown st = None"
    "mp_mints (plan_short network short st) = map units_number (split_units short (piece mintMax short))"
    "\<not> overAddressCap (or_zero (ms_mintedSoFar st)) (units_number short) (ms_mintAddressMax st)"
  using assms
  by (auto simp: plan_short_def stuck_def Let_def split: option.splits if_splits)

lemma amountUnits_fixed: "amountUnits (JNum n) = Some u \<Longrightarrow> \<exists>r. n = Fin r \<and> 0 \<le> r \<and> u = fixed8 r"
  by (cases n) (auto split: if_splits)

lemma plan_cases:
  assumes "planMints network (Some bal) amount st = plan" "amountUnits (JNum bal) = Some b" "amountUnits (JNum amount) = Some a"
  shows "a \<le> b \<and> plan = enough \<or> b < a \<and> plan = plan_short network (a - b) st"
proof (cases "js_le amount bal")
  case True
  obtain x y where "amount = Fin x" "a = fixed8 x" "bal = Fin y" "b = fixed8 y"
    using assms(2,3) [THEN amountUnits_fixed] by auto
  then show ?thesis using True assms(1) fixed8_mono [of x y] by (auto simp: planMints_def)
next
  case False then show ?thesis using assms by (cases "a \<le> b") (auto simp: planMints_def)
qed

text \<open>
  C12. A plan without a reason to stop mints exactly what is missing: the amount texts the run
  sends add up, in units, to the stake amount less the balance, none is zero, none exceeds
  the per-transaction cap, and no fewer MINTs would do. This holds for every shortfall below
  67108864 XCHAIN, however the doubles in between round.
\<close>

theorem planned_mints_cover_shortfall:
  assumes plan: "planMints network (Some bal) amount st = plan" "mp_reason plan = None"
    and units: "amountUnits (JNum bal) = Some b" "amountUnits (JNum amount) = Some a"
    and small: "a < b + 2 ^ 26 * 10 ^ 8"
  shows "\<exists>us. map mintAmountText (mp_mints plan) = map (Some \<circ> fromUnits) us
       \<and> b + sum_list us = max a b
       \<and> (\<forall>u \<in> set us. 0 < u \<and> (\<forall>c. cap_units (the (ms_mintMax st)) = Some c \<and> 0 < c \<longrightarrow> u \<le> c))
       \<and> (\<forall>c. cap_units (the (ms_mintMax st)) = Some c \<and> 0 < c \<longrightarrow> length us = (a - b + c - 1) div c)"
  using plan_cases [OF plan(1) units]
proof (elim disjE conjE)
  assume "a \<le> b" "plan = enough"
  then show ?thesis by (auto simp: enough_def intro!: exI [of _ "[]"])
next
  assume "b < a" "plan = plan_short network (a - b) st"
  then obtain mintMax where m: "ms_mintMax st = Some mintMax"
    "mp_mints plan = map units_number (split_units (a - b) (piece mintMax (a - b)))"
    using plan_short_minted [of network "a - b" st] plan(2) by metis
  have pos: "0 < piece mintMax (a - b)" using \<open>b < a\<close> by (auto simp: piece_def split: option.splits)
  let ?us = "split_units (a - b) (piece mintMax (a - b))"
  have "piece mintMax (a - b) = c" if "cap_units mintMax = Some c" "0 < c" for c
    using that by (simp add: piece_def)
  then show ?thesis
    using split_units_texts [OF pos, of "a - b"] split_units_sum [OF pos, of "a - b"] split_units_count [OF pos, of "a - b"] small \<open>b < a\<close>
    by (intro exI [of _ ?us]) (auto simp: m dest: split_units_piece)
qed

definition open_mint :: mint_state where
  "open_mint = \<lparr>ms_mintMax = Some (Fin 10000), ms_mintAddressMax = Some (Fin 0), ms_mintUnreadable = None,
     ms_mintClosed = None, ms_mintedSoFar = None, ms_mintedUnknown = None\<rparr>"

lemma fixed8_units: "fixed8 (of_nat n / 10 ^ 8) = n"
proof -
  have "\<lfloor>of_nat n / 10 ^ 8 * 10 ^ 8 + 1 / 2 :: rat\<rfloor> = int n" by (simp add: floor_eq_iff)
  then show ?thesis by (simp only: fixed8_def nat_int)
qed

lemma demo_amounts:
  "amountUnits (JNum (Fin (1 / 2))) = Some 50000000" "amountUnits (JNum (Fin 25000)) = Some 2500000000000"
  "cap_units (Fin 10000) = Some 1000000000000"
  using fixed8_units [of 50000000] fixed8_units [of 2500000000000] fixed8_units [of 1000000000000]
  by (simp_all add: cap_units_def js_gt_def)

lemma open_mint_plan: "mp_reason (planMints ''testnet'' (Some (Fin (1 / 2))) (Fin 25000) open_mint) = None"
  using demo_amounts by (simp add: planMints_def plan_short_def open_mint_def overAddressCap_def js_gt_def Let_def enough_def)

theorem planned_mints_cover_shortfall_witness:
  "\<exists>us. map mintAmountText (mp_mints (planMints ''testnet'' (Some (Fin (1 / 2))) (Fin 25000) open_mint)) = map (Some \<circ> fromUnits) us
     \<and> sum_list us = 2499950000000 \<and> length us = 3"
proof -
  have "cap_units (the (ms_mintMax open_mint)) = Some 1000000000000" by (simp add: open_mint_def demo_amounts)
  with planned_mints_cover_shortfall [OF refl open_mint_plan demo_amounts(1,2)]
  show ?thesis by fastforce
qed

section \<open>Where the doubles lose a unit\<close>

text \<open>
  Above the bound a shortfall is cut in exact units but each piece goes through a double:
  a shortfall of 67108864.00000002 becomes a MINT of 67108864.00000001.
\<close>

lemma lost_exponent: "exponent_of (6710886400000002 / 10 ^ 8) = 26"
proof -
  have "\<lfloor>6710886400000002 / 10 ^ 8 :: rat\<rfloor> = 67108864" by (simp add: floor_eq_iff)
  moreover have "bit_length 67108864 = 27" by (simp add: bit_length.simps)
  ultimately show ?thesis by (simp add: exponent_of_def)
qed

lemma unit_lost: "dbl (6710886400000002 / 10 ^ 8) = 4503599627370497 / 2 ^ 26"
proof -
  have u: "ulp (6710886400000002 / 10 ^ 8) = 1 / 2 ^ 26"
    unfolding ulp_def using lost_exponent by (simp add: pow2_def)
  have "\<lfloor>6710886400000002 / 10 ^ 8 / (1 / 2 ^ 26) :: rat\<rfloor> = 4503599627370497" by (simp add: floor_eq_iff)
  then have "half_even (6710886400000002 / 10 ^ 8 / (1 / 2 ^ 26)) = 4503599627370497"
    unfolding half_even_def Let_def by simp
  then show ?thesis unfolding dbl_def u by simp
qed

lemma wide_mint_text: "mintAmountText (units_number 6710886400000002) = Some (fromUnits 6710886400000001)"
proof -
  have "js_Number (fromUnits 6710886400000002) = Fin (6710886400000002 / 10 ^ 8)"
    by (simp add: js_Number_fromUnits to_num_small double_limit_def)
  then have "units_number 6710886400000002 = to_num (4503599627370497 / 2 ^ 26)"
    unfolding units_number_def Number_def exact_Number.simps by (simp only: to_double.simps unit_lost)
  then have n: "units_number 6710886400000002 = Fin (4503599627370497 / 2 ^ 26)"
    by (simp add: to_num_small double_limit_def)
  have "\<lfloor>4503599627370497 / 2 ^ 26 * 10 ^ 8 + 1 / 2 :: rat\<rfloor> = 6710886400000001" by (simp add: floor_eq_iff)
  then have "fixed8 (4503599627370497 / 2 ^ 26) = 6710886400000001" unfolding fixed8_def by simp
  then show ?thesis unfolding n by (simp add: mintAmountText_def)
qed

lemma wide_shortfall_loses_unit:
  "map mintAmountText (mp_mints (planMints ''testnet'' (Some (Fin (99999998 / 10 ^ 8))) (Fin 67108865)
     (open_mint\<lparr>ms_mintMax := Some (Fin 0)\<rparr>))) = [Some (fromUnits 6710886400000001)]
   \<and> 99999998 + 6710886400000001 < (6710886500000000 :: nat)"
proof -
  have "amountUnits (JNum (Fin (99999998 / 10 ^ 8))) = Some 99999998" "amountUnits (JNum (Fin 67108865)) = Some 6710886500000000"
    using fixed8_units [of 99999998] fixed8_units [of 6710886500000000] by simp_all
  moreover have "split_units 6710886400000002 6710886400000002 = [6710886400000002]"
    by (simp add: split_units.simps)
  ultimately have "mp_mints (planMints ''testnet'' (Some (Fin (99999998 / 10 ^ 8))) (Fin 67108865)
      (open_mint\<lparr>ms_mintMax := Some (Fin 0)\<rparr>)) = [units_number 6710886400000002]"
    by (simp add: planMints_def plan_short_def open_mint_def piece_def cap_units_def js_gt_def Let_def
        del: amountUnits.simps)
  then show ?thesis using wide_mint_text by simp
qed

section \<open>A tip the explorer does not report\<close>

text \<open>
  \<open>Number(null)\<close> is zero, so a status whose last block for the coin is null reads as block 0
  instead of an unreadable tip, and a mint window that closed long ago reads as open.
\<close>

lemma null_tip_is_block_zero:
  "readTip (Inr (JObj [(''last_block'', JObj [(coin, JNull)])])) coin = Inr 0"
  "readTip (Inr JNull) coin = Inr 0"
  by (simp_all add: readTip_def last_block_of_def field_def Number_opt_def Number_def dbl_def to_num_def double_limit_def
      integer_value_def)

lemma closed_window_reads_open:
  assumes "mr_locked rules = Some (JBool False)" "mr_startBlock rules = Some (Fin 0)" "mr_stopBlock rules = Some (Fin 500)"
  shows "mintClosedReason rules (0 + 1) = None" "mintClosedReason rules (900 + 1) \<noteq> None"
  using assms by (simp_all add: mintClosedReason_def or_zero_def js_gt_def)

end
