(* ===== verification/StakeSend.thy ===== *)
theory StakeSend
  imports StakePlan
begin

text \<open>
  The stake and unstake runs: what is read (\<open>readChainState\<close>, \<open>openValidatorSession\<close> of
  \<open>services/validator_stake_service.js\<close>), what blocks a run and how the transactions go out
  (\<open>stake_operations.js\<close>, \<open>unstake_operations.js\<close>), under the lock of \<open>send_lock.js\<close> and
  \<open>scopedCommandLock\<close> of \<open>cli/dispatch.js\<close>. A run is a state with the trace of its lock and
  submit events; the explorer, the encoder and the SDK's answers are a record of functions.
\<close>

section \<open>The session\<close>

datatype session_error = NoValidator | UnknownNetwork | BadPubkey | WrongWallet

record session =
  ss_network :: string
  ss_coins :: coin_network
  ss_pubkey :: string
  ss_address :: string

definition is_hex64 :: "string \<Rightarrow> bool" where
  "is_hex64 s = (length s = 64 \<and> list_all (\<lambda>c. is_digit c \<or> (97 \<le> char_code c \<and> char_code c \<le> 102)) s)"

definition settings_network :: "json \<Rightarrow> json option" where
  "settings_network settings =
     (if truthy_opt (field settings ''network'') then field settings ''network''
      else if field settings ''P2P_PORT'' = Some (JNum (Fin 10002)) then Some (JStr ''testnet'')
      else if field settings ''P2P_PORT'' = Some (JNum (Fin 10001)) then Some (JStr ''mainnet'') else None)"

text \<open>\<open>walletAddress\<close> is the address the stake key controls, \<open>recorded\<close> the one the wallet file names.\<close>

definition openValidatorSession :: "json option \<Rightarrow> string \<Rightarrow> string option \<Rightarrow> session_error + session" where
  "openValidatorSession settings walletAddress recorded = (case settings of
     None \<Rightarrow> Inl NoValidator
   | Some s \<Rightarrow>
       let network = opt_String (settings_network s);
           pubkey = to_lower (if truthy_opt (field s ''pubkey'') then opt_String (field s ''pubkey'') else [])
       in (case map_of COIN_NETWORKS network of
             None \<Rightarrow> Inl UnknownNetwork
           | Some coins \<Rightarrow>
               if \<not> is_hex64 pubkey then Inl BadPubkey
               else if (case recorded of Some a \<Rightarrow> a \<noteq> [] \<and> walletAddress \<noteq> a | None \<Rightarrow> False) then Inl WrongWallet
               else Inr \<lparr>ss_network = network, ss_coins = coins, ss_pubkey = pubkey, ss_address = walletAddress\<rparr>))"

definition DEFAULT_STAKE_AMOUNT :: jsnum where "DEFAULT_STAKE_AMOUNT = Fin 25000"
definition STAKE_TICK :: string where "STAKE_TICK = ''XCHAIN''"

text \<open>\<open>--amount\<close>: the default when absent, else a positive safe whole number; \<open>None\<close> is the refusal.\<close>

definition resolveStakeAmount :: "string option \<Rightarrow> jsnum option" where
  "resolveStakeAmount raw = (case raw of
     None \<Rightarrow> Some DEFAULT_STAKE_AMOUNT
   | Some r \<Rightarrow>
       let text = trim r; amount = Number (JStr text) in
       if text = [] \<or> \<not> list_all is_digit text then None
       else (case amount of
           Fin a \<Rightarrow> if a \<le> 2 ^ 53 - 1 \<and> 0 < a then Some amount else None | _ \<Rightarrow> None))"

text \<open>The two clocks of a stake, from the coin registry.\<close>

record stake_timing =
  tm_activation :: "int option"
  tm_cooldown :: "int option"

definition staking_blocks :: "json \<Rightarrow> string \<Rightarrow> int option" where
  "staking_blocks coin k = (case field coin ''STAKING'' of
     None \<Rightarrow> None | Some s \<Rightarrow> (case field s k of Some v \<Rightarrow> integer_value (Number v) | None \<Rightarrow> None))"

definition stakeTiming :: "coin_network \<Rightarrow> string \<Rightarrow> stake_timing option" where
  "stakeTiming coins network = (case getCoinConfigByFullName COIN_FILES Map.empty (\<lambda>_. None) (full_name coins) network of
     Inl _ \<Rightarrow> None
   | Inr c \<Rightarrow> Some \<lparr>tm_activation = staking_blocks c ''ACTIVATION_DELAY_BLOCKS'', tm_cooldown = staking_blocks c ''COOLDOWN_BLOCKS''\<rparr>)"

section \<open>What a run reads\<close>

datatype read_phase = MintPhase | KeyPhase | SleepPhase | UnstakePhase

record explorer =
  ex_address :: "string + json"
  ex_balances :: fetch
  ex_token :: "string + json"
  ex_status :: "read_phase \<Rightarrow> string + json"
  ex_mints :: fetch
  ex_validators :: fetch
  ex_delegations :: fetch
  ex_sleeps :: fetch

definition entity :: "json \<Rightarrow> json option" where
  "entity body = (case body of JArr [] \<Rightarrow> None | JArr (b # _) \<Rightarrow> Some b | _ \<Rightarrow> Some body)"

text \<open>The native balance and its pending part; \<open>None\<close> is unavailable.\<close>

definition nativeBalance :: "json option \<Rightarrow> (jsnum \<times> jsnum) option" where
  "nativeBalance addr = (case addr of
     None \<Rightarrow> None
   | Some a \<Rightarrow>
       (case field a ''balances'' of
          None \<Rightarrow> None
        | Some balances \<Rightarrow>
            if \<not> truthy balances \<or> field a ''tracker_available'' = Some (JBool False) then None
            else (case field balances ''confirmed'' of
                None \<Rightarrow> None
              | Some c \<Rightarrow> if c = JNull \<or> \<not> is_finite (Number c) then None
                  else Some (Number c, num (field balances ''pending'')))))"

record chain_state =
  st_coinBal :: "jsnum option"
  st_coinPending :: "jsnum option"
  st_tokenBal :: "jsnum option"
  st_mint :: mint_state
  st_holders :: key_holders
  st_sleep :: "read_error + sleep_state"

definition readChainState :: "explorer \<Rightarrow> session \<Rightarrow> int option \<Rightarrow> read_error + chain_state" where
  "readChainState ex ss cooldown =
     (let coin = cn_stakeCoin (ss_coins ss); tip = (\<lambda>phase. readTip (ex_status ex phase) coin) in
      case ex_address ex of
        Inl e \<Rightarrow> Inl (Threw e)
      | Inr addr \<Rightarrow>
         let native = nativeBalance (entity addr); tokenRow = readTokenRow (ex_balances ex) STAKE_TICK in
         (case tokenRow of
            Inl (Threw e) \<Rightarrow> Inl (Threw e)
          | _ \<Rightarrow>
             (case ex_token ex of
                Inl e \<Rightarrow> Inl (Threw e)
              | Inr token \<Rightarrow> Inr \<lparr>
                  st_coinBal = map_option fst native, st_coinPending = map_option snd native,
                  st_tokenBal = (case tokenRow of
                     Inl _ \<Rightarrow> None | Inr row \<Rightarrow> Some (num (Option.bind row (\<lambda>r. field r ''amount'')))),
                  st_mint = readMintState (case entity token of Some t \<Rightarrow> t | None \<Rightarrow> JNull) (tip MintPhase)
                     (ex_mints ex) (ss_address ss) STAKE_TICK,
                  st_holders = readKeyHolders (ex_validators ex) (ex_delegations ex) (tip KeyPhase) (ss_pubkey ss)
                     (ss_network ss) (ss_coins ss) cooldown,
                  st_sleep = readSleepState (tip SleepPhase) (ex_sleeps ex) (ss_address ss)\<rparr>)))"

datatype blocker =
    BlockedPlan plan_reason
  | CoinUnavailable
  | CoinMissing
  | DelegationUnknown read_error
  | SetUnknown read_error
  | Asleep sleep_refusal

definition opt_list :: "('a \<Rightarrow> 'b) \<Rightarrow> 'a option \<Rightarrow> 'b list" where
  "opt_list f x = (case x of None \<Rightarrow> [] | Some a \<Rightarrow> [f a])"

definition stakeBlockers :: "chain_state \<Rightarrow> mint_plan \<Rightarrow> blocker list" where
  "stakeBlockers st plan =
     opt_list BlockedPlan (mp_reason plan)
     @ (case st_coinBal st of
          None \<Rightarrow> [CoinUnavailable] | Some b \<Rightarrow> if js_le b (Fin 0) then [CoinMissing] else [])
     @ opt_list DelegationUnknown (kh_delegationUnknown (st_holders st))
     @ opt_list SetUnknown (kh_existingUnknown (st_holders st))
     @ opt_list Asleep (stakeSleepBlocker (st_sleep st))"

section \<open>The lock and the trace of a run\<close>

datatype kind = MINT | STAKE | UNSTAKE

datatype event =
    Acquired
  | Dropped
  | Submit kind "string option" "json list option"

record run =
  rn_lock :: bool
  rn_held :: bool
  rn_asked :: nat
  rn_trace :: "event list"

text \<open>\<open>sendLockFor\<close>: only a broadcast run uses the lock.\<close>

definition start_run :: "bool \<Rightarrow> run" where
  "start_run broadcast = \<lparr>rn_lock = broadcast, rn_held = False, rn_asked = 0, rn_trace = []\<rparr>"

text \<open>\<open>hold()\<close> of the scoped lock: a no-op when held, else the k-th answer of the command lock.\<close>

definition hold :: "(nat \<Rightarrow> bool) \<Rightarrow> run \<Rightarrow> bool \<times> run" where
  "hold grant r =
     (if \<not> rn_lock r \<or> rn_held r then (True, r)
      else if grant (rn_asked r)
        then (True, r\<lparr>rn_held := True, rn_asked := Suc (rn_asked r), rn_trace := rn_trace r @ [Acquired]\<rparr>)
      else (False, r\<lparr>rn_asked := Suc (rn_asked r)\<rparr>))"

definition release :: "run \<Rightarrow> run" where
  "release r = (if rn_held r then r\<lparr>rn_held := False, rn_trace := rn_trace r @ [Dropped]\<rparr> else r)"

definition log_submit :: "kind \<Rightarrow> string option \<Rightarrow> json list option \<Rightarrow> run \<Rightarrow> run" where
  "log_submit k amount inputs r = r\<lparr>rn_trace := rn_trace r @ [Submit k amount inputs]\<rparr>"

text \<open>What the SDK answers to a submit: the transaction, the outputs it spent, and whether it went on to wait.\<close>

record submitted =
  sb_txid :: string
  sb_spent :: "string list"
  sb_waiting :: bool

record world =
  w_grant :: "nat \<Rightarrow> bool"
  w_utxos :: "nat \<Rightarrow> (string + json) list"
  w_submit :: "nat \<Rightarrow> string + submitted"
  w_balance :: "(read_error + json option) list"

definition utxo_txid :: "json \<Rightarrow> json option" where
  "utxo_txid out = (if truthy_opt (field out ''fullTxid'') then field out ''fullTxid'' else field out ''txid'')"

definition outputs_of :: "string \<Rightarrow> string + json \<Rightarrow> json list" where
  "outputs_of txid response = (case response of
     Inl _ \<Rightarrow> []
   | Inr utxos \<Rightarrow> (case field utxos ''utxos'' of
        Some (JArr us) \<Rightarrow> filter (\<lambda>u. utxo_txid u = Some (JStr txid)) us | _ \<Rightarrow> []))"

text \<open>The polls the deadline allows, in order.\<close>

fun chainedInputs :: "string \<Rightarrow> (string + json) list \<Rightarrow> json list option" where
  "chainedInputs prevTxid [] = None"
| "chainedInputs prevTxid (r # rs) =
     (let outs = outputs_of prevTxid r in if outs \<noteq> [] then Some outs else chainedInputs prevTxid rs)"

fun waitForBalance :: "jsnum \<Rightarrow> (read_error + json option) list \<Rightarrow> bool" where
  "waitForBalance amount [] = False"
| "waitForBalance amount (r # rs) = (case r of
     Inl _ \<Rightarrow> waitForBalance amount rs
   | Inr row \<Rightarrow> js_le amount (num (Option.bind row (\<lambda>b. field b ''amount''))) \<or> waitForBalance amount rs)"

end
