(* ===== verification/StakeRun.thy ===== *)
theory StakeRun
  imports StakeSend CoinConfig
begin

text \<open>
  The broadcast of a stake run step by step (\<open>stake_operations.js\<close>), and what its trace
  promises: every transaction goes out under the command lock, and the STAKE only after its
  MINTs, chained to them or with their balance confirmed.
\<close>

section \<open>Sending\<close>

datatype send_error =
    LockRefused kind "(kind \<times> string) list"
  | SubmitFailed kind string
  | MalformedMint

record progress =
  pg_chain :: bool
  pg_sent :: "(kind \<times> string) list"
  pg_prev :: "string option"
  pg_broken :: bool

definition linkInputs :: "world \<Rightarrow> progress \<Rightarrow> json list option \<times> progress" where
  "linkInputs w p = (case pg_prev p of
     None \<Rightarrow> (None, p)
   | Some prev \<Rightarrow>
       if \<not> pg_chain p then (None, p)
       else (case chainedInputs prev (w_utxos w (length (pg_sent p))) of
           None \<Rightarrow> (None, p\<lparr>pg_broken := True\<rparr>)
         | Some outs \<Rightarrow> (Some outs, p)))"

definition sendStakeAction ::
  "world \<Rightarrow> kind \<Rightarrow> string option \<Rightarrow> json list option \<Rightarrow> progress \<Rightarrow> run \<Rightarrow> (send_error + progress) \<times> run" where
  "sendStakeAction w k amount inputs p r =
     (case hold (w_grant w) r of
        (False, r1) \<Rightarrow> (Inl (LockRefused k (pg_sent p)), r1)
      | (True, r1) \<Rightarrow>
          let r2 = log_submit k amount inputs r1 in
          (case w_submit w (length (pg_sent p)) of
             Inl e \<Rightarrow> (Inl (SubmitFailed k e), r2)
           | Inr a \<Rightarrow>
               (Inr (p\<lparr>pg_broken := (pg_broken p \<or> (pg_chain p \<and> pg_prev p \<noteq> None \<and> the (pg_prev p) \<notin> set (sb_spent a))),
                       pg_prev := Some (sb_txid a), pg_sent := pg_sent p @ [(k, sb_txid a)]\<rparr>),
                if sb_waiting a then release r2 else r2)))"

fun send_mints :: "world \<Rightarrow> string list \<Rightarrow> progress \<Rightarrow> run \<Rightarrow> (send_error + progress) \<times> run" where
  "send_mints w [] p r = (Inr p, r)"
| "send_mints w (t # ts) p r =
     (case linkInputs w p of (inputs, p1) \<Rightarrow>
        (case sendStakeAction w MINT (Some t) inputs p1 r of
           (Inl e, r1) \<Rightarrow> (Inl e, r1)
         | (Inr p2, r1) \<Rightarrow> send_mints w ts p2 r1))"

datatype outcome =
    Staked string bool
  | PendingMints

definition finishStake ::
  "world \<Rightarrow> jsnum \<Rightarrow> json list option \<Rightarrow> progress \<Rightarrow> run \<Rightarrow> (send_error + outcome) \<times> run" where
  "finishStake w amount inputs p r =
     (case sendStakeAction w STAKE (Some (number_text amount)) inputs p r of
        (Inl e, r1) \<Rightarrow> (Inl e, r1)
      | (Inr p1, r1) \<Rightarrow> (Inr (Staked (the (pg_prev p1)) (pg_chain p1 \<and> \<not> pg_broken p1)), r1))"

definition start_progress :: "bool \<Rightarrow> progress" where
  "start_progress serialize = \<lparr>pg_chain = \<not> serialize, pg_sent = [], pg_prev = None, pg_broken = False\<rparr>"

definition broadcastStake ::
  "world \<Rightarrow> bool \<Rightarrow> jsnum \<Rightarrow> mint_plan \<Rightarrow> run \<Rightarrow> (send_error + outcome) \<times> run" where
  "broadcastStake w serialize amount plan r =
     (let mintTexts = map mintAmountText (mp_mints plan) in
      if None \<in> set mintTexts then (Inl MalformedMint, r)
      else (case send_mints w (map the mintTexts) (start_progress serialize) r of
          (Inl e, r1) \<Rightarrow> (Inl e, r1)
        | (Inr p, r1) \<Rightarrow>
            (case (if pg_broken p then (None, p) else linkInputs w p) of (inputs, p1) \<Rightarrow>
               if mp_mints plan \<noteq> [] \<and> (pg_broken p1 \<or> serialize)
               then (let r2 = release r1 in
                     if \<not> waitForBalance amount (w_balance w) then (Inr PendingMints, r2)
                     else finishStake w amount None (p1\<lparr>pg_prev := None\<rparr>) r2)
               else finishStake w amount inputs p1 r1)))"

section \<open>The whole run\<close>

datatype stake_result =
    BadAmount
  | NoTiming
  | LockHeld
  | ReadFailed read_error
  | AlreadyStaked json
  | AlreadyDelegated "json list"
  | Blocked "blocker list"
  | DryRun mint_plan
  | SendFailed send_error
  | Finished outcome

definition planAndStake ::
  "explorer \<Rightarrow> world \<Rightarrow> session \<Rightarrow> string option \<Rightarrow> bool \<Rightarrow> bool \<Rightarrow> run \<Rightarrow> stake_result \<times> run" where
  "planAndStake ex w ss rawAmount broadcast serialize r =
     (case resolveStakeAmount rawAmount of
        None \<Rightarrow> (BadAmount, r)
      | Some amount \<Rightarrow>
         (case stakeTiming (ss_coins ss) (ss_network ss) of
            None \<Rightarrow> (NoTiming, r)
          | Some timing \<Rightarrow>
             (case hold (w_grant w) r of
                (False, r1) \<Rightarrow> (LockHeld, r1)
              | (True, r1) \<Rightarrow>
                 (case readChainState ex ss (tm_cooldown timing) of
                    Inl e \<Rightarrow> (ReadFailed e, r1)
                  | Inr st \<Rightarrow>
                      let plan = planMints (ss_network ss) (st_tokenBal st) amount (st_mint st) in
                      (case (kh_existing (st_holders st), kh_delegated (st_holders st)) of
                         (Some row, _) \<Rightarrow> (AlreadyStaked row, r1)
                       | (None, Some ds) \<Rightarrow> (AlreadyDelegated ds, r1)
                       | (None, None) \<Rightarrow>
                           let blockers = stakeBlockers st plan in
                           if blockers \<noteq> [] then (Blocked blockers, r1)
                           else if \<not> broadcast then (DryRun plan, r1)
                           else (case broadcastStake w serialize amount plan r1 of
                               (Inl e, r2) \<Rightarrow> (SendFailed e, r2)
                             | (Inr out, r2) \<Rightarrow> (Finished out, r2)))))))"

text \<open>\<open>stakeValidator\<close>: the lock is handed back whatever happens.\<close>

definition stakeValidator ::
  "explorer \<Rightarrow> world \<Rightarrow> session \<Rightarrow> string option \<Rightarrow> bool \<Rightarrow> bool \<Rightarrow> stake_result \<times> run" where
  "stakeValidator ex w ss rawAmount broadcast serialize =
     (case planAndStake ex w ss rawAmount broadcast serialize (start_run broadcast) of (res, r) \<Rightarrow> (res, release r))"

section \<open>Under the lock\<close>

fun is_submit :: "event \<Rightarrow> bool" where
  "is_submit (Submit _ _ _) = True"
| "is_submit _ = False"

text \<open>The lock after a trace, and that every submit of a trace finds it held.\<close>

fun lock_after :: "bool \<Rightarrow> event list \<Rightarrow> bool" where
  "lock_after h [] = h"
| "lock_after h (Acquired # es) = lock_after True es"
| "lock_after h (Dropped # es) = lock_after False es"
| "lock_after h (Submit _ _ _ # es) = lock_after h es"

fun sends_locked :: "bool \<Rightarrow> event list \<Rightarrow> bool" where
  "sends_locked h [] = True"
| "sends_locked h (Acquired # es) = sends_locked True es"
| "sends_locked h (Dropped # es) = sends_locked False es"
| "sends_locked h (Submit _ _ _ # es) = (h \<and> sends_locked h es)"

lemma lock_after_append [simp]: "lock_after h (xs @ ys) = lock_after (lock_after h xs) ys"
  by (induction h xs rule: lock_after.induct) simp_all

lemma sends_locked_append [simp]: "sends_locked h (xs @ ys) \<longleftrightarrow> sends_locked h xs \<and> sends_locked (lock_after h xs) ys"
  by (induction h xs rule: lock_after.induct) simp_all

text \<open>The state of a run that uses the lock agrees with its trace.\<close>

definition locked_run :: "run \<Rightarrow> bool" where
  "locked_run r = (rn_lock r \<and> rn_held r = lock_after False (rn_trace r) \<and> sends_locked False (rn_trace r))"

lemma hold_locked: "locked_run r \<Longrightarrow> hold g r = (ok, r') \<Longrightarrow> locked_run r' \<and> (ok \<longrightarrow> rn_held r')"
  by (auto simp: locked_run_def hold_def split: if_splits)

lemma release_locked: "locked_run r \<Longrightarrow> locked_run (release r)"
  by (auto simp: locked_run_def release_def)

lemma release_not_held [simp]: "\<not> rn_held (release r)"
  by (simp add: release_def)

lemma submit_locked: "locked_run r \<Longrightarrow> rn_held r \<Longrightarrow> locked_run (log_submit k a i r)"
  by (auto simp: locked_run_def log_submit_def)

lemma send_locked: "locked_run r \<Longrightarrow> locked_run (snd (sendStakeAction w k a i p r))"
proof -
  assume r: "locked_run r"
  obtain ok r1 where h: "hold (w_grant w) r = (ok, r1)" by fastforce
  show ?thesis
  proof (cases ok)
    case True
    then have "locked_run (log_submit k a i r1)" using hold_locked [OF r h] submit_locked by simp
    then show ?thesis using True h by (simp add: sendStakeAction_def Let_def release_locked split: sum.split)
  next
    case False then show ?thesis using hold_locked [OF r h] h by (simp add: sendStakeAction_def)
  qed
qed

lemma send_mints_locked: "locked_run r \<Longrightarrow> locked_run (snd (send_mints w ts p r))"
proof (induction w ts p r rule: send_mints.induct)
  case (2 w t ts p r)
  obtain inputs p1 where l: "linkInputs w p = (inputs, p1)" by fastforce
  obtain res r1 where q: "sendStakeAction w MINT (Some t) inputs p1 r = (res, r1)" by fastforce
  have "locked_run r1" using send_locked [OF 2(2), of w MINT "Some t" inputs p1] q by simp
  then show ?case using 2(1) [OF l [symmetric] q [symmetric]] by (cases res) (simp_all add: l q)
qed simp

lemma finish_locked: "locked_run r \<Longrightarrow> locked_run (snd (finishStake w amount i p r))"
  using send_locked [of r w STAKE "Some (number_text amount)" i p] by (auto simp: finishStake_def split: prod.splits sum.splits)

lemma broadcast_locked: "locked_run r \<Longrightarrow> locked_run (snd (broadcastStake w serialize amount plan r))"
proof -
  assume r: "locked_run r"
  let ?m = "send_mints w (map the (map mintAmountText (mp_mints plan))) (start_progress serialize) r"
  have "locked_run (snd ?m)" by (rule send_mints_locked [OF r])
  then show ?thesis
    using r by (auto simp: broadcastStake_def Let_def intro!: finish_locked release_locked split: prod.splits sum.splits)
qed

lemma plan_locked: "locked_run r \<Longrightarrow> locked_run (snd (planAndStake ex w ss raw broadcast serialize r))"
proof -
  assume r: "locked_run r"
  obtain ok r1 where h: "hold (w_grant w) r = (ok, r1)" by fastforce
  have r1: "locked_run r1" using hold_locked [OF r h] by simp
  have b: "locked_run r2" if "broadcastStake w serialize amount plan r1 = (res, r2)" for amount plan res r2
    using broadcast_locked [OF r1, of w serialize amount plan] that by simp
  show ?thesis
    using r r1 b by (cases ok) (auto simp: planAndStake_def h Let_def split: option.split sum.split prod.split)
qed

lemma hold_dry: "\<not> rn_lock r \<Longrightarrow> hold g r = (True, r)"
  by (simp add: hold_def)

text \<open>
  C16. In every run of \<open>validator stake\<close>, whatever the explorer, the encoder, the SDK and the
  command lock answer, each transaction is submitted while the run holds the command lock,
  the lock is handed back at the end, and a run without \<open>--broadcast\<close> submits nothing and never
  touches the lock.
\<close>

theorem stake_sends_locked:
  "rn_held (snd (stakeValidator ex w ss rawAmount broadcast serialize)) = False
   \<and> sends_locked False (rn_trace (snd (stakeValidator ex w ss rawAmount broadcast serialize)))
   \<and> (broadcast \<or> rn_trace (snd (stakeValidator ex w ss rawAmount broadcast serialize)) = [])"
proof (cases broadcast)
  case True
  have "locked_run (start_run True)" by (simp add: locked_run_def start_run_def)
  from release_locked [OF plan_locked [OF this, of ex w ss rawAmount broadcast serialize]]
  have "locked_run (snd (stakeValidator ex w ss rawAmount broadcast serialize))"
    by (simp add: stakeValidator_def True split_beta)
  then show ?thesis using True by (simp add: stakeValidator_def locked_run_def split_beta)
next
  case False
  have "snd (planAndStake ex w ss rawAmount False serialize (start_run False)) = start_run False"
    by (simp add: planAndStake_def hold_dry start_run_def Let_def split: option.split sum.split)
  then show ?thesis using False by (simp add: stakeValidator_def split_beta release_def start_run_def)
qed

section \<open>The STAKE after its MINTs\<close>

definition submits :: "run \<Rightarrow> event list" where
  "submits r = filter is_submit (rn_trace r)"

definition mint_events :: "string list \<Rightarrow> json list option list \<Rightarrow> event list" where
  "mint_events ts ins = map (\<lambda>(t, i). Submit MINT (Some t) i) (zip ts ins)"

text \<open>An action funded by the one before it, and a chain of actions from the n-th answer on.\<close>

definition funded :: "string option \<Rightarrow> json list option \<Rightarrow> bool" where
  "funded prev inputs = (case prev of
     None \<Rightarrow> True
   | Some t \<Rightarrow> (case inputs of None \<Rightarrow> False | Some outs \<Rightarrow> outs \<noteq> [] \<and> list_all (\<lambda>u. utxo_txid u = Some (JStr t)) outs))"

fun chained :: "world \<Rightarrow> string option \<Rightarrow> nat \<Rightarrow> json list option list \<Rightarrow> bool" where
  "chained w prev n [] = True"
| "chained w prev n (i # is) = (funded prev i \<and> (case w_submit w n of
     Inl _ \<Rightarrow> False
   | Inr a \<Rightarrow> (prev = None \<or> the prev \<in> set (sb_spent a)) \<and> chained w (Some (sb_txid a)) (Suc n) is))"

lemma submits_start [simp]: "submits (start_run b) = []"
  by (simp add: submits_def start_run_def)

lemma submits_hold: "hold g r = (ok, r1) \<Longrightarrow> submits r1 = submits r"
  by (auto simp: hold_def submits_def split: if_splits)

lemma submits_release [simp]: "submits (release r) = submits r"
  by (simp add: release_def submits_def)

lemma submits_log [simp]: "submits (log_submit k a i r) = submits r @ [Submit k a i]"
  by (simp add: log_submit_def submits_def)

lemma outputs_of_txid: "list_all (\<lambda>u. utxo_txid u = Some (JStr t)) (outputs_of t r)"
  by (auto simp: outputs_of_def list_all_iff split: sum.split option.split json.split)

lemma chainedInputs_funded: "chainedInputs prev rs = Some outs \<Longrightarrow> funded (Some prev) (Some outs)"
  by (induction rs) (auto simp: funded_def Let_def outputs_of_txid split: if_splits)

text \<open>What one send leaves: at most its own submit, and on success the next link of the chain.\<close>

lemma send_sends:
  assumes "sendStakeAction w k a i p r = (res, r')"
  shows "submits r' = submits r \<or> submits r' = submits r @ [Submit k a i]"
    and "res = Inr p' \<Longrightarrow> \<exists>ans. w_submit w (length (pg_sent p)) = Inr ans \<and> submits r' = submits r @ [Submit k a i]
        \<and> pg_prev p' = Some (sb_txid ans) \<and> pg_sent p' = pg_sent p @ [(k, sb_txid ans)] \<and> pg_chain p' = pg_chain p
        \<and> pg_broken p' = (pg_broken p \<or> (pg_chain p \<and> pg_prev p \<noteq> None \<and> the (pg_prev p) \<notin> set (sb_spent ans)))"
proof -
  obtain ok r1 where h: "hold (w_grant w) r = (ok, r1)" by fastforce
  note hs = submits_hold [OF h]
  show "submits r' = submits r \<or> submits r' = submits r @ [Submit k a i]"
    using assms hs by (cases ok) (auto simp: sendStakeAction_def h Let_def split: sum.splits if_splits)
  show "\<exists>ans. w_submit w (length (pg_sent p)) = Inr ans \<and> submits r' = submits r @ [Submit k a i]
        \<and> pg_prev p' = Some (sb_txid ans) \<and> pg_sent p' = pg_sent p @ [(k, sb_txid ans)] \<and> pg_chain p' = pg_chain p
        \<and> pg_broken p' = (pg_broken p \<or> (pg_chain p \<and> pg_prev p \<noteq> None \<and> the (pg_prev p) \<notin> set (sb_spent ans)))"
    if "res = Inr p'"
    using assms hs that by (cases ok) (auto simp: sendStakeAction_def h Let_def split: sum.splits if_splits)
qed

lemma link_parts:
  assumes "linkInputs w p = (i, p')"
  shows "pg_sent p' = pg_sent p" "pg_prev p' = pg_prev p" "pg_chain p' = pg_chain p"
    "pg_broken p \<Longrightarrow> pg_broken p'" "\<not> pg_broken p' \<Longrightarrow> pg_chain p \<Longrightarrow> funded (pg_prev p) i"
proof -
  show "pg_sent p' = pg_sent p" "pg_prev p' = pg_prev p" "pg_chain p' = pg_chain p" "pg_broken p \<Longrightarrow> pg_broken p'"
    using assms by (auto simp: linkInputs_def split: option.splits if_splits)
  show "funded (pg_prev p) i" if ok: "\<not> pg_broken p'" "pg_chain p"
  proof (cases "pg_prev p")
    case None then show ?thesis by (simp add: funded_def)
  next
    case (Some prev)
    then obtain outs where "chainedInputs prev (w_utxos w (length (pg_sent p))) = Some outs" "i = Some outs"
      using assms ok by (auto simp: linkInputs_def split: option.splits if_splits)
    then show ?thesis using chainedInputs_funded Some by metis
  qed
qed

lemma start_progress_simps [simp]:
  "pg_chain (start_progress s) = (\<not> s)" "pg_sent (start_progress s) = []"
  "pg_prev (start_progress s) = None" "\<not> pg_broken (start_progress s)"
  by (simp_all add: start_progress_def)

definition txid_of :: "world \<Rightarrow> nat \<Rightarrow> string option" where
  "txid_of w n = (case w_submit w n of Inr a \<Rightarrow> Some (sb_txid a) | Inl _ \<Rightarrow> None)"

lemma send_mints_chain:
  "send_mints w ts p r = (Inr p', r') \<Longrightarrow>
     \<exists>ins. length ins = length ts \<and> submits r' = submits r @ mint_events ts ins
       \<and> pg_chain p' = pg_chain p \<and> (pg_broken p \<longrightarrow> pg_broken p')
       \<and> (\<not> pg_broken p' \<and> pg_chain p \<longrightarrow> chained w (pg_prev p) (length (pg_sent p)) ins)
       \<and> length (pg_sent p') = length (pg_sent p) + length ts
       \<and> pg_prev p' = (if ts = [] then pg_prev p else txid_of w (length (pg_sent p) + length ts - 1))"
proof (induction w ts p r rule: send_mints.induct)
  case (1 w p r) then show ?case by (auto simp: mint_events_def)
next
  case (2 w t ts p r)
  obtain i p1 where l: "linkInputs w p = (i, p1)" by fastforce
  obtain res r1 where q: "sendStakeAction w MINT (Some t) i p1 r = (res, r1)" by fastforce
  then obtain p2 where p2: "res = Inr p2" and rest: "send_mints w ts p2 r1 = (Inr p', r')"
    using 2(2) by (cases res) (simp_all add: l)
  obtain ans where a: "w_submit w (length (pg_sent p1)) = Inr ans" "submits r1 = submits r @ [Submit MINT (Some t) i]"
    "pg_prev p2 = Some (sb_txid ans)" "pg_sent p2 = pg_sent p1 @ [(MINT, sb_txid ans)]" "pg_chain p2 = pg_chain p1"
    "pg_broken p2 = (pg_broken p1 \<or> (pg_chain p1 \<and> pg_prev p1 \<noteq> None \<and> the (pg_prev p1) \<notin> set (sb_spent ans)))"
    using send_sends(2) [OF q p2] by blast
  note lp = link_parts [OF l]
  obtain ins where ins: "length ins = length ts" "submits r' = submits r1 @ mint_events ts ins"
    "pg_chain p' = pg_chain p2" "pg_broken p2 \<longrightarrow> pg_broken p'"
    "\<not> pg_broken p' \<and> pg_chain p2 \<longrightarrow> chained w (pg_prev p2) (length (pg_sent p2)) ins"
    "length (pg_sent p') = length (pg_sent p2) + length ts"
    "pg_prev p' = (if ts = [] then pg_prev p2 else txid_of w (length (pg_sent p2) + length ts - 1))"
    using 2(1) [OF l [symmetric] q [symmetric] p2 rest] by blast
  have prev: "pg_prev p' = txid_of w (length (pg_sent p) + length ts)"
    using ins(7) a(1,3,4) lp(1) by (cases "ts = []") (simp_all add: txid_of_def)
  have chain: "chained w (pg_prev p) (length (pg_sent p)) (i # ins)" if "\<not> pg_broken p'" "pg_chain p"
    using that ins(3-5) a lp by auto
  show ?case
    using ins(1-4,6) a lp prev chain by (intro exI [of _ "i # ins"]) (auto simp: mint_events_def)
qed

lemma chained_txid: "chained w prev n ins \<Longrightarrow> m < length ins \<Longrightarrow> txid_of w (n + m) \<noteq> None"
proof (induction w prev n ins arbitrary: m rule: chained.induct)
  case (2 w prev n i "is")
  then show ?case by (cases m) (fastforce simp: txid_of_def split: sum.splits)+
qed simp

lemma finish_sends:
  assumes "finishStake w amount i p r = (res, r')"
  shows "submits r' = submits r \<or> submits r' = submits r @ [Submit STAKE (Some (number_text amount)) i]"
proof -
  obtain res1 r1 where q: "sendStakeAction w STAKE (Some (number_text amount)) i p r = (res1, r1)" by fastforce
  then have "r' = r1" using assms by (cases res1) (simp_all add: finishStake_def)
  then show ?thesis using send_sends(1) [OF q] by simp
qed

lemma send_mints_only: "set (submits (snd (send_mints w ts p r))) \<subseteq> set (submits r) \<union> {e. \<exists>a i. e = Submit MINT a i}"
proof (induction w ts p r rule: send_mints.induct)
  case (2 w t ts p r)
  obtain i p1 where l: "linkInputs w p = (i, p1)" by fastforce
  obtain res r1 where q: "sendStakeAction w MINT (Some t) i p1 r = (res, r1)" by fastforce
  then have "set (submits r1) \<subseteq> set (submits r) \<union> {e. \<exists>a i. e = Submit MINT a i}"
    using send_sends(1) [OF q] by auto
  then show ?case using 2(1) [OF l [symmetric] q [symmetric]] by (cases res) (auto simp: l q)
qed auto

text \<open>The ways a broadcast reaches its STAKE.\<close>

lemma broadcast_order:
  assumes run: "broadcastStake w serialize amount plan r = (res, r')" "submits r = []"
    and stake: "Submit STAKE a i \<in> set (submits r')"
  shows "\<exists>ts ins. map mintAmountText (mp_mints plan) = map Some ts \<and> length ins = length ts
     \<and> submits r' = mint_events ts ins @ [Submit STAKE (Some (number_text amount)) i]
     \<and> (ts = [] \<or> waitForBalance amount (w_balance w)
         \<or> \<not> serialize \<and> chained w None 0 ins \<and> funded (txid_of w (length ts - 1)) i \<and> txid_of w (length ts - 1) \<noteq> None)"
proof -
  let ?ts = "map the (map mintAmountText (mp_mints plan))"
  have texts: "None \<notin> set (map mintAmountText (mp_mints plan))"
    using assms by (auto simp: broadcastStake_def Let_def)
  then have ts: "map mintAmountText (mp_mints plan) = map Some ?ts"
    by (simp add: map_eq_conv) (metis (no_types, lifting) imageI option.collapse)
  obtain res1 r1 where m: "send_mints w ?ts (start_progress serialize) r = (res1, r1)" by fastforce
  have only: "Submit STAKE a i \<notin> set (submits r1)"
    using send_mints_only [of w ?ts "start_progress serialize" r] m run(2) by auto
  obtain p where p: "res1 = Inr p"
    using run(1) stake only m texts by (cases res1) (auto simp: broadcastStake_def Let_def)
  obtain ins where ins: "length ins = length ?ts" "submits r1 = mint_events ?ts ins" "pg_chain p = (\<not> serialize)"
    "\<not> pg_broken p \<and> \<not> serialize \<longrightarrow> chained w None 0 ins"
    "pg_prev p = (if ?ts = [] then None else txid_of w (length ?ts - 1))"
    using send_mints_chain [OF m [unfolded p]] unfolding start_progress_simps run(2) list.size add_0 append_Nil by blast
  obtain i1 p1 where l: "(if pg_broken p then (None, p) else linkInputs w p) = (i1, p1)" by fastforce
  have lp: "pg_prev p1 = pg_prev p" "pg_chain p1 = pg_chain p" "\<not> pg_broken p1 \<Longrightarrow> \<not> pg_broken p"
    "\<not> pg_broken p1 \<Longrightarrow> pg_chain p \<Longrightarrow> funded (pg_prev p) i1"
    using l link_parts [of w p i1 p1] by (auto split: if_splits)
  show ?thesis
  proof (cases "mp_mints plan \<noteq> [] \<and> (pg_broken p1 \<or> serialize)")
    case True
    then have fin: "waitForBalance amount (w_balance w)"
      "finishStake w amount None (p1\<lparr>pg_prev := None\<rparr>) (release r1) = (res, r')"
      using run(1) stake only texts m p l
      by (auto simp: broadcastStake_def Let_def split: if_splits)
    then have "submits r' = mint_events ?ts ins @ [Submit STAKE (Some (number_text amount)) None]"
      using finish_sends [OF fin(2)] stake only ins(2) by auto
    then show ?thesis using stake only fin(1) ts ins(1,2) by (intro exI [of _ ?ts] exI [of _ ins]) auto
  next
    case False
    then have fin: "finishStake w amount i1 p1 r1 = (res, r')"
      using run(1) texts m p l by (auto simp: broadcastStake_def Let_def split: if_splits)
    then have sub: "submits r' = mint_events ?ts ins @ [Submit STAKE (Some (number_text amount)) i1]"
      using finish_sends [OF fin] stake only ins(2) by auto
    then have "i = i1" using stake only ins(2) by auto
    moreover have "?ts \<noteq> [] \<Longrightarrow> \<not> pg_broken p1 \<and> \<not> serialize" using False by auto
    moreover have "txid_of w (length ?ts - 1) \<noteq> None" if "chained w None 0 ins" "?ts \<noteq> []"
      using chained_txid [OF that(1), of "length ?ts - 1"] that(2) ins(1) by simp
    ultimately show ?thesis
      using sub ts ins lp by (intro exI [of _ ?ts] exI [of _ ins]) auto
  qed
qed

text \<open>A run that submitted anything went through every guard.\<close>

lemma plan_submits:
  assumes run: "planAndStake ex w ss raw broadcast serialize r = (res, r')" and sub: "submits r = []" "submits r' \<noteq> []"
  obtains amount timing st r1 res1 where "broadcast" "resolveStakeAmount raw = Some amount"
    "stakeTiming (ss_coins ss) (ss_network ss) = Some timing" "readChainState ex ss (tm_cooldown timing) = Inr st"
    "kh_existing (st_holders st) = None" "kh_delegated (st_holders st) = None"
    "stakeBlockers st (planMints (ss_network ss) (st_tokenBal st) amount (st_mint st)) = []"
    "submits r1 = []"
    "broadcastStake w serialize amount (planMints (ss_network ss) (st_tokenBal st) amount (st_mint st)) r1 = (res1, r')"
proof -
  obtain ok r1 where h: "hold (w_grant w) r = (ok, r1)" by fastforce
  have r1: "submits r1 = []" using submits_hold [OF h] sub by simp
  show thesis
    using run sub r1 h that [OF _ _ _ _ _ _ _ r1]
    by (cases ok) (auto simp: planAndStake_def Let_def split: option.splits sum.splits if_splits prod.splits)
qed

text \<open>
  C15. When a broadcast submits its STAKE, it has submitted every planned MINT before it, with
  the planned amounts and in order, and nothing else; and if there were MINTs, then either
  the whole chain holds (each action spends an output of the one before it, the STAKE only
  outputs of the last MINT), or the address was seen to hold the stake amount first.
\<close>

theorem stake_follows_its_mints:
  assumes "broadcastStake w serialize amount plan r = (res, r')" "submits r = []" "Submit STAKE a i \<in> set (submits r')"
  shows "\<exists>ts ins. map mintAmountText (mp_mints plan) = map Some ts \<and> length ins = length ts
     \<and> submits r' = mint_events ts ins @ [Submit STAKE (Some (number_text amount)) i]
     \<and> (ts = [] \<or> waitForBalance amount (w_balance w)
         \<or> \<not> serialize \<and> chained w None 0 ins \<and> funded (txid_of w (length ts - 1)) i \<and> txid_of w (length ts - 1) \<noteq> None)"
  using assms by (rule broadcast_order)

definition demo_utxo :: json where
  "demo_utxo = JObj [(''txid'', JStr ''m1'')]"

definition demo_world :: world where
  "demo_world = \<lparr>w_grant = (\<lambda>_. True), w_utxos = (\<lambda>_. [Inl ''timeout'', Inr (JObj [(''utxos'', JArr [JObj [], demo_utxo])])]),
     w_submit = (\<lambda>n. Inr \<lparr>sb_txid = (if n = 0 then ''m1'' else ''s1''), sb_spent = [''m1''], sb_waiting = n = 1\<rparr>), w_balance = []\<rparr>"

definition demo_plan :: mint_plan where
  "demo_plan = \<lparr>mp_short = Some (Fin 1), mp_mints = [units_number 100000000], mp_reason = None\<rparr>"

lemma demo_text: "mintAmountText (units_number 100000000) = Some (fromUnits 100000000)"
  by (rule mint_text) simp_all

lemma demo_world_simps [simp]:
  "w_grant demo_world n" "w_balance demo_world = []"
  "w_submit demo_world n = Inr \<lparr>sb_txid = (if n = 0 then ''m1'' else ''s1''), sb_spent = [''m1''], sb_waiting = (n = 1)\<rparr>"
  by (simp_all add: demo_world_def)

lemma demo_link: "chainedInputs ''m1'' (w_utxos demo_world n) = Some [demo_utxo]"
  by (simp add: demo_world_def outputs_of_def field_def utxo_txid_def demo_utxo_def)

lemma demo_mints:
  "send_mints demo_world [fromUnits 100000000] (start_progress False) (start_run True)
     = (Inr \<lparr>pg_chain = True, pg_sent = [(MINT, ''m1'')], pg_prev = Some ''m1'', pg_broken = False\<rparr>,
        \<lparr>rn_lock = True, rn_held = True, rn_asked = 1, rn_trace = [Acquired, Submit MINT (Some (fromUnits 100000000)) None]\<rparr>)"
  by (simp add: linkInputs_def sendStakeAction_def hold_def start_run_def log_submit_def Let_def start_progress_def)

lemma demo_broadcast:
  "submits (snd (broadcastStake demo_world False (Fin 25000) demo_plan (start_run True)))
     = [Submit MINT (Some (fromUnits 100000000)) None, Submit STAKE (Some (number_text (Fin 25000))) (Some [demo_utxo])]"
  by (simp add: broadcastStake_def demo_plan_def demo_text demo_mints linkInputs_def demo_link finishStake_def sendStakeAction_def
        hold_def log_submit_def Let_def release_def submits_def del: send_mints.simps number_text.simps)

theorem stake_follows_its_mints_witness:
  "\<exists>ts ins. [Some (fromUnits 100000000)] = map Some ts \<and> chained demo_world None 0 ins
     \<and> funded (txid_of demo_world (length ts - 1)) (Some [demo_utxo])"
proof -
  have "map mintAmountText (mp_mints demo_plan) = [Some (fromUnits 100000000)]" by (simp add: demo_plan_def demo_text)
  moreover have "Submit STAKE (Some (number_text (Fin 25000))) (Some [demo_utxo])
      \<in> set (submits (snd (broadcastStake demo_world False (Fin 25000) demo_plan (start_run True))))"
    unfolding demo_broadcast by simp
  from stake_follows_its_mints [OF surjective_pairing submits_start this]
  obtain ts ins where t: "map mintAmountText (mp_mints demo_plan) = map Some ts"
    "ts = [] \<or> waitForBalance (Fin 25000) (w_balance demo_world) \<or> chained demo_world None 0 ins
       \<and> funded (txid_of demo_world (length ts - 1)) (Some [demo_utxo])" by blast
  ultimately show ?thesis by (intro exI [of _ ts] exI [of _ ins]) auto
qed

text \<open>
  C14. Nothing leaves a stake run that the chain would refuse after the fees are spent: when
  any transaction is submitted, and the explorer serves its tables and reports the tip, the
  run was a broadcast, the signing key is free over the whole validator set and every
  delegation, the stake address is awake, a positive confirmed coin balance was read, and
  the plan had no reason to stop.
\<close>

theorem stake_only_when_admissible:
  assumes run: "stakeValidator ex w ss rawAmount broadcast serialize = (res, r)" "submits r \<noteq> []"
    and stakes: "served PAGE_LIMIT stakes (ex_validators ex)" "length stakes \<le> MAX_PAGES * PAGE_LIMIT"
    and delegations: "served PAGE_LIMIT delegations (ex_delegations ex)" "length delegations \<le> MAX_PAGES * PAGE_LIMIT"
    and sleeps: "served PAGE_LIMIT sleeps (ex_sleeps ex)" "length sleeps \<le> MAX_PAGES * PAGE_LIMIT"
    and tips: "\<And>phase. readTip (ex_status ex phase) (cn_stakeCoin (ss_coins ss)) = Inr t"
  shows "broadcast \<and> (\<exists>timing st. stakeTiming (ss_coins ss) (ss_network ss) = Some timing
       \<and> readChainState ex ss (tm_cooldown timing) = Inr st
       \<and> key_free stakes delegations (ss_pubkey ss) (stakeKeyReuseHeight (ss_network ss) (stakeCoin (ss_coins ss)))
           (tm_cooldown timing) (t + 1)
       \<and> awake sleeps (ss_address ss) (t + 1)
       \<and> (\<exists>b. st_coinBal st = Some b \<and> \<not> js_le b (Fin 0))
       \<and> (\<exists>amount. resolveStakeAmount rawAmount = Some amount
            \<and> mp_reason (planMints (ss_network ss) (st_tokenBal st) amount (st_mint st)) = None))"
proof -
  obtain r0 where r0: "planAndStake ex w ss rawAmount broadcast serialize (start_run broadcast) = (res, r0)" "r = release r0"
    using run(1) by (auto simp: stakeValidator_def split: prod.splits)
  have "submits (start_run broadcast) = []" "submits r0 \<noteq> []"
    using run(2) r0(2) by simp_all
  then obtain amount timing st where st: "broadcast" "resolveStakeAmount rawAmount = Some amount"
    "stakeTiming (ss_coins ss) (ss_network ss) = Some timing" "readChainState ex ss (tm_cooldown timing) = Inr st"
    "kh_existing (st_holders st) = None" "kh_delegated (st_holders st) = None"
    "stakeBlockers st (planMints (ss_network ss) (st_tokenBal st) amount (st_mint st)) = []"
    using plan_submits [OF r0(1)] by metis
  have parts: "st_holders st = readKeyHolders (ex_validators ex) (ex_delegations ex)
        (readTip (ex_status ex KeyPhase) (cn_stakeCoin (ss_coins ss))) (ss_pubkey ss) (ss_network ss) (ss_coins ss) (tm_cooldown timing)"
    "st_sleep st = readSleepState (Inr t) (ex_sleeps ex) (ss_address ss)"
    using st(4) tips by (auto simp: readChainState_def Let_def split: sum.splits read_error.splits)
  have clear: "mp_reason (planMints (ss_network ss) (st_tokenBal st) amount (st_mint st)) = None"
    "kh_delegationUnknown (st_holders st) = None" "kh_existingUnknown (st_holders st) = None"
    "stakeSleepBlocker (st_sleep st) = None" "\<exists>b. st_coinBal st = Some b \<and> \<not> js_le b (Fin 0)"
    using st(7) by (auto simp: stakeBlockers_def opt_list_def split: option.splits if_splits)
  have "says_free (st_holders st)" using st(5,6) clear(2,3) by (simp add: says_free_def)
  then have "key_free stakes delegations (ss_pubkey ss) (stakeKeyReuseHeight (ss_network ss) (stakeCoin (ss_coins ss)))
      (tm_cooldown timing) (t + 1)"
    unfolding parts(1) using key_reads_refine_tables [OF stakes delegations tips] by simp
  moreover have "awake sleeps (ss_address ss) (t + 1)"
    using clear(4) sleep_blocker_awake [OF sleeps] by (simp add: parts(2))
  ultimately show ?thesis using st clear by blast
qed

definition demo_session :: session where
  "demo_session = \<lparr>ss_network = ''testnet'', ss_coins = demo_coins, ss_pubkey = ''ab'', ss_address = ''addr''\<rparr>"

definition demo_explorer :: explorer where
  "demo_explorer = \<lparr>
     ex_address = Inr (JObj [(''balances'', JObj [(''confirmed'', JNum (Fin 1))])]),
     ex_balances = (\<lambda>_. Inr (JObj [(''data'', JArr [JObj [(''tick'', JStr ''XCHAIN''), (''amount'', JNum (Fin 30000))]])])),
     ex_token = Inr (JObj []),
     ex_status = (\<lambda>_. demo_status),
     ex_mints = serve PAGE_LIMIT [], ex_validators = serve PAGE_LIMIT [], ex_delegations = serve PAGE_LIMIT [],
     ex_sleeps = serve PAGE_LIMIT []\<rparr>"

lemma demo_explorer_simps:
  "ex_address demo_explorer = Inr (JObj [(''balances'', JObj [(''confirmed'', JNum (Fin 1))])])"
  "ex_token demo_explorer = Inr (JObj [])" "ex_status demo_explorer phase = demo_status"
  "ex_validators demo_explorer = serve PAGE_LIMIT []" "ex_delegations demo_explorer = serve PAGE_LIMIT []"
  "ex_sleeps demo_explorer = serve PAGE_LIMIT []"
  by (simp_all add: demo_explorer_def)

lemma demo_coin [simp]: "cn_stakeCoin demo_coins = ''TBTC''"
  by (simp add: demo_coins_def COIN_NETWORKS_def)

lemma demo_timing: "\<exists>timing. stakeTiming demo_coins ''testnet'' = Some timing"
  by (simp add: stakeTiming_def demo_coins_def COIN_NETWORKS_def full_name_def getCoinConfigByFullName_def shipped_full_names
      shipped_testnet_config)

lemma demo_row: "readTokenRow (ex_balances demo_explorer) STAKE_TICK = Inr (Some (JObj [(''tick'', JStr ''XCHAIN''), (''amount'', JNum (Fin 30000))]))"
  by (simp add: readTokenRow_def sweep_balance.simps BALANCE_MAX_PAGES_def demo_explorer_def page_rows_def field_def STAKE_TICK_def)

lemma demo_doubles: "Number (JNum (Fin 1)) = Fin 1" "Number (JNum (Fin 30000)) = Fin 30000"
  using dbl_nat [of 1] dbl_nat [of 30000] by (simp_all add: Number_def to_num_def double_limit_def)

lemma demo_empty: "readValidatorSet (serve PAGE_LIMIT []) = Inr []" "readDelegationsByPubkey (serve PAGE_LIMIT []) k = Inr []"
  "readSleepRows (serve PAGE_LIMIT []) = Inr []"
proof -
  show "readValidatorSet (serve PAGE_LIMIT []) = Inr []" by (rule set_pages.exact [OF serve_served]) simp_all
  show s: "readSleepRows (serve PAGE_LIMIT []) = Inr []" by (rule row_pages.exact [OF serve_served]) simp_all
  show "readDelegationsByPubkey (serve PAGE_LIMIT []) k = Inr []"
    using s by (simp add: readDelegationsByPubkey_def readSleepRows_def)
qed

lemma demo_state:
  "\<exists>st. readChainState demo_explorer demo_session c = Inr st \<and> st_coinBal st = Some (Fin 1) \<and> st_tokenBal st = Some (Fin 30000)
     \<and> st_holders st = no_holders \<and> st_sleep st = Inr \<lparr>sl_sleeping = False, sl_resumeBlock = None, sl_actionIndex = None\<rparr>"
  by (simp add: readChainState_def demo_row demo_explorer_simps demo_session_def demo_tip nativeBalance_def entity_def field_def demo_doubles num_def Number_opt_def
      readKeyHolders_def stake_part_def demo_empty keyed_def delegationRowsHoldingKey_def no_holders_def readSleepState_def
      readAddressSleep_def judgeAddressSleep_def own_sleeps_def Let_def)

lemma demo_stake_run: "submits (snd (stakeValidator demo_explorer demo_world demo_session None True False)) \<noteq> []"
proof -
  obtain timing where t: "stakeTiming demo_coins ''testnet'' = Some timing" using demo_timing by blast
  obtain st where st: "readChainState demo_explorer demo_session (tm_cooldown timing) = Inr st" "st_coinBal st = Some (Fin 1)"
    "st_tokenBal st = Some (Fin 30000)" "st_holders st = no_holders"
    "st_sleep st = Inr \<lparr>sl_sleeping = False, sl_resumeBlock = None, sl_actionIndex = None\<rparr>"
    using demo_state by blast
  have plan: "planMints ''testnet'' (Some (Fin 30000)) (Fin 25000) (st_mint st) = enough" by (simp add: planMints_def)
  have ss: "ss_network demo_session = ''testnet''" "ss_coins demo_session = demo_coins" by (simp_all add: demo_session_def)
  have blk: "stakeBlockers st enough = []"
    by (simp add: stakeBlockers_def st opt_list_def no_holders_def enough_def stakeSleepBlocker_def sleepRefusal_def)
  have kh: "kh_existing (st_holders st) = None" "kh_delegated (st_holders st) = None" by (simp_all add: st no_holders_def)
  show ?thesis
    unfolding stakeValidator_def planAndStake_def
    by (simp add: resolveStakeAmount_def DEFAULT_STAKE_AMOUNT_def ss t hold_def start_run_def st(1,3) plan blk kh Let_def
        del: number_text.simps)
      (simp add: broadcastStake_def enough_def linkInputs_def start_progress_def finishStake_def sendStakeAction_def hold_def
        log_submit_def submits_def release_def Let_def)
qed

theorem stake_only_when_admissible_witness:
  "\<exists>timing st. stakeTiming demo_coins ''testnet'' = Some timing \<and> readChainState demo_explorer demo_session (tm_cooldown timing) = Inr st
     \<and> (\<exists>b. st_coinBal st = Some b \<and> \<not> js_le b (Fin 0))"
proof -
  have sv: "served PAGE_LIMIT [] (ex_validators demo_explorer)" "served PAGE_LIMIT [] (ex_delegations demo_explorer)"
    "served PAGE_LIMIT [] (ex_sleeps demo_explorer)"
    using serve_served [of "[]" PAGE_LIMIT] by (simp_all add: demo_explorer_simps)
  have tips: "readTip (ex_status demo_explorer phase) (cn_stakeCoin (ss_coins demo_session)) = Inr 156000" for phase
    by (simp add: demo_explorer_simps demo_session_def demo_tip)
  show ?thesis
    using stake_only_when_admissible [OF surjective_pairing demo_stake_run sv(1) _ sv(2) _ sv(3) _ tips]
    by (auto simp: demo_session_def)
qed

end
