(* ===== verification/StakeExit.thy ===== *)
theory StakeExit
  imports StakeRun
begin

text \<open>
  The unstake run (\<open>validator_stake_service/unstake_operations.js\<close>): what an UNSTAKE would
  withdraw, when it is refused, and its one transaction.
\<close>

section \<open>What would be withdrawn\<close>

definition classify_live :: "json list \<Rightarrow> json list" where
  "classify_live rows = filter isUndeactivated rows"

definition admissible_row :: "int \<Rightarrow> json \<Rightarrow> bool" where
  "admissible_row landBlock r = js_le (row_num ''activation_block'' r) (Fin (of_int landBlock))"

text \<open>\<open>classifyUnstakeRows\<close>: the deactivated, admissible and pending rows.\<close>

definition classifyUnstakeRows :: "json list \<Rightarrow> int \<Rightarrow> json list \<times> json list \<times> json list" where
  "classifyUnstakeRows rows landBlock =
     (filter (\<lambda>r. \<not> isUndeactivated r) rows,
      filter (admissible_row landBlock) (classify_live rows),
      filter (\<lambda>r. \<not> admissible_row landBlock r) (classify_live rows))"

fun max_num :: "jsnum \<Rightarrow> jsnum \<Rightarrow> jsnum" where
  "max_num NaN _ = NaN"
| "max_num _ NaN = NaN"
| "max_num a b = (if js_lt a b then b else a)"

record withdrawal =
  wd_amount :: string
  wd_actions :: "string list"
  wd_activation :: string

definition withdrawnStake :: "json list \<Rightarrow> withdrawal" where
  "withdrawnStake admissible = (case admissible of
     [r] \<Rightarrow> \<lparr>wd_amount = opt_String (field r ''amount''), wd_actions = [opt_String (field r ''action_index'')],
              wd_activation = opt_String (field r ''activation_block'')\<rparr>
   | _ \<Rightarrow>
       let total = foldl (\<lambda>s r. dadd s (row_num ''amount'' r)) (Fin 0) admissible in
       \<lparr>wd_amount = (case sumAmounts admissible of
            Some exact \<Rightarrow> exact | None \<Rightarrow> number_text (over_units (round_num (dmul total (Fin UNITS))))),
        wd_actions = map (\<lambda>r. opt_String (field r ''action_index'')) admissible,
        wd_activation = number_text (foldl max_num NInf (map (row_num ''activation_block'') admissible))\<rparr>)"

datatype unstake_error =
    SetUnread read_error
  | OwnerUnknown
  | OwnedBy "string list"
  | TipUnread read_error
  | NotActiveYet jsnum
  | PendingTopUp "json list"
  | OwnerAsleep sleep_refusal

datatype unstake_target =
    NothingStaked
  | AlreadyUnstaking jsnum jsnum
  | Withdraw withdrawal

definition no_owner :: "json \<Rightarrow> bool" where
  "no_owner r = (case field r ''source'' of None \<Rightarrow> True | Some s \<Rightarrow> s = JNull \<or> s = JStr [])"

definition assertOwnsStake :: "json list \<Rightarrow> string \<Rightarrow> unstake_error option" where
  "assertOwnsStake live address =
     (if list_ex no_owner live then Some OwnerUnknown
      else (let owners = filter (\<lambda>a. a \<noteq> address) (remdups (map (\<lambda>r. opt_String (field r ''source'')) live))
            in if owners \<noteq> [] then Some (OwnedBy owners) else None))"

definition assertOwnerAwake :: "fetch \<Rightarrow> string \<Rightarrow> int \<Rightarrow> unstake_error option" where
  "assertOwnerAwake getSleeps address landBlock = (case readAddressSleep getSleeps address landBlock of
     Inl e \<Rightarrow> Some (OwnerAsleep (SleepUnknown e))
   | Inr sleep \<Rightarrow> map_option OwnerAsleep (sleepRefusal sleep))"

definition int_num :: "int option \<Rightarrow> jsnum" where
  "int_num x = (case x of None \<Rightarrow> NaN | Some i \<Rightarrow> Fin (of_int i))"

definition resolveUnstakeTarget :: "explorer \<Rightarrow> session \<Rightarrow> stake_timing \<Rightarrow> unstake_error + unstake_target" where
  "resolveUnstakeTarget ex ss timing = (case readValidatorSet (ex_validators ex) of
     Inl e \<Rightarrow> Inl (SetUnread e)
   | Inr v \<Rightarrow>
       let rows = keyed (ss_pubkey ss) v in
       if rows = [] then Inr NothingStaked
       else if \<not> list_ex isUndeactivated rows
         then (let deact = foldl max_num NInf (map (row_num ''deactivation_block'') rows)
               in Inr (AlreadyUnstaking deact
                    (dadd (js_sub deact (int_num (tm_activation timing))) (int_num (tm_cooldown timing)))))
       else (case assertOwnsStake (classify_live rows) (ss_address ss) of
           Some e \<Rightarrow> Inl e
         | None \<Rightarrow>
             (case readTip (ex_status ex UnstakePhase) (cn_stakeCoin (ss_coins ss)) of
                Inl e \<Rightarrow> Inl (TipUnread e)
              | Inr tip \<Rightarrow>
                  (case classifyUnstakeRows rows (tip + 1) of (deactivated, admissible, pending) \<Rightarrow>
                     if admissible = []
                     then Inl (NotActiveYet (foldl js_min PInf (map (row_num ''activation_block'') pending)))
                     else if pending \<noteq> [] then Inl (PendingTopUp pending)
                     else (case assertOwnerAwake (ex_sleeps ex) (ss_address ss) (tip + 1) of
                         Some e \<Rightarrow> Inl e | None \<Rightarrow> Inr (Withdraw (withdrawnStake admissible)))))))"

section \<open>The run\<close>

datatype unstake_result =
    UnstakeNoTiming
  | UnstakeLockHeld
  | UnstakeRefused unstake_error
  | UnstakeDone unstake_target
  | UnstakeDryRun withdrawal
  | UnstakeFailed string
  | Unstaked string

definition planAndUnstake :: "explorer \<Rightarrow> world \<Rightarrow> session \<Rightarrow> bool \<Rightarrow> run \<Rightarrow> unstake_result \<times> run" where
  "planAndUnstake ex w ss broadcast r =
     (case stakeTiming (ss_coins ss) (ss_network ss) of
        None \<Rightarrow> (UnstakeNoTiming, r)
      | Some timing \<Rightarrow>
         (case hold (w_grant w) r of
            (False, r1) \<Rightarrow> (UnstakeLockHeld, r1)
          | (True, r1) \<Rightarrow>
             (case resolveUnstakeTarget ex ss timing of
                Inl e \<Rightarrow> (UnstakeRefused e, r1)
              | Inr (Withdraw active) \<Rightarrow>
                  if \<not> broadcast then (UnstakeDryRun active, r1)
                  else (let r2 = log_submit UNSTAKE None None r1 in
                        case w_submit w 0 of
                          Inl e \<Rightarrow> (UnstakeFailed e, r2)
                        | Inr a \<Rightarrow> (Unstaked (sb_txid a), if sb_waiting a then release r2 else r2))
              | Inr done_target \<Rightarrow> (UnstakeDone done_target, r1))))"

definition unstakeValidator :: "explorer \<Rightarrow> world \<Rightarrow> session \<Rightarrow> bool \<Rightarrow> unstake_result \<times> run" where
  "unstakeValidator ex w ss broadcast =
     (case planAndUnstake ex w ss broadcast (start_run broadcast) of (res, r) \<Rightarrow> (res, release r))"

section \<open>A full exit or nothing\<close>

lemma owns_all: "assertOwnsStake live address = None \<Longrightarrow> r \<in> set live \<Longrightarrow> opt_String (field r ''source'') = address"
  by (auto simp: assertOwnsStake_def Let_def filter_empty_conv split: if_splits)

lemma withdraw_parts:
  assumes "resolveUnstakeTarget ex ss timing = Inr (Withdraw active)"
    and "readValidatorSet (ex_validators ex) = Inr stakes"
    and "readTip (ex_status ex UnstakePhase) (cn_stakeCoin (ss_coins ss)) = Inr t"
  shows "list_ex isUndeactivated (keyed (ss_pubkey ss) stakes)"
    "\<And>r. r \<in> set (keyed (ss_pubkey ss) stakes) \<Longrightarrow> isUndeactivated r \<Longrightarrow>
        opt_String (field r ''source'') = ss_address ss \<and> admissible_row (t + 1) r"
    "assertOwnerAwake (ex_sleeps ex) (ss_address ss) (t + 1) = None"
    "active = withdrawnStake (classify_live (keyed (ss_pubkey ss) stakes))"
proof -
  let ?rows = "keyed (ss_pubkey ss) stakes"
  have live: "list_ex isUndeactivated ?rows"
    and own: "assertOwnsStake (classify_live ?rows) (ss_address ss) = None"
    and all: "filter (\<lambda>r. \<not> admissible_row (t + 1) r) (classify_live ?rows) = []"
    and awake: "assertOwnerAwake (ex_sleeps ex) (ss_address ss) (t + 1) = None"
    and act: "active = withdrawnStake (filter (admissible_row (t + 1)) (classify_live ?rows))"
    using assms(1)
    by (auto simp: resolveUnstakeTarget_def assms(2,3) Let_def classifyUnstakeRows_def split: if_splits option.splits)
  have adm: "admissible_row (t + 1) r" if "r \<in> set (classify_live ?rows)" for r
    using all that by (auto simp: filter_empty_conv)
  show "list_ex isUndeactivated ?rows" by (rule live)
  show "opt_String (field r ''source'') = ss_address ss \<and> admissible_row (t + 1) r"
    if "r \<in> set ?rows" "isUndeactivated r" for r
    using that owns_all [OF own] adm by (simp add: classify_live_def)
  show "assertOwnerAwake (ex_sleeps ex) (ss_address ss) (t + 1) = None" by (rule awake)
  show "active = withdrawnStake (classify_live ?rows)"
    unfolding act using adm by (simp add: filter_id_conv)
qed

lemma awake_owner:
  assumes "served PAGE_LIMIT sleeps getSleeps" "length sleeps \<le> MAX_PAGES * PAGE_LIMIT"
    and "assertOwnerAwake getSleeps address l = None"
  shows "awake sleeps address l"
  using assms(3) row_pages.exact [OF assms(1,2)]
  by (auto simp: assertOwnerAwake_def readAddressSleep_def judgeAddressSleep_def sleepRefusal_def awake_def Let_def
      split: option.splits if_splits)

lemma unstake_locked: "locked_run r \<Longrightarrow> locked_run (snd (planAndUnstake ex w ss broadcast r))"
proof -
  assume r: "locked_run r"
  obtain ok r1 where h: "hold (w_grant w) r = (ok, r1)" by fastforce
  have r1: "locked_run r1" "ok \<Longrightarrow> locked_run (log_submit UNSTAKE None None r1)"
    using hold_locked [OF r h] submit_locked by auto
  show ?thesis
    using r r1 by (cases ok) (auto simp: planAndUnstake_def h Let_def release_locked
        split: option.split sum.split unstake_target.split)
qed

lemma unstake_submits:
  assumes run: "planAndUnstake ex w ss broadcast r = (res, r')" and sub: "submits r = []" "submits r' \<noteq> []"
  obtains timing active where "broadcast" "stakeTiming (ss_coins ss) (ss_network ss) = Some timing"
    "resolveUnstakeTarget ex ss timing = Inr (Withdraw active)" "submits r' = [Submit UNSTAKE None None]"
proof -
  obtain ok r1 where h: "hold (w_grant w) r = (ok, r1)" by fastforce
  have r1: "submits r1 = []" using submits_hold [OF h] sub by simp
  show thesis
    using run sub r1 h that
    by (cases ok) (auto simp: planAndUnstake_def Let_def split: option.splits sum.splits unstake_target.splits if_splits)
qed

text \<open>
  C17. An unstake run submits at most one UNSTAKE, under the command lock, which it hands
  back. When it submits one, and the explorer serves its tables and tells the tip, the run
  was a broadcast and the exit is whole: the key has stake, every row of it that is not yet
  withdrawn belongs to the signing address and is active at the next block, and the address
  is awake there.
\<close>

theorem unstake_is_a_full_exit:
  assumes run: "unstakeValidator ex w ss broadcast = (res, r)" "submits r \<noteq> []"
    and stakes: "served PAGE_LIMIT stakes (ex_validators ex)" "length stakes \<le> MAX_PAGES * PAGE_LIMIT"
    and sleeps: "served PAGE_LIMIT sleeps (ex_sleeps ex)" "length sleeps \<le> MAX_PAGES * PAGE_LIMIT"
    and tip: "readTip (ex_status ex UnstakePhase) (cn_stakeCoin (ss_coins ss)) = Inr t"
  shows "broadcast \<and> submits r = [Submit UNSTAKE None None] \<and> sends_locked False (rn_trace r) \<and> \<not> rn_held r
    \<and> list_ex isUndeactivated (keyed (ss_pubkey ss) stakes)
    \<and> (\<forall>row \<in> set (keyed (ss_pubkey ss) stakes). isUndeactivated row \<longrightarrow>
         opt_String (field row ''source'') = ss_address ss
         \<and> js_le (row_num ''activation_block'' row) (Fin (of_int (t + 1))))
    \<and> awake sleeps (ss_address ss) (t + 1)"
proof -
  obtain r0 where r0: "planAndUnstake ex w ss broadcast (start_run broadcast) = (res, r0)" "r = release r0"
    using run(1) by (auto simp: unstakeValidator_def split: prod.splits)
  obtain timing active where u: "broadcast" "resolveUnstakeTarget ex ss timing = Inr (Withdraw active)"
    "submits r0 = [Submit UNSTAKE None None]"
    using unstake_submits [OF r0(1)] run(2) r0(2) by (metis submits_release submits_start)
  have "locked_run (start_run broadcast)" using u(1) by (simp add: locked_run_def start_run_def)
  then have "locked_run r" using unstake_locked release_locked r0 by (metis snd_conv)
  moreover note parts = withdraw_parts [OF u(2) set_pages.exact [OF stakes] tip]
  moreover have "awake sleeps (ss_address ss) (t + 1)" by (rule awake_owner [OF sleeps parts(3)])
  ultimately show ?thesis
    using u r0(2) by (auto simp: locked_run_def admissible_row_def)
qed

definition demo_live :: json where
  "demo_live = JObj [(''status'', JStr ''valid''), (''signing_pubkey'', JStr ''ab''), (''source'', JStr ''addr''),
     (''amount'', JStr ''25000''), (''action_index'', JNum (Fin 7)), (''activation_block'', JNum (Fin 150000))]"

definition demo_exit :: explorer where
  "demo_exit = demo_explorer\<lparr>ex_validators := serve PAGE_LIMIT [demo_live]\<rparr>"

lemma demo_exit_simps:
  "ex_validators demo_exit = serve PAGE_LIMIT [demo_live]" "ex_sleeps demo_exit = serve PAGE_LIMIT []"
  "ex_status demo_exit phase = demo_status"
  by (simp_all add: demo_exit_def demo_explorer_simps)

lemma demo_set: "readValidatorSet (serve PAGE_LIMIT [demo_live]) = Inr [demo_live]"
  by (rule set_pages.exact [OF serve_served]) (simp_all add: PAGE_LIMIT_def MAX_PAGES_def)

lemma demo_exit_row:
  "keyed ''ab'' [demo_live] = [demo_live]" "isUndeactivated demo_live" "admissible_row 156001 demo_live"
  "field demo_live ''source'' = Some (JStr ''addr'')"
proof -
  have "row_key demo_live = ''ab''"
    by (simp add: row_key_def demo_live_def field_def opt_String_def) code_simp
  then show "keyed ''ab'' [demo_live] = [demo_live]"
    by (simp add: keyed_def row_valid_def) (simp add: demo_live_def field_def)
  show "isUndeactivated demo_live" "admissible_row 156001 demo_live" "field demo_live ''source'' = Some (JStr ''addr'')"
    using demo_numbers
    by (simp_all add: isUndeactivated_def admissible_row_def row_num_def Number_opt_def Number_def to_num_def double_limit_def
        demo_live_def field_def)
qed

lemma demo_withdraw: "\<exists>a. resolveUnstakeTarget demo_exit demo_session timing = Inr (Withdraw a)"
proof -
  have "assertOwnsStake [demo_live] ''addr'' = None"
    by (simp add: assertOwnsStake_def no_owner_def demo_exit_row(4) opt_String_def)
  moreover have "assertOwnerAwake (serve PAGE_LIMIT []) ''addr'' 156001 = None"
    by (simp add: assertOwnerAwake_def readAddressSleep_def demo_empty judgeAddressSleep_def own_sleeps_def sleepRefusal_def)
  ultimately show ?thesis
    by (simp add: resolveUnstakeTarget_def demo_exit_simps demo_set demo_session_def demo_exit_row demo_tip classify_live_def
        classifyUnstakeRows_def)
qed

lemma demo_unstake: "submits (snd (unstakeValidator demo_exit demo_world demo_session True)) \<noteq> []"
proof -
  obtain timing where t: "stakeTiming demo_coins ''testnet'' = Some timing" using demo_timing by blast
  obtain a where "resolveUnstakeTarget demo_exit demo_session timing = Inr (Withdraw a)" using demo_withdraw by blast
  moreover have "ss_network demo_session = ''testnet''" "ss_coins demo_session = demo_coins" by (simp_all add: demo_session_def)
  ultimately show ?thesis
    using t by (simp add: unstakeValidator_def planAndUnstake_def hold_def start_run_def log_submit_def submits_def release_def Let_def)
qed

theorem unstake_is_a_full_exit_witness:
  "submits (snd (unstakeValidator demo_exit demo_world demo_session True)) = [Submit UNSTAKE None None]
   \<and> awake [] ''addr'' (156000 + 1)"
proof -
  have sv: "served PAGE_LIMIT [demo_live] (ex_validators demo_exit)" "served PAGE_LIMIT [] (ex_sleeps demo_exit)"
    using serve_served [of "[]" PAGE_LIMIT] serve_served [of "[demo_live]" PAGE_LIMIT] by (simp_all add: demo_exit_simps)
  have tip: "readTip (ex_status demo_exit UnstakePhase) (cn_stakeCoin (ss_coins demo_session)) = Inr 156000"
    by (simp add: demo_exit_simps demo_session_def demo_tip)
  show ?thesis
    using unstake_is_a_full_exit [OF surjective_pairing demo_unstake sv(1) _ sv(2) _ tip]
    by (simp add: PAGE_LIMIT_def MAX_PAGES_def demo_session_def)
qed

end
