(* ===== verification/JsPretty.thy ===== *)
theory JsPretty
  imports CoinText
begin

text \<open>
  The text of \<open>JSON.stringify(v, null, 2)\<close>, which is how the services write the files they
  read back with \<open>JSON.parse\<close>: parsing it gives the value back.
\<close>

section \<open>The indented text\<close>

definition newline :: "nat \<Rightarrow> string" where
  "newline i = CHR 0x0A # replicate i (CHR '' '')"

fun sep_join :: "string \<Rightarrow> string list \<Rightarrow> string" where
  "sep_join sep [] = []"
| "sep_join sep [x] = x"
| "sep_join sep (x # y # xs) = x @ sep @ sep_join sep (y # xs)"

text \<open>\<open>i\<close> is the indentation of the line the value starts on.\<close>

fun pretty :: "nat \<Rightarrow> json \<Rightarrow> string" where
  "pretty i JNull = ''null''"
| "pretty i (JBool b) = bool_text b"
| "pretty i (JNum n) = json_number n"
| "pretty i (JStr s) = json_string s"
| "pretty i (JArr vs) = (if vs = [] then ''[]'' else
     CHR ''['' # newline (i + 2) @ sep_join (CHR '','' # newline (i + 2)) (map (pretty (i + 2)) vs) @ newline i @ [CHR '']''])"
| "pretty i (JObj fs) = (if fs = [] then [CHR 0x7B, CHR 0x7D] else
     CHR 0x7B # newline (i + 2) @ sep_join (CHR '','' # newline (i + 2))
        (map (\<lambda>kv. json_string (fst kv) @ '': '' @ pretty (i + 2) (snd kv)) fs) @ newline i @ [CHR 0x7D])"

section \<open>White space\<close>

definition blank :: "string \<Rightarrow> bool" where
  "blank ws = list_all json_ws ws"

lemma blank_newline [simp]: "blank (newline i)"
  by (simp add: blank_def newline_def json_ws_def list_all_iff)

lemma skip_ws_blank: "blank ws \<Longrightarrow> skip_ws (ws @ s) = skip_ws s"
  by (induction ws) (simp_all add: blank_def skip_ws_def)

lemma parse_value_blank: "blank ws \<Longrightarrow> parse_value n (ws @ s) = parse_value n s"
  by (cases n) (simp_all add: skip_ws_blank)

lemma next_is_blank: "blank ws \<Longrightarrow> next_is d (ws @ s) = next_is d s"
  by (simp add: next_is_def skip_ws_blank)

lemma parse_key_blank: "blank ws \<Longrightarrow> parse_key (ws @ s) = parse_key s"
  by (simp add: parse_key_def next_is_blank)

lemma delim_blank: "blank ws \<Longrightarrow> delim r \<Longrightarrow> delim (ws @ r)"
  by (cases ws) (auto simp: blank_def delim_def)

lemma parse_value_reads:
  "reads s v \<Longrightarrow> blank ws \<Longrightarrow> delim r \<Longrightarrow> 2 * length (s @ r) < n \<Longrightarrow> parse_value n (ws @ s @ r) = Some (v, r)"
  by (simp add: parse_value_blank reads_def)

section \<open>Arrays and objects\<close>

lemma reads_spaced_elems:
  assumes "list_all (\<lambda>sv. reads (fst sv) (snd sv)) svs" "svs \<noteq> []" "blank ws0" "blank ws" "blank ws1"
    and "2 * length (sep_join (CHR '','' # ws) (map fst svs) @ ws1 @ CHR '']'' # r) + 1 < n"
  shows "parse_elems n (ws0 @ sep_join (CHR '','' # ws) (map fst svs) @ ws1 @ CHR '']'' # r) = Some (map snd svs, r)"
  using assms
proof (induction svs arbitrary: n ws0)
  case (Cons a svs)
  obtain m where n: "n = Suc m" using Cons.prems(6) by (cases n) auto
  show ?case
  proof (cases svs)
    case Nil
    have "parse_value m (ws0 @ fst a @ ws1 @ CHR '']'' # r) = Some (snd a, ws1 @ CHR '']'' # r)"
      using Cons.prems Nil n by (intro parse_value_reads delim_blank) (auto simp: delim_def)
    then show ?thesis using Nil n Cons.prems(5) by (simp add: next_is_blank)
  next
    case (Cons b rest)
    let ?tl = "sep_join (CHR '','' # ws) (map fst svs) @ ws1 @ CHR '']'' # r"
    have tx: "sep_join (CHR '','' # ws) (map fst (a # svs)) @ ws1 @ CHR '']'' # r = fst a @ CHR '','' # ws @ ?tl"
      using Cons by simp
    have "parse_value m (ws0 @ fst a @ CHR '','' # ws @ ?tl) = Some (snd a, CHR '','' # ws @ ?tl)"
      using Cons.prems n unfolding tx by (intro parse_value_reads) (auto simp: delim_def)
    moreover have "parse_elems m (ws @ ?tl) = Some (map snd svs, r)"
      using Cons.prems n Cons unfolding tx by (intro Cons.IH) auto
    ultimately show ?thesis using n tx by simp
  qed
qed simp

lemma reads_spaced_array:
  assumes "list_all (\<lambda>sv. reads (fst sv) (snd sv) \<and> value_start (fst sv)) svs" "svs \<noteq> []" "blank ws" "blank ws1"
  shows "reads (CHR ''['' # ws @ sep_join (CHR '','' # ws) (map fst svs) @ ws1 @ [CHR '']'']) (JArr (map snd svs))"
  unfolding reads_def
proof (intro allI impI)
  let ?j = "sep_join (CHR '','' # ws) (map fst svs)"
  fix n r assume "delim r" and fuel: "2 * length ((CHR ''['' # ws @ ?j @ ws1 @ [CHR '']'']) @ r) < n"
  then obtain m where n: "n = Suc m" by (cases n) auto
  have "value_start ?j"
    using assms(1,2) by (cases svs rule: remdups_adj.cases) (auto intro: value_start_append)
  then have "next_is (CHR '']'') (ws @ ?j @ ws1 @ CHR '']'' # r) = None"
    using assms(3) by (simp add: next_is_blank next_is_start(1) value_start_append)
  moreover have "parse_elems m (ws @ ?j @ ws1 @ CHR '']'' # r) = Some (map snd svs, r)"
    using fuel n assms by (intro reads_spaced_elems) (auto simp: list_all_iff)
  ultimately show "parse_value n ((CHR ''['' # ws @ ?j @ ws1 @ [CHR '']'']) @ r) = Some (JArr (map snd svs), r)"
    using n by (simp add: skip_ws_def json_ws_def)
qed

definition spaced_member :: "string \<times> string \<times> json \<Rightarrow> string" where
  "spaced_member m = json_string (fst m) @ '': '' @ fst (snd m)"

lemma parse_spaced_key: "blank ws \<Longrightarrow> parse_key (ws @ json_string k @ '': '' @ r) = Some (k, '' '' @ r)"
  using parse_key_text [of k "'' '' @ r"] by (simp add: parse_key_blank)

lemma reads_spaced_members:
  assumes "list_all (\<lambda>m. reads (fst (snd m)) (snd (snd m))) ms" "ms \<noteq> []" "blank ws0" "blank ws" "blank ws1"
    and "2 * length (sep_join (CHR '','' # ws) (map spaced_member ms) @ ws1 @ CHR 0x7D # r) + 1 < n"
  shows "parse_members n (ws0 @ sep_join (CHR '','' # ws) (map spaced_member ms) @ ws1 @ CHR 0x7D # r)
       = Some (map (\<lambda>m. (fst m, snd (snd m))) ms, r)"
  using assms
proof (induction ms arbitrary: n ws0)
  case (Cons a ms)
  obtain m where n: "n = Suc m" using Cons.prems(6) by (cases n) auto
  let ?tx = "\<lambda>xs. sep_join (CHR '','' # ws) (map spaced_member xs) @ ws1 @ CHR 0x7D # r"
  let ?rest = "if ms = [] then ws1 @ CHR 0x7D # r else CHR '','' # ws @ ?tx ms"
  have tx: "?tx (a # ms) = json_string (fst a) @ '': '' @ fst (snd a) @ ?rest"
    by (cases ms) (simp_all add: spaced_member_def)
  have "blank '' ''" by (simp add: blank_def json_ws_def)
  moreover have "delim ?rest" using delim_blank [OF Cons.prems(5), of "CHR 0x7D # r"] by (simp add: delim_def)
  moreover have "2 * length (fst (snd a) @ ?rest) < m"
    using Cons.prems(6) n unfolding tx by auto
  ultimately have v: "parse_value m ('' '' @ fst (snd a) @ ?rest) = Some (snd (snd a), ?rest)"
    using Cons.prems(1) by (intro parse_value_reads) auto
  note k = parse_spaced_key [OF Cons.prems(3), of "fst a" "fst (snd a) @ ?rest"]
  show ?case
  proof (cases ms)
    case Nil
    then show ?thesis using n v k Cons.prems(5) unfolding tx by (simp add: next_is_blank)
  next
    case (Cons b rest)
    have "parse_members m (ws @ ?tx ms) = Some (map (\<lambda>m. (fst m, snd (snd m))) ms, r)"
      using Cons.prems n Cons unfolding tx by (intro Cons.IH) auto
    then show ?thesis using n v k Cons unfolding tx by simp
  qed
qed simp

lemma reads_spaced_object:
  assumes "list_all (\<lambda>m. reads (fst (snd m)) (snd (snd m))) ms" "ms \<noteq> []" "distinct (map fst ms)" "blank ws" "blank ws1"
  shows "reads (CHR 0x7B # ws @ sep_join (CHR '','' # ws) (map spaced_member ms) @ ws1 @ [CHR 0x7D])
           (JObj (map (\<lambda>m. (fst m, snd (snd m))) ms))"
  unfolding reads_def
proof (intro allI impI)
  let ?j = "sep_join (CHR '','' # ws) (map spaced_member ms)"
  let ?o = "map (\<lambda>m. (fst m, snd (snd m))) ms"
  fix n r assume "delim r" and fuel: "2 * length ((CHR 0x7B # ws @ ?j @ ws1 @ [CHR 0x7D]) @ r) < n"
  then obtain m where n: "n = Suc m" by (cases n) auto
  have "value_start ?j"
    using assms(2) by (cases ms rule: remdups_adj.cases) (auto simp: spaced_member_def json_string_def value_start_def json_ws_def)
  then have "next_is (CHR 0x7D) (ws @ ?j @ ws1 @ CHR 0x7D # r) = None"
    using assms(4) by (simp add: next_is_blank next_is_start(2) value_start_append)
  moreover have "parse_members m (ws @ ?j @ ws1 @ CHR 0x7D # r) = Some (?o, r)"
    using fuel n assms by (intro reads_spaced_members) auto
  moreover have "fold (\<lambda>(k, v). AList.update k v) ?o [] = ?o"
    using fold_update_distinct [of "[]" ?o] assms(3) by (simp add: comp_def)
  ultimately show "parse_value n ((CHR 0x7B # ws @ ?j @ ws1 @ [CHR 0x7D]) @ r) = Some (JObj ?o, r)"
    using n by (simp add: skip_ws_def json_ws_def)
qed

lemma pretty_start: "value_start (pretty i v)"
  by (cases v) (simp_all add: json_number_start, auto simp: value_start_def json_ws_def json_string_def bool_text_def)

lemma pretty_reads: "plain v \<Longrightarrow> reads (pretty i v) v"
proof (induction v arbitrary: i)
  case (JNum n) then show ?case using reads_number by simp
next
  case (JArr vs)
  let ?svs = "map (\<lambda>v. (pretty (i + 2) v, v)) vs"
  have "list_all (\<lambda>sv. reads (fst sv) (snd sv) \<and> value_start (fst sv)) ?svs"
    using JArr pretty_start by (auto simp: list_all_iff)
  then show ?case
    using reads_spaced_array [of ?svs "newline (i + 2)" "newline i"] reads_array [of "[]"] by (simp add: comp_def)
next
  case (JObj fs)
  let ?ms = "map (\<lambda>kv. (fst kv, (pretty (i + 2) (snd kv), snd kv))) fs"
  have "list_all (\<lambda>m. reads (fst (snd m)) (snd (snd m))) ?ms"
    using JObj by (fastforce simp: list_all_iff)
  moreover have "distinct (map fst ?ms)" using JObj.prems by (simp add: comp_def)
  ultimately show ?case
    using reads_spaced_object [of ?ms "newline (i + 2)" "newline i"] reads_object [of "[]"]
    by (simp add: comp_def spaced_member_def)
qed (simp_all add: reads_literals reads_string)

lemma json_parse_pretty:
  assumes "plain v" "blank ws"
  shows "json_parse (pretty i v @ ws) = Some v"
proof -
  have "delim ws" using delim_blank [OF assms(2), of "[]"] by (simp add: delim_def)
  moreover have "skip_ws ws = []" using skip_ws_blank [OF assms(2), of "[]"] by (simp add: skip_ws_def)
  ultimately have "parse_value (2 * length (pretty i v @ ws) + 1) (pretty i v @ ws) = Some (v, ws)" "skip_ws ws = []"
    using pretty_reads [OF assms(1), of i] by (simp_all only: reads_def less_add_one)
  then show ?thesis by (simp only: json_parse_def option.case prod.case simp_thms if_True)
qed

end
