(* ===== verification/ArchiveMeta.thy ===== *)
theory ArchiveMeta
  imports JsPretty JsDate
begin

text \<open>
  \<open>services/bootstrap_archive_meta.js\<close>: the \<open>bootstrap.json\<close> member that leads a published
  archive. Buffers are byte strings. The reader is the state machine behind the stream
  callbacks: the unpacked bytes arrive in chunks of any size, and the first decision settles
  the promise. Gunzip is outside the model: its output is the event sequence. Header texts
  are read as ASCII.
\<close>

section \<open>Tar headers\<close>

record tar_header =
  hname :: string
  hsize :: nat
  typeflag :: char

definition NUL :: char where "NUL = CHR 0x00"

definition readCString :: "string \<Rightarrow> nat \<Rightarrow> nat \<Rightarrow> string" where
  "readCString block offset len = takeWhile (\<lambda>c. c \<noteq> NUL) (take len (drop offset block))"

definition is_octal :: "char \<Rightarrow> bool" where
  "is_octal c = (48 \<le> char_code c \<and> char_code c \<le> 55)"

text \<open>\<open>parseInt(s, 8)\<close>.\<close>

definition parseInt8 :: "string \<Rightarrow> int option" where
  "parseInt8 raw = (let s = trim_start raw;
       neg = (case s of c # _ \<Rightarrow> c = CHR ''-'' | [] \<Rightarrow> False);
       r = (case s of c # r' \<Rightarrow> if c = CHR ''-'' \<or> c = CHR ''+'' then r' else s | [] \<Rightarrow> []);
       ds = takeWhile is_octal r; n = int (nat_of_digits 8 digit_val ds)
     in if ds = [] then None else Some (if neg then - n else n))"

definition strip_dot_slash :: "string \<Rightarrow> string" where
  "strip_dot_slash s = (if take 2 s = ''./'' then drop 2 s else s)"

definition parseTarHeader :: "string \<Rightarrow> tar_header option" where
  "parseTarHeader block =
     (if length block < 512 then None
      else if list_all (\<lambda>c. c = NUL) (take 512 block) then None
      else (let nm = strip_dot_slash (readCString block 0 100);
                sizeField = trim (readCString block 124 12);
                sz = (if sizeField = [] then Some 0 else parseInt8 sizeField)
            in case sz of
                 None \<Rightarrow> None
               | Some n \<Rightarrow> if n < 0 then None
                   else Some \<lparr>hname = nm, hsize = nat n,
                              typeflag = (if block ! 156 = NUL then CHR ''0'' else block ! 156)\<rparr>))"

definition TAR_EXTENSION_TYPES :: "char list" where
  "TAR_EXTENSION_TYPES = [CHR ''x'', CHR ''g'', CHR ''L'', CHR ''K'']"

definition META_MAX_BYTES :: nat where "META_MAX_BYTES = 64 * 1024"

definition blocks_of :: "nat \<Rightarrow> nat" where
  "blocks_of sz = (sz + 511) div 512 * 512"

section \<open>The streaming reader\<close>

datatype stream_event = Chunk string | End_of_stream | Stream_error

text \<open>\<open>settled\<close> is \<open>Some v\<close> once the promise resolved to \<open>v\<close>, where \<open>None\<close> is \<open>null\<close>.\<close>

record reader =
  settled :: "string option option"
  buffered :: string
  offset :: nat
  skipped :: nat

definition reader_init :: reader where
  "reader_init = \<lparr>settled = None, buffered = [], offset = 0, skipped = 0\<rparr>"

record limits =
  memberName :: string
  maxBytes :: nat
  maxSkippedEntries :: nat

text \<open>The header walk: a decision, or the offset and the skip count it waits at.\<close>

datatype walk = Decided "string option" | Waiting nat nat

function walk_headers :: "limits \<Rightarrow> string \<Rightarrow> nat \<Rightarrow> nat \<Rightarrow> walk" where
  "walk_headers lm buf off sk =
     (if length buf < off + 512 then Waiting off sk
      else case parseTarHeader (take 512 (drop off buf)) of
          None \<Rightarrow> Decided None
        | Some h \<Rightarrow>
            if typeflag h \<in> set TAR_EXTENSION_TYPES then
              (if maxSkippedEntries lm < sk + 1 \<or> maxBytes lm < hsize h then Decided None
               else walk_headers lm buf (off + 512 + blocks_of (hsize h)) (sk + 1))
            else if hname h \<noteq> memberName lm \<or> maxBytes lm < hsize h then Decided None
            else if length buf < off + 512 + hsize h then Waiting off sk
            else Decided (Some (take (hsize h) (drop (off + 512) buf))))"
  by auto
termination
  by (relation "measure (\<lambda>(lm, buf, off, sk). maxSkippedEntries lm + 1 - sk)") auto

declare walk_headers.simps [simp del]

definition finish :: "string option \<Rightarrow> reader \<Rightarrow> reader" where
  "finish v r = (if settled r \<noteq> None then r else r\<lparr>settled := Some v\<rparr>)"

definition on_data :: "limits \<Rightarrow> string \<Rightarrow> reader \<Rightarrow> reader" where
  "on_data lm chunk r =
     (if settled r \<noteq> None then r
      else (let buf = buffered r @ chunk in
        case walk_headers lm buf (offset r) (skipped r) of
          Decided v \<Rightarrow> finish v (r\<lparr>buffered := buf\<rparr>)
        | Waiting off sk \<Rightarrow> r\<lparr>buffered := buf, offset := off, skipped := sk\<rparr>))"

fun on_event :: "limits \<Rightarrow> stream_event \<Rightarrow> reader \<Rightarrow> reader" where
  "on_event lm (Chunk c) r = on_data lm c r"
| "on_event lm End_of_stream r = finish None r"
| "on_event lm Stream_error r = finish None r"

definition readLeadingArchiveMember :: "limits \<Rightarrow> stream_event list \<Rightarrow> string option option" where
  "readLeadingArchiveMember lm evs = settled (fold (on_event lm) evs reader_init)"

section \<open>What it reads\<close>

text \<open>
  The member as a function of the whole unpacked archive: skip the extension entries, then
  the next entry's content when it is the one asked for.
\<close>

function leading_member :: "limits \<Rightarrow> nat \<Rightarrow> string \<Rightarrow> string option" where
  "leading_member lm sk bs =
     (case parseTarHeader (take 512 bs) of
        None \<Rightarrow> None
      | Some h \<Rightarrow>
          if typeflag h \<in> set TAR_EXTENSION_TYPES then
            (if sk < maxSkippedEntries lm \<and> hsize h \<le> maxBytes lm
             then leading_member lm (sk + 1) (drop (512 + blocks_of (hsize h)) bs) else None)
          else if hname h = memberName lm \<and> hsize h \<le> maxBytes lm \<and> hsize h \<le> length (drop 512 bs)
          then Some (take (hsize h) (drop 512 bs)) else None)"
  by auto
termination
  by (relation "measure (\<lambda>(lm, sk, bs). maxSkippedEntries lm - sk)") auto

declare leading_member.simps [simp del]

lemma parseTarHeader_short: "length b < 512 \<Longrightarrow> parseTarHeader b = None"
  by (simp add: parseTarHeader_def)

lemma leading_member_skip:
  assumes "parseTarHeader (take 512 (drop off bs)) = Some h" "typeflag h \<in> set TAR_EXTENSION_TYPES"
    "sk < maxSkippedEntries lm" "hsize h \<le> maxBytes lm"
  shows "leading_member lm sk (drop off bs) = leading_member lm (sk + 1) (drop (off + 512 + blocks_of (hsize h)) bs)"
  using assms by (subst leading_member.simps) (simp add: add.commute add.left_commute)

text \<open>A decision is the reference's answer on the bytes from the offset on, whatever follows them.\<close>

lemma walk_decided:
  "walk_headers lm buf off sk = Decided v \<Longrightarrow> leading_member lm sk (drop off (buf @ rest)) = v"
proof (induction lm buf off sk rule: walk_headers.induct)
  case (1 lm buf off sk)
  from 1(2) have len: "off + 512 \<le> length buf" by (subst (asm) walk_headers.simps) (simp split: if_splits)
  let ?p = "parseTarHeader (take 512 (drop off buf))"
  have hd: "parseTarHeader (take 512 (drop off (buf @ rest))) = ?p" using len by simp
  show ?case
  proof (cases ?p)
    case None
    then show ?thesis using 1(2) len hd by (subst (asm) walk_headers.simps, subst leading_member.simps) simp
  next
    case (Some h)
    show ?thesis
    proof (cases "typeflag h \<in> set TAR_EXTENSION_TYPES \<and> sk < maxSkippedEntries lm \<and> hsize h \<le> maxBytes lm")
      case True
      then have "walk_headers lm buf (off + 512 + blocks_of (hsize h)) (sk + 1) = Decided v"
        using 1(2) len Some by (subst (asm) walk_headers.simps) simp
      then have "leading_member lm (sk + 1) (drop (off + 512 + blocks_of (hsize h)) (buf @ rest)) = v"
        using True len Some by (intro 1(1) [of h]) auto
      then show ?thesis
        using True hd Some leading_member_skip [of off "buf @ rest" h sk lm] by (simp del: drop_append take_append)
    next
      case False
      then show ?thesis
        using 1(2) len Some hd
        by (subst (asm) walk_headers.simps, subst leading_member.simps) (auto simp: add.commute split: if_splits)
    qed
  qed
qed

text \<open>Waiting means the bytes so far give nothing, and more bytes resume where the walk stopped.\<close>

lemma walk_waiting:
  "walk_headers lm buf off sk = Waiting off' sk' \<Longrightarrow>
     leading_member lm sk (drop off buf) = None \<and>
     leading_member lm sk (drop off (buf @ rest)) = leading_member lm sk' (drop off' (buf @ rest))"
proof (induction lm buf off sk rule: walk_headers.induct)
  case (1 lm buf off sk)
  show ?case
  proof (cases "length buf < off + 512")
    case True
    then have "off' = off" "sk' = sk" using 1(2) by (subst (asm) walk_headers.simps; simp)+
    then show ?thesis using True by (subst leading_member.simps) (simp add: parseTarHeader_short)
  next
    case len: False
    obtain h where h: "parseTarHeader (take 512 (drop off buf)) = Some h"
      using 1(2) len by (subst (asm) walk_headers.simps) (auto split: option.splits)
    have hd: "parseTarHeader (take 512 (drop off (buf @ rest))) = Some h" using len h by simp
    show ?thesis
    proof (cases "typeflag h \<in> set TAR_EXTENSION_TYPES")
      case True
      then have c: "sk < maxSkippedEntries lm" "hsize h \<le> maxBytes lm"
        and w: "walk_headers lm buf (off + 512 + blocks_of (hsize h)) (sk + 1) = Waiting off' sk'"
        using 1(2) len h by (subst (asm) walk_headers.simps; simp split: if_splits)+
      have ih: "leading_member lm (sk + 1) (drop (off + 512 + blocks_of (hsize h)) buf) = None \<and>
          leading_member lm (sk + 1) (drop (off + 512 + blocks_of (hsize h)) (buf @ rest))
          = leading_member lm sk' (drop off' (buf @ rest))"
        using True len h c w by (intro 1(1) [of h]) auto
      show ?thesis
        using ih h hd True c leading_member_skip [of off buf h sk lm] leading_member_skip [of off "buf @ rest" h sk lm]
        by (simp del: drop_append take_append)
    next
      case False
      then show ?thesis
        using 1(2) len h by (subst (asm) walk_headers.simps, subst leading_member.simps) (auto split: if_splits)
    qed
  qed
qed

lemma walk_waiting_bound:
  "walk_headers lm buf off sk = Waiting off' sk' \<Longrightarrow> sk \<le> maxSkippedEntries lm \<Longrightarrow>
     off \<le> sk * (512 + blocks_of (maxBytes lm)) \<Longrightarrow>
     sk' \<le> maxSkippedEntries lm \<and> off' \<le> sk' * (512 + blocks_of (maxBytes lm)) \<and> length buf < off' + 512 + maxBytes lm"
proof (induction lm buf off sk rule: walk_headers.induct)
  case (1 lm buf off sk)
  show ?case
  proof (cases "length buf < off + 512")
    case True
    then show ?thesis using 1(2-) by (subst (asm) walk_headers.simps) simp
  next
    case len: False
    obtain h where h: "parseTarHeader (take 512 (drop off buf)) = Some h"
      using 1(2) len by (subst (asm) walk_headers.simps) (auto split: option.splits)
    show ?thesis
    proof (cases "typeflag h \<in> set TAR_EXTENSION_TYPES")
      case True
      then have c: "sk < maxSkippedEntries lm" "hsize h \<le> maxBytes lm"
        and w: "walk_headers lm buf (off + 512 + blocks_of (hsize h)) (sk + 1) = Waiting off' sk'"
        using 1(2) len h by (subst (asm) walk_headers.simps; simp split: if_splits)+
      have "blocks_of (hsize h) \<le> blocks_of (maxBytes lm)"
        using c(2) by (auto simp: blocks_of_def intro!: mult_le_mono1 div_le_mono)
      then show ?thesis using True len h c w 1(4) by (intro 1(1) [of h]) auto
    next
      case False
      then show ?thesis using 1(2-) len h by (subst (asm) walk_headers.simps) (auto split: if_splits)
    qed
  qed
qed

text \<open>The state after some chunks, against the reference on everything they start.\<close>

definition reader_agrees :: "limits \<Rightarrow> string \<Rightarrow> reader \<Rightarrow> bool" where
  "reader_agrees lm bs r = (case settled r of
     Some v \<Rightarrow> (\<forall>rest. leading_member lm 0 (bs @ rest) = v)
   | None \<Rightarrow> buffered r = bs \<and> leading_member lm 0 bs = None \<and>
       skipped r \<le> maxSkippedEntries lm \<and> offset r \<le> skipped r * (512 + blocks_of (maxBytes lm)) \<and>
       length bs < offset r + 512 + maxBytes lm \<and>
       (\<forall>rest. leading_member lm 0 (bs @ rest) = leading_member lm (skipped r) (drop (offset r) (bs @ rest))))"

lemma leading_member_Nil: "leading_member lm sk [] = None"
  by (subst leading_member.simps) (simp add: parseTarHeader_short)

lemma reader_agrees_init: "reader_agrees lm [] reader_init"
  by (simp add: reader_agrees_def reader_init_def leading_member_Nil)

lemma reader_agrees_chunk:
  assumes "reader_agrees lm bs r"
  shows "reader_agrees lm (bs @ c) (on_event lm (Chunk c) r)"
proof (cases "settled r")
  case (Some v)
  then show ?thesis using assms by (simp add: reader_agrees_def on_data_def)
next
  case None
  with assms have b: "buffered r = bs" "skipped r \<le> maxSkippedEntries lm"
      "offset r \<le> skipped r * (512 + blocks_of (maxBytes lm))"
    and eq: "leading_member lm 0 (bs @ x) = leading_member lm (skipped r) (drop (offset r) (bs @ x))" for x
    by (simp_all add: reader_agrees_def del: drop_append)
  show ?thesis
  proof (cases "walk_headers lm (bs @ c) (offset r) (skipped r)")
    case (Decided v)
    then show ?thesis
      using None b(1) walk_decided [OF Decided] eq
      by (simp add: reader_agrees_def on_data_def finish_def del: drop_append)
  next
    case (Waiting off sk)
    have w: "leading_member lm (skipped r) (drop (offset r) (bs @ c)) = None"
      "leading_member lm (skipped r) (drop (offset r) ((bs @ c) @ x)) = leading_member lm sk (drop off ((bs @ c) @ x))" for x
      using walk_waiting [OF Waiting] by blast+
    show ?thesis
      using None b w eq [of c] eq [of "c @ x" for x] walk_waiting_bound [OF Waiting b(2,3)] Waiting
      by (simp add: reader_agrees_def on_data_def del: drop_append)
  qed
qed

lemma reader_agrees_chunks: "reader_agrees lm (concat cs) (fold (on_event lm) (map Chunk cs) reader_init)"
proof (induction cs rule: rev_induct)
  case (snoc c cs) then show ?case using reader_agrees_chunk [OF snoc] by simp
qed (simp add: reader_agrees_init)

lemma read_any_chunks:
  "readLeadingArchiveMember lm (map Chunk cs @ [End_of_stream]) = Some (leading_member lm 0 (concat cs)) \<and>
   readLeadingArchiveMember lm (map Chunk cs @ [Stream_error]) \<in> {Some None, Some (leading_member lm 0 (concat cs @ rest))}"
proof -
  let ?r = "fold (on_event lm) (map Chunk cs) reader_init"
  have agrees: "reader_agrees lm (concat cs) ?r" by (rule reader_agrees_chunks)
  show ?thesis
  proof (cases "settled ?r")
    case (Some v)
    then have all: "leading_member lm 0 (concat cs @ x) = v" for x using agrees by (simp add: reader_agrees_def)
    show ?thesis using Some all [of "[]"] all [of rest] by (simp add: readLeadingArchiveMember_def finish_def)
  next
    case None
    then have "leading_member lm 0 (concat cs) = None" using agrees by (simp add: reader_agrees_def)
    then show ?thesis using None by (simp add: readLeadingArchiveMember_def finish_def)
  qed
qed

text \<open>
  C33. However the stream cuts the unpacked archive into chunks, the reader answers what the
  reference reads from the whole archive; when the stream breaks off early, it answers
  \<open>null\<close> or what the reference reads from the whole archive, whatever bytes were still to come.
\<close>

theorem leading_member_in_any_chunks:
  "readLeadingArchiveMember lm (map Chunk cs @ [End_of_stream]) = Some (leading_member lm 0 (concat cs)) \<and>
   readLeadingArchiveMember lm (map Chunk cs @ [Stream_error]) \<in> {Some None, Some (leading_member lm 0 (concat cs @ rest))}"
  by (rule read_any_chunks)

text \<open>
  The reader has decided by the time \<open>(maxSkippedEntries + 1) * (512 + maxBytes rounded up to
  blocks)\<close> unpacked bytes have arrived, so reading the member of an archive of any size buffers
  a bounded prefix and at most one chunk more.
\<close>

lemma leading_member_reads_bounded:
  assumes "(maxSkippedEntries lm + 1) * (512 + blocks_of (maxBytes lm)) \<le> length (concat cs)"
  shows "readLeadingArchiveMember lm (map Chunk cs) \<noteq> None"
proof
  let ?r = "fold (on_event lm) (map Chunk cs) reader_init" and ?b = "512 + blocks_of (maxBytes lm)"
  assume "readLeadingArchiveMember lm (map Chunk cs) = None"
  then have r: "skipped ?r \<le> maxSkippedEntries lm" "offset ?r \<le> skipped ?r * ?b"
      "length (concat cs) < offset ?r + 512 + maxBytes lm"
    using reader_agrees_chunks [of lm cs] by (simp_all add: reader_agrees_def readLeadingArchiveMember_def)
  have "maxBytes lm \<le> blocks_of (maxBytes lm)" 
    using div_mult_mod_eq [of "maxBytes lm + 511" 512] mod_less_divisor [of 512 "maxBytes lm + 511"]
    unfolding blocks_of_def by linarith
  moreover have "skipped ?r * ?b \<le> maxSkippedEntries lm * ?b" using r(1) by (rule mult_le_mono1)
  moreover have "(maxSkippedEntries lm + 1) * ?b = maxSkippedEntries lm * ?b + ?b" by simp
  ultimately show False using r(2,3) assms by linarith
qed

section \<open>The metadata\<close>

definition BOOTSTRAP_META_MEMBER :: string where "BOOTSTRAP_META_MEMBER = ''bootstrap.json''"

definition BOOTSTRAP_META_FORMAT :: jsnum where "BOOTSTRAP_META_FORMAT = Fin 1"

definition meta_limits :: limits where
  "meta_limits = \<lparr>memberName = BOOTSTRAP_META_MEMBER, maxBytes = META_MAX_BYTES, maxSkippedEntries = 3\<rparr>"

text \<open>\<open>null\<close> is \<open>None\<close>.\<close>

record archive_meta =
  mt_module :: "string option"
  mt_coin :: "string option"
  mt_network :: "string option"
  mt_height :: "int option"
  mt_created :: "string option"

record target =
  sl_module :: string
  sl_coin :: string
  sl_network :: string

definition height_of :: "json option \<Rightarrow> int option" where
  "height_of v = (case v of
     Some (JNum n) \<Rightarrow> (case integer_value n of Some i \<Rightarrow> if 0 \<le> i then Some i else None | None \<Rightarrow> None)
   | _ \<Rightarrow> None)"

text \<open>\<open>height\<close> is any value; \<open>created\<close> is a text or \<open>undefined\<close>, \<open>now\<close> the clock.\<close>

definition buildBootstrapMeta :: "target \<Rightarrow> json option \<Rightarrow> string option \<Rightarrow> int \<Rightarrow> json" where
  "buildBootstrapMeta t height created now = JObj
     [(''format'', JNum BOOTSTRAP_META_FORMAT),
      (''module'', JStr (sl_module t)), (''coin'', JStr (sl_coin t)), (''network'', JStr (sl_network t)),
      (''height'', case height_of height of Some i \<Rightarrow> JNum (Fin (of_int i)) | None \<Rightarrow> JNull),
      (''created'', JStr (case created of Some c \<Rightarrow> if c = [] then toISOString now else c | None \<Rightarrow> toISOString now))]"

definition writeBootstrapMeta :: "json \<Rightarrow> string" where
  "writeBootstrapMeta meta = pretty 0 meta @ newline 0"

fun string_value :: "json option \<Rightarrow> string option" where
  "string_value (Some (JStr s)) = Some s"
| "string_value _ = None"

definition parse_meta :: "string \<Rightarrow> archive_meta option" where
  "parse_meta body = (case json_parse body of
     None \<Rightarrow> None
   | Some p \<Rightarrow>
       if \<not> truthy p \<or> \<not> is_object p \<or> field p ''format'' \<noteq> Some (JNum BOOTSTRAP_META_FORMAT) then None
       else Some \<lparr>mt_module = string_value (field p ''module''), mt_coin = string_value (field p ''coin''),
                  mt_network = string_value (field p ''network''), mt_height = height_of (field p ''height''),
                  mt_created = string_value (field p ''created'')\<rparr>)"

definition readBootstrapArchiveMeta :: "stream_event list \<Rightarrow> archive_meta option" where
  "readBootstrapArchiveMeta evs = (case readLeadingArchiveMember meta_limits evs of
     Some (Some body) \<Rightarrow> parse_meta body | _ \<Rightarrow> None)"

definition identityValue :: "string option \<Rightarrow> string option" where
  "identityValue value = (case value of
     None \<Rightarrow> None | Some s \<Rightarrow> let v = to_lower (trim s) in if v = [] then None else Some v)"

datatype identity_status = Match | Unchecked | Mismatch

record identity =
  id_status :: identity_status
  id_mismatches :: "(string \<times> string option \<times> string) list"
  id_unchecked :: "string list"

definition identity_fields :: "archive_meta option \<Rightarrow> target \<Rightarrow> (string \<times> string option \<times> string) list" where
  "identity_fields meta t =
     [(''module'', Option.bind meta mt_module, sl_module t),
      (''coin'', Option.bind meta mt_coin, sl_coin t),
      (''network'', Option.bind meta mt_network, sl_network t)]"

definition compareArchiveIdentity :: "archive_meta option \<Rightarrow> target \<Rightarrow> identity" where
  "compareArchiveIdentity meta t =
     (let fs = identity_fields meta t;
          mism = filter (\<lambda>(f, a, v). identityValue a \<noteq> None \<and> identityValue a \<noteq> identityValue (Some v)) fs;
          unch = map fst (filter (\<lambda>(f, a, v). identityValue a = None) fs)
      in \<lparr>id_status = (if mism \<noteq> [] then Mismatch else if unch \<noteq> [] then Unchecked else Match),
          id_mismatches = mism, id_unchecked = unch\<rparr>)"

text \<open>The identity values of a target, which decide whether two targets are the same slot.\<close>

definition slot :: "target \<Rightarrow> string option list" where
  "slot t = map (identityValue \<circ> Some) [sl_module t, sl_coin t, sl_network t]"

lemma height_of_built:
  "height_of (Some (case height_of h of Some i \<Rightarrow> JNum (Fin (of_int i)) | None \<Rightarrow> JNull)) = height_of h"
  by (auto simp: height_of_def integer_value_def split: option.splits json.splits jsnum.splits)

lemma built_plain:
  "(\<And>i. height_of h = Some i \<Longrightarrow> \<bar>i\<bar> < 10 ^ 21) \<Longrightarrow> plain (buildBootstrapMeta t h c now)"
  by (cases "height_of h") (simp_all add: buildBootstrapMeta_def BOOTSTRAP_META_FORMAT_def flip: of_int_abs of_int_power_less_of_int_cancel_iff)

lemma parse_built:
  assumes "\<And>i. height_of h = Some i \<Longrightarrow> \<bar>i\<bar> < 10 ^ 21" "c = Some d" "d \<noteq> []"
  shows "parse_meta (writeBootstrapMeta (buildBootstrapMeta t h c now)) =
    Some \<lparr>mt_module = Some (sl_module t), mt_coin = Some (sl_coin t), mt_network = Some (sl_network t),
          mt_height = height_of h, mt_created = Some d\<rparr>"
  using json_parse_pretty [OF built_plain [OF assms(1)] blank_newline] height_of_built [of h] assms(2,3)
  by (simp add: parse_meta_def writeBootstrapMeta_def) (simp add: buildBootstrapMeta_def field_def)

lemma compare_own:
  assumes "Option.bind meta mt_module = Some (sl_module s)" "Option.bind meta mt_coin = Some (sl_coin s)"
    "Option.bind meta mt_network = Some (sl_network s)" "list_all (\<lambda>v. v \<noteq> None) (slot s)"
  shows "id_status (compareArchiveIdentity meta t) = (if slot s = slot t then Match else Mismatch)"
proof -
  obtain a b c where "identityValue (Some (sl_module s)) = Some a" "identityValue (Some (sl_coin s)) = Some b"
    "identityValue (Some (sl_network s)) = Some c"
    using assms(4) by (auto simp: slot_def)
  then show ?thesis
    using assms(1-3) by (simp add: compareArchiveIdentity_def identity_fields_def slot_def Let_def)
qed

text \<open>
  C34. An archive whose first member is the \<open>bootstrap.json\<close> the publisher writes for a slot is
  read back, in any chunks, as that slot with the height and date written; its identity
  matches a restore target exactly when the target is the same slot up to case and padding.
\<close>

theorem published_meta_read_back:
  assumes "parseTarHeader hdr = Some h" "length hdr = 512" "hname h = BOOTSTRAP_META_MEMBER"
    "typeflag h \<notin> set TAR_EXTENSION_TYPES"
    "body = writeBootstrapMeta (buildBootstrapMeta s height (Some created) now)"
    "hsize h = length body" "length body \<le> META_MAX_BYTES"
    "concat cs = hdr @ body @ rest"
    "created \<noteq> []" "\<And>i. height_of height = Some i \<Longrightarrow> \<bar>i\<bar> < 10 ^ 21" "list_all (\<lambda>v. v \<noteq> None) (slot s)"
  shows "map_option mt_height (readBootstrapArchiveMeta (map Chunk cs @ [End_of_stream])) = Some (height_of height) \<and>
    id_status (compareArchiveIdentity (readBootstrapArchiveMeta (map Chunk cs @ [End_of_stream])) t)
      = (if slot s = slot t then Match else Mismatch)"
proof -
  have "leading_member meta_limits 0 (concat cs) = Some body"
    unfolding assms(8) using assms(1-4,6,7) by (subst leading_member.simps) (simp add: meta_limits_def)
  then have "readBootstrapArchiveMeta (map Chunk cs @ [End_of_stream]) = parse_meta body"
    using read_any_chunks [of meta_limits cs] by (simp add: readBootstrapArchiveMeta_def)
  also have "\<dots> = Some \<lparr>mt_module = Some (sl_module s), mt_coin = Some (sl_coin s), mt_network = Some (sl_network s),
          mt_height = height_of height, mt_created = Some created\<rparr>"
    unfolding assms(5) by (rule parse_built [OF assms(10) refl assms(9)])
  finally show ?thesis using compare_own [of _ s t] assms(11) by simp
qed

definition demo_slot :: target where
  "demo_slot = \<lparr>sl_module = ''xchain-decoder'', sl_coin = ''bitcoin'', sl_network = ''mainnet''\<rparr>"

definition demo_body :: string where
  "demo_body = writeBootstrapMeta (buildBootstrapMeta demo_slot (Some (JNum (Fin 7))) (Some ''2026-09-01T00:00:00.000Z'') 0)"

definition demo_header :: string where
  "demo_header = BOOTSTRAP_META_MEMBER @ replicate 110 NUL @ ''00000000225 '' @ replicate 20 NUL @ ''0'' @ replicate 355 NUL"

lemma demo_body_length: "length demo_body = 149"
  by code_simp

lemma demo_header:
  "parseTarHeader demo_header = Some \<lparr>hname = BOOTSTRAP_META_MEMBER, hsize = 149, typeflag = CHR ''0''\<rparr>"
  "length demo_header = 512"
  by code_simp+

theorem published_meta_read_back_witness:
  "id_status (compareArchiveIdentity
      (readBootstrapArchiveMeta (map Chunk [demo_header, demo_body, replicate 9 NUL] @ [End_of_stream]))
      (demo_slot\<lparr>sl_coin := ''Bitcoin ''\<rparr>)) = Match"
proof -
  have h: "height_of (Some (JNum (Fin 7))) = Some 7" by (simp add: height_of_def integer_value_def)
  have "list_all (\<lambda>v. v \<noteq> None) (slot demo_slot)" "slot demo_slot = slot (demo_slot\<lparr>sl_coin := ''Bitcoin ''\<rparr>)" by code_simp+
  then show ?thesis
    using published_meta_read_back [OF demo_header _ _ demo_body_def, where rest = "replicate 9 NUL"
        and cs = "[demo_header, demo_body, replicate 9 NUL]" and t = "demo_slot\<lparr>sl_coin := ''Bitcoin ''\<rparr>"]
    by (simp add: demo_body_length TAR_EXTENSION_TYPES_def META_MAX_BYTES_def h)
qed

end
