(* ===== verification/TipGuard.thy ===== *)
theory TipGuard
  imports HealthGate JsNumber ArchiveMeta
begin

text \<open>
  \<open>services/bootstrap_node_tip_guard.js\<close>: the archive's end height against the coin node's tip
  before a restore. A call that throws is \<open>None\<close>; the texts of the verdicts are left out.
\<close>

section \<open>Versions\<close>

text \<open>\<open>/^v?(\d+)\.(\d+)\.(\d+)/\<close> of the trimmed text.\<close>

definition digits_of :: "string \<Rightarrow> (jsnum \<times> string) option" where
  "digits_of s = (let d = takeWhile is_digit s in
     if d = [] then None else Some (Number (JStr d), dropWhile is_digit s))"

definition dot_then :: "string \<Rightarrow> string option" where
  "dot_then s = (case s of c # r \<Rightarrow> if c = CHR ''.'' then Some r else None | [] \<Rightarrow> None)"

definition parseSemver :: "string option \<Rightarrow> jsnum list option" where
  "parseSemver version = (let t = trim (case version of Some v \<Rightarrow> v | None \<Rightarrow> []);
       s = (case t of c # r \<Rightarrow> if c = CHR ''v'' then r else t | [] \<Rightarrow> []) in do {
     (a, s1) \<leftarrow> digits_of s;
     s2 \<leftarrow> dot_then s1;
     (b, s3) \<leftarrow> digits_of s2;
     s4 \<leftarrow> dot_then s3;
     (c, _) \<leftarrow> digits_of s4;
     Some [a, b, c] })"

fun at_least :: "jsnum list \<Rightarrow> jsnum list \<Rightarrow> bool" where
  "at_least (v # vs) (f # fs) = (if js_gt v f then True else if js_lt v f then False else at_least vs fs)"
| "at_least _ _ = True"

definition versionAtLeast :: "string option \<Rightarrow> jsnum list \<Rightarrow> bool" where
  "versionAtLeast version least = (case parseSemver version of None \<Rightarrow> False | Some v \<Rightarrow> at_least v least)"

definition CATCH_UP_WAIT_SINCE :: "jsnum list" where
  "CATCH_UP_WAIT_SINCE = [Fin 0, Fin 16, Fin 0]"

section \<open>What the guard asks\<close>

record tip_env =
  te_skip :: "string option"
  te_archive :: "stream_event list"
  te_node_container :: "string option option"
  te_node_cli :: "string \<Rightarrow> string list \<Rightarrow> string option"
  te_container :: "string option option"
  te_config :: "(string \<rightharpoonup> string) option"
  te_exec :: "nat \<Rightarrow> string \<Rightarrow> exec_cmd \<Rightarrow> string option"
  te_version :: "string option"

definition guardSkipped :: "string option \<Rightarrow> bool" where
  "guardSkipped v = (case v of
     None \<Rightarrow> False
   | Some s \<Rightarrow> to_lower (trim s) \<in> {''1'', ''true'', ''yes''})"

definition NODE_CLI_ARGS :: "string \<Rightarrow> string list option" where
  "NODE_CLI_ARGS coin = map_of
     [(''bitcoin'', [''bitcoin-cli'', ''-conf=/etc/bitcoin/bitcoin.conf'', ''-datadir=/root/.bitcoin/'']),
      (''litecoin'', [''litecoin-cli'', ''-conf=/etc/litecoin/litecoin.conf'']),
      (''dogecoin'', [''dogecoin-cli'', ''-conf=/etc/dogecoin/dogecoin.conf''])] coin"

record chain_info =
  blocks :: rat
  headers :: "rat option"
  initialblockdownload :: bool

definition truthy_text :: "string option \<Rightarrow> string option" where
  "truthy_text v = (case v of Some s \<Rightarrow> if s = [] then None else Some s | None \<Rightarrow> None)"

definition finite_value :: "jsnum \<Rightarrow> rat option" where
  "finite_value n = (case n of Fin r \<Rightarrow> Some r | _ \<Rightarrow> None)"

text \<open>The height is read before \<open>info.headers\<close>, which throws on \<open>null\<close>.\<close>

definition chain_info_of :: "json \<Rightarrow> chain_info option" where
  "chain_info_of info = (case finite_value (if truthy info then Number_opt (field info ''blocks'') else Number info) of
     None \<Rightarrow> None
   | Some b \<Rightarrow>
       if b < 0 \<or> info = JNull then None
       else Some \<lparr>blocks = b, headers = finite_value (Number_opt (field info ''headers'')),
                  initialblockdownload = (field info ''initialblockdownload'' = Some (JBool True))\<rparr>)"

definition readCoinNodeChainInfo :: "tip_env \<Rightarrow> string \<Rightarrow> chain_info option" where
  "readCoinNodeChainInfo env coin = do {
     cliArgs \<leftarrow> NODE_CLI_ARGS coin;
     found \<leftarrow> te_node_container env;
     containerId \<leftarrow> truthy_text found;
     out \<leftarrow> te_node_cli env containerId (cliArgs @ [''getblockchaininfo'']);
     info \<leftarrow> json_parse out;
     chain_info_of info }"

definition serviceWaitsOutCatchUp :: "string \<Rightarrow> json option \<Rightarrow> string option \<Rightarrow> bool" where
  "serviceWaitsOutCatchUp module' statusPayload version =
     (if module' = XCHAIN_INDEXER then True
      else case statusPayload of
          Some p \<Rightarrow> if is_object p then field p ''node_catching_up'' \<noteq> None else versionAtLeast version CATCH_UP_WAIT_SINCE
        | None \<Rightarrow> versionAtLeast version CATCH_UP_WAIT_SINCE)"

definition STATUS_PROBE_ATTEMPTS :: nat where "STATUS_PROBE_ATTEMPTS = 3"

fun probe_attempts :: "(nat \<Rightarrow> json option) \<Rightarrow> nat list \<Rightarrow> json option" where
  "probe_attempts probe [] = None"
| "probe_attempts probe (i # rest) = (case probe i of
     Some p \<Rightarrow> if is_object p then Some p else probe_attempts probe rest
   | None \<Rightarrow> probe_attempts probe rest)"

definition probeServiceCapability :: "tip_env \<Rightarrow> string \<Rightarrow> json option" where
  "probeServiceCapability env module' = do {
     portKey \<leftarrow> MODULE_API_PORT_KEY module';
     found \<leftarrow> te_container env;
     cfg \<leftarrow> te_config env;
     containerId \<leftarrow> truthy_text found;
     port \<leftarrow> truthy_text (cfg portKey);
     probe_attempts (\<lambda>i. probeServiceStatus (te_exec env i containerId) port) [0..<STATUS_PROBE_ATTEMPTS] }"

section \<open>The verdict\<close>

datatype verdict = OK | BEHIND_WAIT | BEHIND_REFUSE | UNKNOWN | SKIPPED

record assessment =
  as_verdict :: verdict
  as_refuse :: bool
  as_archive :: "int option"
  as_node :: "rat option"
  as_gap :: "rat option"
  as_ibd :: "bool option"

definition plain_verdict :: "verdict \<Rightarrow> assessment" where
  "plain_verdict v = \<lparr>as_verdict = v, as_refuse = False, as_archive = None, as_node = None, as_gap = None, as_ibd = None\<rparr>"

definition evaluateNodeTipAgainstArchive :: "int option \<Rightarrow> chain_info option \<Rightarrow> bool \<Rightarrow> string \<Rightarrow> assessment" where
  "evaluateNodeTipAgainstArchive archiveHeight chainInfo serviceWaits module' =
     (case archiveHeight of
        None \<Rightarrow> plain_verdict UNKNOWN
      | Some h \<Rightarrow>
          (case chainInfo of
             None \<Rightarrow> plain_verdict UNKNOWN
           | Some c \<Rightarrow>
               (let nodeHeight = blocks c; ibd = initialblockdownload c; gap = of_int h - nodeHeight;
                    told = (\<lambda>v. \<lparr>as_verdict = v, as_refuse = False, as_archive = Some h, as_node = Some nodeHeight,
                               as_gap = Some gap, as_ibd = Some ibd\<rparr>)
                in if of_int h \<le> nodeHeight
                   then (told OK)\<lparr>as_gap := Some 0, as_ibd := None\<rparr>
                   else if \<not> serviceWaits then told BEHIND_REFUSE
                   else if ibd \<or> module' = XCHAIN_INDEXER then told BEHIND_WAIT
                   else told BEHIND_REFUSE)))"

definition readArchiveClaim :: "tip_env \<Rightarrow> target \<Rightarrow> int option \<times> bool" where
  "readArchiveClaim env t = (let parsed = readBootstrapArchiveMeta (te_archive env) in
     (Option.bind parsed mt_height, id_status (compareArchiveIdentity parsed t) = Mismatch))"

definition readServiceWaits :: "tip_env \<Rightarrow> string \<Rightarrow> int option \<Rightarrow> chain_info option \<Rightarrow> bool" where
  "readServiceWaits env module' archiveHeight chainInfo =
     (case (archiveHeight, chainInfo) of
        (Some h, Some c) \<Rightarrow>
          if module' = XCHAIN_INDEXER then True
          else if of_int h \<le> blocks c \<or> \<not> initialblockdownload c then True
          else (let payload = probeServiceCapability env module';
                    version = (if payload = None then te_version env else None)
                in serviceWaitsOutCatchUp module' payload version)
      | _ \<Rightarrow> True)"

definition assessNodeTipForRestore :: "tip_env \<Rightarrow> target \<Rightarrow> assessment" where
  "assessNodeTipForRestore env t =
     (if guardSkipped (te_skip env) then plain_verdict SKIPPED
      else (let (archiveHeight, mismatch) = readArchiveClaim env t in
        if mismatch then plain_verdict UNKNOWN
        else (let chainInfo = (if archiveHeight = None then None else readCoinNodeChainInfo env (sl_coin t));
                  serviceWaits = readServiceWaits env (sl_module t) archiveHeight chainInfo;
                  r = evaluateNodeTipAgainstArchive archiveHeight chainInfo serviceWaits (sl_module t)
              in r\<lparr>as_refuse := (as_verdict r = BEHIND_REFUSE)\<rparr>)))"

section \<open>When a restore is refused\<close>

text \<open>
  What the guard is for: the node is known to be below the archive's height, and the service
  would read that as a reorg, since it follows the node and does not wait for it. The image
  waits only for a node in initial block download, and only when its own status, or without
  one its version, says so.
\<close>

definition image_waits :: "tip_env \<Rightarrow> string \<Rightarrow> bool" where
  "image_waits env module' = (case probeServiceCapability env module' of
     Some p \<Rightarrow> field p ''node_catching_up'' \<noteq> None
   | None \<Rightarrow> versionAtLeast (te_version env) CATCH_UP_WAIT_SINCE)"

definition gap_known :: "tip_env \<Rightarrow> target \<Rightarrow> (int \<times> chain_info) option" where
  "gap_known env t = (let meta = readBootstrapArchiveMeta (te_archive env) in
     if guardSkipped (te_skip env) \<or> id_status (compareArchiveIdentity meta t) = Mismatch then None
     else (case (Option.bind meta mt_height, readCoinNodeChainInfo env (sl_coin t)) of
         (Some h, Some c) \<Rightarrow> Some (h, c) | _ \<Rightarrow> None))"

definition reads_as_reorg :: "tip_env \<Rightarrow> string \<Rightarrow> int \<Rightarrow> chain_info \<Rightarrow> bool" where
  "reads_as_reorg env module' h c = (blocks c < of_int h \<and> module' \<noteq> XCHAIN_INDEXER
     \<and> \<not> (initialblockdownload c \<and> image_waits env module'))"

lemma probe_attempts_object: "probe_attempts f is = Some p \<Longrightarrow> is_object p"
  by (induction "is") (auto split: option.splits if_splits)

lemma capability_object: "probeServiceCapability env m = Some p \<Longrightarrow> is_object p"
  by (auto simp: probeServiceCapability_def Option.bind_eq_Some_conv dest: probe_attempts_object)

lemma asked_service_waits:
  assumes "blocks c < of_int h" "initialblockdownload c" "m \<noteq> XCHAIN_INDEXER"
  shows "readServiceWaits env m (Some h) (Some c) = image_waits env m"
  using assms capability_object [of env m]
  by (auto simp: readServiceWaits_def serviceWaitsOutCatchUp_def image_waits_def Let_def split: option.splits)

lemma assess_known:
  assumes "gap_known env t = Some (h, c)"
  shows "as_verdict (assessNodeTipForRestore env t) =
    (if of_int h \<le> blocks c then OK else if reads_as_reorg env (sl_module t) h c then BEHIND_REFUSE else BEHIND_WAIT)"
proof -
  have a: "\<not> guardSkipped (te_skip env)" "readArchiveClaim env t = (Some h, False)" "readCoinNodeChainInfo env (sl_coin t) = Some c"
    using assms by (simp_all add: gap_known_def readArchiveClaim_def Let_def split: if_splits option.splits)
  show ?thesis
  proof (cases "blocks c < of_int h \<and> initialblockdownload c \<and> sl_module t \<noteq> XCHAIN_INDEXER")
    case True
    then show ?thesis
      using a asked_service_waits [of c h "sl_module t" env]
      by (simp add: assessNodeTipForRestore_def evaluateNodeTipAgainstArchive_def reads_as_reorg_def Let_def)
  next
    case False
    then have "of_int h \<le> blocks c \<or> readServiceWaits env (sl_module t) (Some h) (Some c)"
      by (auto simp: readServiceWaits_def)
    then show ?thesis
      using a False by (auto simp: assessNodeTipForRestore_def evaluateNodeTipAgainstArchive_def reads_as_reorg_def Let_def)
  qed
qed

lemma assess_unknown:
  "gap_known env t = None \<Longrightarrow> as_verdict (assessNodeTipForRestore env t) \<in> {UNKNOWN, SKIPPED}"
  by (auto simp: gap_known_def assessNodeTipForRestore_def readArchiveClaim_def evaluateNodeTipAgainstArchive_def
      plain_verdict_def Let_def split: option.splits if_splits)

lemma assess_refuse: "as_refuse (assessNodeTipForRestore env t) \<longleftrightarrow> as_verdict (assessNodeTipForRestore env t) = BEHIND_REFUSE"
  by (auto simp: assessNodeTipForRestore_def plain_verdict_def Let_def split: prod.splits)

text \<open>
  C32. The guard refuses a restore exactly when both heights are known and the service would
  read the node's lower tip as a reorg; it calls the gap harmless only when the node is at or
  past the archive, and announces a wait only when the service waits the gap out.
\<close>

theorem tip_guard_refuses_exactly_the_halts:
  "(as_refuse (assessNodeTipForRestore env t) \<longleftrightarrow>
      (\<exists>h c. gap_known env t = Some (h, c) \<and> reads_as_reorg env (sl_module t) h c)) \<and>
   (as_verdict (assessNodeTipForRestore env t) = OK \<longleftrightarrow>
      (\<exists>h c. gap_known env t = Some (h, c) \<and> of_int h \<le> blocks c)) \<and>
   (as_verdict (assessNodeTipForRestore env t) = BEHIND_WAIT \<longleftrightarrow>
      (\<exists>h c. gap_known env t = Some (h, c) \<and> blocks c < of_int h \<and> \<not> reads_as_reorg env (sl_module t) h c))"
proof (cases "gap_known env t")
  case None
  then show ?thesis using assess_unknown [OF None] by (auto simp: assess_refuse)
next
  case (Some g)
  obtain h c where g: "gap_known env t = Some (h, c)" using Some by (cases g) auto
  have "reads_as_reorg env (sl_module t) h c \<Longrightarrow> blocks c < of_int h" by (simp add: reads_as_reorg_def)
  then show ?thesis using g assess_known [OF g] by (auto simp: assess_refuse)
qed

end
