(* ===== verification/ArchiveSigning.thy ===== *)
theory ArchiveSigning
  imports JsJson
begin

text \<open>
  \<open>services/bootstrap_service/archive_signing.js\<close>: the signature policy of a bootstrap archive
  and the extraction of its inner archive. Files are byte strings under their paths; SHA-256,
  Ed25519 and the tar program are parameters. A signature is the base64 text of its file.
\<close>

section \<open>Parameters\<close>

type_synonym files = "string \<rightharpoonup> string"

text \<open>
  \<open>sha\<close> is the hexadecimal digest, \<open>key_ok\<close> whether a PEM text is a public key, \<open>verify\<close> and
  \<open>sign\<close> work on a digest, a key and a signature text.
\<close>

record crypto =
  sha :: "string \<Rightarrow> string"
  key_ok :: "string \<Rightarrow> bool"
  verify :: "string \<Rightarrow> string \<Rightarrow> string \<Rightarrow> bool"
  sign :: "string \<Rightarrow> string \<Rightarrow> string option"

text \<open>
  The tar program on an archive: the member listing and one member's content, \<open>None\<close> for a
  failed run, and whether a full extraction succeeded with the files it left.
\<close>

record tar =
  tar_list :: "string \<Rightarrow> string option"
  tar_member :: "string \<Rightarrow> string \<Rightarrow> string option"
  tar_extract :: "string \<Rightarrow> bool \<times> files"

record signing_config =
  sc_require :: "string option"
  sc_pubkey :: "string option"
  sc_signing_key :: "string option"

datatype refusal =
    SignatureMalformed | SignatureInvalid | UnsignedArchive | KeyUnreadable | SignFailed
  | UnsafeMember string | ChecksumMissing | ChecksumNotSha | InnerMissing | InnerMismatch | TarFailed | FileMissing
  | IdentityMismatch

section \<open>The signature policy\<close>

definition BOOTSTRAP_SIG_SUFFIX :: string where "BOOTSTRAP_SIG_SUFFIX = ''.sig''"

definition DEFAULT_BOOTSTRAP_PUBKEY_PATH :: string where
  "DEFAULT_BOOTSTRAP_PUBKEY_PATH = ''src/config/bootstrap_signing_pubkey.pem''"

definition loadBootstrapPublicKey :: "crypto \<Rightarrow> signing_config \<Rightarrow> files \<Rightarrow> refusal + string option" where
  "loadBootstrapPublicKey cr cfg fs =
     (let pubkeyPath = (case sc_pubkey cfg of Some p \<Rightarrow> if p = [] then DEFAULT_BOOTSTRAP_PUBKEY_PATH else p
                         | None \<Rightarrow> DEFAULT_BOOTSTRAP_PUBKEY_PATH)
      in case fs pubkeyPath of
           None \<Rightarrow> Inr None
         | Some pem \<Rightarrow> if key_ok cr pem then Inr (Some pem) else Inl KeyUnreadable)"

definition computeSha256 :: "crypto \<Rightarrow> files \<Rightarrow> string \<Rightarrow> refusal + string" where
  "computeSha256 cr fs p = (case fs p of None \<Rightarrow> Inl FileMissing | Some b \<Rightarrow> Inr (sha cr b))"

definition verifyBootstrapSignature :: "crypto \<Rightarrow> files \<Rightarrow> string \<Rightarrow> string \<Rightarrow> string \<Rightarrow> refusal + unit" where
  "verifyBootstrapSignature cr fs archivePath sigPath publicKey =
     (case fs sigPath of
        None \<Rightarrow> Inl FileMissing
      | Some text \<Rightarrow>
          (case tokens text of
             [v, alg, sig] \<Rightarrow>
               if v \<noteq> ''v1'' \<or> alg \<noteq> ''ed25519'' then Inl SignatureMalformed
               else (case computeSha256 cr fs archivePath of
                  Inl e \<Rightarrow> Inl e
                | Inr digest \<Rightarrow> if verify cr digest publicKey sig then Inr () else Inl SignatureInvalid)
           | _ \<Rightarrow> Inl SignatureMalformed))"

definition optOut :: "string option \<Rightarrow> bool" where
  "optOut v = (case v of None \<Rightarrow> False | Some s \<Rightarrow> to_lower s \<in> {''0'', ''false'', ''no''})"

definition checkBootstrapSignature :: "crypto \<Rightarrow> signing_config \<Rightarrow> files \<Rightarrow> string \<Rightarrow> refusal + unit" where
  "checkBootstrapSignature cr cfg fs archivePath =
     (let requireSigned = \<not> optOut (sc_require cfg); sigPath = archivePath @ BOOTSTRAP_SIG_SUFFIX
      in case loadBootstrapPublicKey cr cfg fs of
           Inl e \<Rightarrow> Inl e
         | Inr key \<Rightarrow>
             (case (key, fs sigPath) of
                (Some publicKey, Some _) \<Rightarrow> verifyBootstrapSignature cr fs archivePath sigPath publicKey
              | _ \<Rightarrow> if requireSigned then Inl UnsignedArchive else Inr ()))"

section \<open>Signing\<close>

definition signBootstrapArchive :: "crypto \<Rightarrow> files \<Rightarrow> string \<Rightarrow> string \<Rightarrow> refusal + files" where
  "signBootstrapArchive cr fs archivePath privateKeyPath =
     (case fs privateKeyPath of
        None \<Rightarrow> Inl FileMissing
      | Some key \<Rightarrow>
          (case computeSha256 cr fs archivePath of
             Inl e \<Rightarrow> Inl e
           | Inr digest \<Rightarrow>
               (case sign cr digest key of
                  None \<Rightarrow> Inl SignFailed
                | Some s \<Rightarrow> Inr (fs(archivePath @ BOOTSTRAP_SIG_SUFFIX \<mapsto> ''v1 ed25519 '' @ s @ [CHR 0x0A])))))"

text \<open>The file system after the create; without a signing key the archive stays unsigned.\<close>

definition maybeSignBootstrap :: "crypto \<Rightarrow> signing_config \<Rightarrow> files \<Rightarrow> string \<Rightarrow> refusal + files" where
  "maybeSignBootstrap cr cfg fs finalOutput = (case sc_signing_key cfg of
     None \<Rightarrow> Inr fs
   | Some keyPath \<Rightarrow> if keyPath = [] then Inr fs else signBootstrapArchive cr fs finalOutput keyPath)"

section \<open>The inner archive\<close>

definition lines_of :: "string \<Rightarrow> string list" where
  "lines_of s = filter (\<lambda>l. l \<noteq> []) (split_on (CHR 0x0A) s)"

definition unsafe_member :: "string \<Rightarrow> bool" where
  "unsafe_member n = (take 1 n = ''/'' \<or> ''..'' \<in> set (split_on (CHR ''/'') n))"

definition assertSafeArchiveMemberNames :: "string \<Rightarrow> refusal + unit" where
  "assertSafeArchiveMemberNames listing = (case filter unsafe_member (lines_of listing) of
     [] \<Rightarrow> Inr () | n # _ \<Rightarrow> Inl (UnsafeMember n))"

text \<open>\<open>path.basename\<close>: the last non-empty segment.\<close>

definition basename :: "string \<Rightarrow> string" where
  "basename p = (case filter (\<lambda>s. s \<noteq> []) (split_on (CHR ''/'') p) of [] \<Rightarrow> [] | ss \<Rightarrow> last ss)"

definition is_hex :: "char \<Rightarrow> bool" where
  "is_hex c = (hex_val c \<noteq> None)"

text \<open>The checksum the outer archive ships for its inner one.\<close>

definition expectedInnerSha :: "tar \<Rightarrow> string \<Rightarrow> string \<Rightarrow> refusal + string" where
  "expectedInnerSha tr outer checksumName =
     (case tar_list tr outer of
        None \<Rightarrow> Inl TarFailed
      | Some memberList \<Rightarrow>
          (case assertSafeArchiveMemberNames memberList of
             Inl e \<Rightarrow> Inl e
           | Inr _ \<Rightarrow>
               (case filter (\<lambda>m. basename m = checksumName) (lines_of memberList) of
                  [] \<Rightarrow> Inl ChecksumMissing
                | checksumMember # _ \<Rightarrow>
                    (case tar_member tr outer checksumMember of
                       None \<Rightarrow> Inl TarFailed
                     | Some body \<Rightarrow>
                         (let e = (case tokens body of [] \<Rightarrow> [] | t # _ \<Rightarrow> t)
                          in if length e = 64 \<and> list_all is_hex e then Inr e else Inl ChecksumNotSha)))))"

text \<open>
  The work directory is \<open>None\<close> when absent. The result is the inner archive's content; the
  second component is the work directory left behind.
\<close>

definition extract_inner ::
  "crypto \<Rightarrow> tar \<Rightarrow> string \<Rightarrow> string \<Rightarrow> string \<Rightarrow> (refusal + string) \<times> files option" where
  "extract_inner cr tr outer innerName expected = (let (ok, d) = tar_extract tr outer in
     if \<not> ok then (Inl TarFailed, Some d)
     else case d innerName of
         None \<Rightarrow> (Inl InnerMissing, None)
       | Some b \<Rightarrow> if sha cr b \<noteq> expected then (Inl InnerMismatch, None) else (Inr b, Some d))"

definition ensureVerifiedInnerArchive ::
  "crypto \<Rightarrow> tar \<Rightarrow> string \<Rightarrow> files option \<Rightarrow> string \<Rightarrow> string \<Rightarrow> (refusal + string) \<times> files option" where
  "ensureVerifiedInnerArchive cr tr outer wd innerName checksumName =
     (case expectedInnerSha tr outer checksumName of
        Inl e \<Rightarrow> (Inl e, wd)
      | Inr expected \<Rightarrow>
          (case Option.bind wd (\<lambda>d. d innerName) of
             Some b \<Rightarrow>
               if sha cr b = expected then (Inr b, wd)
               else extract_inner cr tr outer innerName expected
           | None \<Rightarrow> extract_inner cr tr outer innerName expected))"

section \<open>What the checks establish\<close>

text \<open>
  The policy as one predicate: a pinned key and a signature file that verifies over the
  archive's digest, or an explicit opt-out with one of the two missing.
\<close>

definition signature_accepts :: "crypto \<Rightarrow> signing_config \<Rightarrow> files \<Rightarrow> string \<Rightarrow> string \<Rightarrow> bool" where
  "signature_accepts cr cfg fs p outer =
     ((\<exists>key sig text. loadBootstrapPublicKey cr cfg fs = Inr (Some key) \<and> fs (p @ BOOTSTRAP_SIG_SUFFIX) = Some text
         \<and> tokens text = [''v1'', ''ed25519'', sig] \<and> verify cr (sha cr outer) key sig)
      \<or> (optOut (sc_require cfg) \<and> (loadBootstrapPublicKey cr cfg fs = Inr None \<or> fs (p @ BOOTSTRAP_SIG_SUFFIX) = None)))"

lemma checked_signature:
  assumes "checkBootstrapSignature cr cfg fs p = Inr ()" "fs p = Some outer"
  shows "signature_accepts cr cfg fs p outer"
  using assms
  by (auto simp: checkBootstrapSignature_def signature_accepts_def verifyBootstrapSignature_def computeSha256_def Let_def
      split: sum.splits option.splits if_splits list.splits)

lemma verified_inner:
  "ensureVerifiedInnerArchive cr tr outer wd inner cks = (Inr b, wd') \<Longrightarrow> expectedInnerSha tr outer cks = Inr (sha cr b)"
  by (auto simp: ensureVerifiedInnerArchive_def extract_inner_def Let_def split: sum.splits option.splits if_splits prod.splits)

text \<open>What a create signs, the restore's policy accepts, once the files are served as they were.\<close>

lemma tokens_signature:
  assumes "list_all (\<lambda>c. \<not> is_ws c) s" "s \<noteq> []"
  shows "tokens (''v1 ed25519 '' @ s @ [CHR 0x0A]) = [''v1'', ''ed25519'', s]"
proof -
  have w: "is_ws (CHR '' '')" "is_ws (CHR 0x0A)" by (simp_all add: is_ws_def)
  have "tokens (s @ [CHR 0x0A]) = [s]"
    using tokens_word_sep [OF assms w(2), of "[]"] by (simp add: tokens_def)
  then show ?thesis
    using tokens_word_sep [of "''v1''" "CHR '' ''" "''ed25519 '' @ s @ [CHR 0x0A]"]
      tokens_word_sep [of "''ed25519''" "CHR '' ''" "s @ [CHR 0x0A]"] w
    by (simp add: is_ws_def)
qed

lemma signed_archive_accepted:
  assumes "signBootstrapArchive cr fs p keyPath = Inr fs'" "fs keyPath = Some priv"
    and "loadBootstrapPublicKey cr cfg fs' = Inr (Some pub)" "fs' p = Some outer" "fs p = Some outer"
    and "\<And>d s. sign cr d priv = Some s \<Longrightarrow> verify cr d pub s \<and> s \<noteq> [] \<and> list_all (\<lambda>c. \<not> is_ws c) s"
  shows "checkBootstrapSignature cr cfg fs' p = Inr ()"
proof -
  obtain s where s: "sign cr (sha cr outer) priv = Some s"
    and fs': "fs' = fs(p @ BOOTSTRAP_SIG_SUFFIX \<mapsto> ''v1 ed25519 '' @ s @ [CHR 0x0A])"
    using assms(1,2,5) by (auto simp: signBootstrapArchive_def computeSha256_def split: option.splits)
  have "fs' (p @ BOOTSTRAP_SIG_SUFFIX) = Some (''v1 ed25519 '' @ s @ [CHR 0x0A])" by (simp add: fs')
  then show ?thesis
    using assms(3,4) assms(6) [OF s] tokens_signature [of s]
    by (simp add: checkBootstrapSignature_def verifyBootstrapSignature_def computeSha256_def del: append_Cons)
qed

end
