(* ===== verification/JsEffects.thy ===== *)
theory JsEffects
  imports JsPrelude
begin

text \<open>
  Effectful code as state passing with errors: a run gives an error or a value and the world it
  leaves. \<open>attempt\<close> is \<open>await\<close> in sequence, \<open>try_finally\<close> a \<open>try\<close> block with its \<open>finally\<close>;
  a condition on every result is verified step by step.
\<close>

type_synonym ('e, 'a, 'w) run_result = "('e + 'a) \<times> 'w"

definition attempt :: "('e, 'a, 'w) run_result \<Rightarrow> ('a \<Rightarrow> 'w \<Rightarrow> ('e, 'b, 'w) run_result) \<Rightarrow> ('e, 'b, 'w) run_result" where
  "attempt r k = (case r of (Inl e, w) \<Rightarrow> (Inl e, w) | (Inr x, w) \<Rightarrow> k x w)"

text \<open>An error of the \<open>finally\<close> block replaces the result of the \<open>try\<close> block.\<close>

definition try_finally :: "('e, 'a, 'w) run_result \<Rightarrow> ('w \<Rightarrow> ('e, unit, 'w) run_result) \<Rightarrow> ('e, 'a, 'w) run_result" where
  "try_finally r c = (case c (snd r) of (Inl e, w) \<Rightarrow> (Inl e, w) | (Inr _, w) \<Rightarrow> (fst r, w))"

definition ensures :: "('e, 'a, 'w) run_result \<Rightarrow> ('e + 'a \<Rightarrow> 'w \<Rightarrow> bool) \<Rightarrow> bool" where
  "ensures r Q = Q (fst r) (snd r)"

lemma ensures_attempt:
  assumes "ensures r P" "\<And>e w1. P (Inl e) w1 \<Longrightarrow> Q (Inl e) w1" "\<And>y w1. P (Inr y) w1 \<Longrightarrow> ensures (k y w1) Q"
  shows "ensures (attempt r k) Q"
  using assms by (cases r; cases "fst r") (auto simp: ensures_def attempt_def)

lemma ensures_finally:
  assumes "ensures r P" "\<And>x w1. P x w1 \<Longrightarrow> ensures (c w1) (\<lambda>y w2. case y of Inl e \<Rightarrow> Q (Inl e) w2 | Inr _ \<Rightarrow> Q x w2)"
  shows "ensures (try_finally r c) Q"
  using assms(1) assms(2) [of "fst r" "snd r"]
  by (cases "c (snd r)"; cases "fst (c (snd r))") (auto simp: ensures_def try_finally_def)

lemma ensures_weaken: "ensures r P \<Longrightarrow> (\<And>x w. P x w \<Longrightarrow> Q x w) \<Longrightarrow> ensures r Q"
  by (simp add: ensures_def)

lemma ensures_result [simp]: "ensures (x, w) Q = Q x w"
  by (simp add: ensures_def)

lemma ensuresD: "ensures r Q \<Longrightarrow> r = (x, w) \<Longrightarrow> Q x w"
  by simp

end
