(* ===== verification/BootstrapRestore.thy ===== *)
theory BootstrapRestore
  imports TipGuard ArchiveSigning JsEffects
begin

text \<open>
  The restore of a published bootstrap: \<open>services/bootstrap_service/restore_archive.js\<close>,
  \<open>download.js\<close> and \<open>ensure_restored.js\<close>. Each external call happens at most once in a run, so
  whether it succeeds is a function of the call. The world holds what the operations change:
  the files of the bootstrap directory and the pinned key, the work directory, whether the
  service's container runs, its store, and the outcomes recorded for the summary.
\<close>

section \<open>The world and its calls\<close>

text \<open>\<open>Incomplete\<close> is a store from its wipe on; \<open>Imported b\<close> one filled from the inner archive \<open>b\<close>.\<close>

datatype store = Original | Incomplete | Imported string

datatype status = Restored | RestoredNodeBehind | NodeBehind | NonePublished | Disabled | WipedLeftDown | Failed

text \<open>\<open>oc_removed\<close>: the downloaded archive was removed, kept, or is not reported.\<close>

record outcome =
  oc_module :: string
  oc_status :: status
  oc_removed :: "bool option"

record world =
  fs :: files
  workdir :: "files option"
  running :: bool
  store :: store
  outcomes :: "outcome list"

datatype call =
    TargetDirRead | ConfigRead | DatabaseName | DirWritable | SignatureWrite | PoolOpen | ExternalConfig | DbContainer | RootPassword
  | StopService | WipeVolume | StatInner | ImportVolume | DropDatabase | CreateDatabase | RecreateDatabase | ImportDump
  | RemoveWorkDir | StartService | RemoveArchive | RemoveSignature

datatype cause = Refused refusal | CallFailed call | NetworkError | ArchiveMissing | NoContainer | UnsupportedModule

datatype failure = Failure (cause: cause) (postWipe: bool)

datatype reply = RequestError | NotFound | Served string string

text \<open>
  \<open>rv_row\<close> is the registry's container of the service (\<open>None\<close>: the lookup throws),
  \<open>rv_after_failed_stop\<close> whether the container still runs after a stop that failed,
  \<open>rv_partial\<close> what a download that breaks off leaves on disk.
\<close>

record restore_env =
  rv_ok :: "call \<Rightarrow> bool"
  rv_external :: bool
  rv_crypto :: crypto
  rv_tar :: tar
  rv_signing :: signing_config
  rv_gunzip :: "string \<Rightarrow> stream_event list"
  rv_tip :: tip_env
  rv_row :: "string option option"
  rv_after_failed_stop :: bool
  rv_no_bootstrap :: "string option"
  rv_dir :: string
  rv_latest :: reply
  rv_download_ok :: bool
  rv_partial :: string
  rv_sig :: "string \<Rightarrow> reply"

type_synonym 'a result = "(failure + 'a) \<times> world"

definition calling :: "restore_env \<Rightarrow> call \<Rightarrow> world \<Rightarrow> unit result" where
  "calling env c w = (if rv_ok env c then Inr () else Inl (Failure (CallFailed c) False), w)"

definition checked :: "refusal + 'a \<Rightarrow> world \<Rightarrow> 'a result" where
  "checked r w = (case r of Inl e \<Rightarrow> Inl (Failure (Refused e) False) | Inr x \<Rightarrow> Inr x, w)"

section \<open>Checks before anything is touched\<close>

definition assertArchiveIdentity :: "restore_env \<Rightarrow> target \<Rightarrow> string \<Rightarrow> refusal + unit" where
  "assertArchiveIdentity env t outer =
     (if id_status (compareArchiveIdentity (readBootstrapArchiveMeta (rv_gunzip env outer)) t) = Mismatch
      then Inl IdentityMismatch else Inr ())"

text \<open>The archive file, its signature and its identity, in the order of the two prepare functions.\<close>

definition gate_archive :: "restore_env \<Rightarrow> target \<Rightarrow> string \<Rightarrow> world \<Rightarrow> string result" where
  "gate_archive env t path w = (case fs w path of
     None \<Rightarrow> (Inl (Failure ArchiveMissing False), w)
   | Some outer \<Rightarrow>
       attempt (checked (checkBootstrapSignature (rv_crypto env) (rv_signing env) (fs w) path) w) (\<lambda>_ w.
       attempt (checked (assertArchiveIdentity env t outer) w) (\<lambda>_ w.
       (Inr outer, w))))"

definition unpack_inner :: "restore_env \<Rightarrow> string \<Rightarrow> string \<Rightarrow> string \<Rightarrow> world \<Rightarrow> string result" where
  "unpack_inner env outer innerName checksumName w =
     (let (r, wd) = ensureVerifiedInnerArchive (rv_crypto env) (rv_tar env) outer (workdir w) innerName checksumName
      in checked r (w\<lparr>workdir := wd\<rparr>))"

section \<open>Stopping and starting the service\<close>

definition stop_service :: "restore_env \<Rightarrow> world \<Rightarrow> unit result" where
  "stop_service env w =
     (if rv_ok env StopService then (Inr (), w\<lparr>running := False\<rparr>)
      else (Inl (Failure (CallFailed StopService) False), w\<lparr>running := running w \<and> rv_after_failed_stop env\<rparr>))"

definition start_service :: "restore_env \<Rightarrow> world \<Rightarrow> unit result" where
  "start_service env w =
     (if rv_ok env StartService then (Inr (), w\<lparr>running := True\<rparr>)
      else (Inl (Failure (CallFailed StartService) False), w))"

section \<open>The tracker's volume\<close>

definition prepareTrackerRestore :: "restore_env \<Rightarrow> target \<Rightarrow> string \<Rightarrow> world \<Rightarrow> string result" where
  "prepareTrackerRestore env t path w =
     attempt (calling env ConfigRead w) (\<lambda>_ w.
     attempt (gate_archive env t path w) (\<lambda>outer w.
     attempt (unpack_inner env outer ''data.tar.gz'' ''data.sha256'' w) (\<lambda>inner w.
     attempt (calling env PoolOpen w) (\<lambda>_ w.
     case rv_row env of
       None \<Rightarrow> (Inl (Failure NoContainer False), w)
     | Some row \<Rightarrow> if truthy_text row = None then (Inl (Failure NoContainer False), w) else (Inr inner, w)))))"

text \<open>Every step may fail from the wipe on, and then the error carries the post-wipe mark.\<close>

definition destroying :: "restore_env \<Rightarrow> call \<Rightarrow> store \<Rightarrow> world \<Rightarrow> unit result" where
  "destroying env c s w =
     (if rv_ok env c then (Inr (), w\<lparr>store := s\<rparr>) else (Inl (Failure (CallFailed c) True), w\<lparr>store := Incomplete\<rparr>))"

definition restoreTrackerVolume :: "restore_env \<Rightarrow> string \<Rightarrow> world \<Rightarrow> unit result" where
  "restoreTrackerVolume env inner w =
     attempt (destroying env WipeVolume Incomplete w) (\<lambda>_ w.
     attempt (destroying env StatInner Incomplete w) (\<lambda>_ w.
     attempt (destroying env ImportVolume (Imported inner) w) (\<lambda>_ w.
     if rv_ok env RemoveWorkDir then (Inr (), w\<lparr>workdir := None\<rparr>)
     else (Inl (Failure (CallFailed RemoveWorkDir) True), w))))"

definition restoreBootstrapUtxoTracker :: "restore_env \<Rightarrow> target \<Rightarrow> string \<Rightarrow> world \<Rightarrow> unit result" where
  "restoreBootstrapUtxoTracker env t path w =
     attempt (prepareTrackerRestore env t path w) (\<lambda>inner w.
     attempt (stop_service env w) (\<lambda>_ w.
     attempt (restoreTrackerVolume env inner w) (\<lambda>_ w.
     start_service env w)))"

section \<open>The MariaDB database of the decoder and the indexer\<close>

definition database_access :: "restore_env \<Rightarrow> world \<Rightarrow> unit result" where
  "database_access env w =
     (if rv_external env then calling env ExternalConfig w
      else attempt (calling env DbContainer w) (\<lambda>_ w. calling env RootPassword w))"

text \<open>Only a registry without a row means that the service is not installed.\<close>

definition stop_installed :: "restore_env \<Rightarrow> world \<Rightarrow> bool result" where
  "stop_installed env w = (case rv_row env of
     None \<Rightarrow> (Inl (Failure NoContainer False), w)
   | Some row \<Rightarrow>
       if truthy_text row = None then (Inr False, w) else attempt (stop_service env w) (\<lambda>_ w. (Inr True, w)))"

definition prepareMariaRestore :: "restore_env \<Rightarrow> target \<Rightarrow> string \<Rightarrow> world \<Rightarrow> (string \<times> bool) result" where
  "prepareMariaRestore env t path w =
     attempt (calling env ConfigRead w) (\<lambda>_ w.
     attempt (calling env DatabaseName w) (\<lambda>_ w.
     attempt (gate_archive env t path w) (\<lambda>outer w.
     attempt (unpack_inner env outer ''dump.sql.gz'' ''dump.sha256'' w) (\<lambda>inner w.
     attempt (database_access env w) (\<lambda>_ w.
     attempt (calling env PoolOpen w) (\<lambda>_ w.
     attempt (stop_installed env w) (\<lambda>installed w. (Inr (inner, installed), w))))))))"

definition recreateMariaDatabase :: "restore_env \<Rightarrow> world \<Rightarrow> unit result" where
  "recreateMariaDatabase env w =
     (if rv_external env
      then attempt (destroying env DropDatabase Incomplete w) (\<lambda>_ w. destroying env CreateDatabase Incomplete w)
      else destroying env RecreateDatabase Incomplete w)"

definition importMariaDump :: "restore_env \<Rightarrow> string \<Rightarrow> world \<Rightarrow> unit result" where
  "importMariaDump env inner w =
     attempt (destroying env StatInner Incomplete w) (\<lambda>_ w. destroying env ImportDump (Imported inner) w)"

text \<open>The work directory is removed outside the marked block.\<close>

definition restoreMariaDatabase :: "restore_env \<Rightarrow> string \<Rightarrow> world \<Rightarrow> unit result" where
  "restoreMariaDatabase env inner w =
     attempt (recreateMariaDatabase env w) (\<lambda>_ w.
     attempt (importMariaDump env inner w) (\<lambda>_ w.
     if rv_ok env RemoveWorkDir then (Inr (), w\<lparr>workdir := None\<rparr>)
     else (Inl (Failure (CallFailed RemoveWorkDir) False), w)))"

definition startMariaService :: "restore_env \<Rightarrow> bool \<Rightarrow> world \<Rightarrow> unit result" where
  "startMariaService env installed w = (if \<not> installed then (Inr (), w) else start_service env w)"

definition restoreBootstrapMariaDb :: "restore_env \<Rightarrow> target \<Rightarrow> string \<Rightarrow> world \<Rightarrow> unit result" where
  "restoreBootstrapMariaDb env t path w =
     attempt (prepareMariaRestore env t path w) (\<lambda>(inner, installed) w.
     case restoreMariaDatabase env inner w of
       (Inr _, w) \<Rightarrow> startMariaService env installed w
     | (Inl e, w) \<Rightarrow>
         if postWipe e then (Inl e, w)
         else attempt (startMariaService env installed w) (\<lambda>_ w. (Inl e, w)))"

definition restoreBootstrap :: "restore_env \<Rightarrow> target \<Rightarrow> string \<Rightarrow> world \<Rightarrow> unit result" where
  "restoreBootstrap env t path w =
     (if sl_module t = XCHAIN_UTXO_TRACKER then restoreBootstrapUtxoTracker env t path w
      else if sl_module t = XCHAIN_DECODER \<or> sl_module t = XCHAIN_INDEXER then restoreBootstrapMariaDb env t path w
      else (Inl (Failure UnsupportedModule False), w))"

section \<open>Downloading the published archive\<close>

definition writeBootstrapResponse :: "restore_env \<Rightarrow> string \<Rightarrow> string \<Rightarrow> world \<Rightarrow> unit result" where
  "writeBootstrapResponse env body destPath w =
     (if rv_download_ok env then (Inr (), w\<lparr>fs := (fs w)(destPath \<mapsto> body)\<rparr>)
      else (Inl (Failure NetworkError False), w\<lparr>fs := (fs w)(destPath \<mapsto> rv_partial env)\<rparr>))"

text \<open>The signature is asked for next to the archive the first request ended at.\<close>

definition downloadBootstrapSignature :: "restore_env \<Rightarrow> string \<Rightarrow> string \<Rightarrow> world \<Rightarrow> unit result" where
  "downloadBootstrapSignature env finalUrl destPath w =
     (let sigPath = destPath @ BOOTSTRAP_SIG_SUFFIX in
      case rv_sig env (finalUrl @ BOOTSTRAP_SIG_SUFFIX) of
        RequestError \<Rightarrow> (Inl (Failure NetworkError False), w)
      | Served text _ \<Rightarrow> attempt (calling env SignatureWrite w) (\<lambda>_ w. (Inr (), w\<lparr>fs := (fs w)(sigPath \<mapsto> text)\<rparr>))
      | NotFound \<Rightarrow> (Inr (), w\<lparr>fs := (fs w)(sigPath := None)\<rparr>))"

text \<open>Whether an archive is published; it lands in \<open>destPath\<close>.\<close>

definition downloadBootstrap :: "restore_env \<Rightarrow> string \<Rightarrow> world \<Rightarrow> bool result" where
  "downloadBootstrap env destPath w =
     attempt (calling env DirWritable w) (\<lambda>_ w.
     case rv_latest env of
       RequestError \<Rightarrow> (Inl (Failure NetworkError False), w)
     | NotFound \<Rightarrow> (Inr False, w)
     | Served body finalUrl \<Rightarrow>
         attempt (writeBootstrapResponse env body destPath w) (\<lambda>_ w.
         attempt (downloadBootstrapSignature env finalUrl destPath w) (\<lambda>_ w. (Inr True, w))))"

section \<open>The restore of a fresh install\<close>

definition recordBootstrapOutcome :: "string \<Rightarrow> status \<Rightarrow> bool option \<Rightarrow> world \<Rightarrow> world" where
  "recordBootstrapOutcome m s removed w =
     w\<lparr>outcomes := outcomes w @ [\<lparr>oc_module = m, oc_status = s, oc_removed = removed\<rparr>]\<rparr>"

definition retireBootstrapArchive :: "restore_env \<Rightarrow> string \<Rightarrow> world \<Rightarrow> bool \<times> world" where
  "retireBootstrapArchive env path w =
     (if \<not> rv_ok env RemoveArchive then (False, w)
      else (let w1 = w\<lparr>fs := (fs w)(path := None)\<rparr> in
        if \<not> rv_ok env RemoveSignature then (False, w1)
        else (True, w1\<lparr>fs := (fs w1)(path @ BOOTSTRAP_SIG_SUFFIX := None)\<rparr>)))"

definition reportKeptBootstrapArchive :: "string option \<Rightarrow> world \<Rightarrow> bool option" where
  "reportKeptBootstrapArchive path w = (case path of
     None \<Rightarrow> None
   | Some p \<Rightarrow> if fs w p = None then None else Some False)"

definition verifyRefusedArchive :: "restore_env \<Rightarrow> target \<Rightarrow> string \<Rightarrow> world \<Rightarrow> unit result" where
  "verifyRefusedArchive env t path w =
     attempt (checked (checkBootstrapSignature (rv_crypto env) (rv_signing env) (fs w) path) w) (\<lambda>_ w.
     checked (case fs w path of None \<Rightarrow> Inr () | Some outer \<Rightarrow> assertArchiveIdentity env t outer) w)"

definition archive_stream :: "restore_env \<Rightarrow> string \<Rightarrow> world \<Rightarrow> stream_event list" where
  "archive_stream env path w = (case fs w path of None \<Rightarrow> [Stream_error] | Some outer \<Rightarrow> rv_gunzip env outer)"

definition recordRestoredOutcome :: "string \<Rightarrow> assessment \<Rightarrow> bool option \<Rightarrow> world \<Rightarrow> world" where
  "recordRestoredOutcome m tip removed w =
     recordBootstrapOutcome m (if as_verdict tip = BEHIND_WAIT then RestoredNodeBehind else Restored) removed w"

text \<open>The \<open>try\<close> block once the archive is on disk: whether it was restored.\<close>

definition restore_downloaded :: "restore_env \<Rightarrow> target \<Rightarrow> string \<Rightarrow> world \<Rightarrow> bool result" where
  "restore_downloaded env t path w =
     (let tip = assessNodeTipForRestore ((rv_tip env)\<lparr>te_archive := archive_stream env path w\<rparr>) t
      in if as_refuse tip
         then attempt (verifyRefusedArchive env t path w) (\<lambda>_ w.
           let (removed, w) = retireBootstrapArchive env path w
           in (Inr False, recordBootstrapOutcome (sl_module t) NodeBehind (Some removed) w))
         else attempt (restoreBootstrap env t path w) (\<lambda>_ w.
           let (removed, w) = retireBootstrapArchive env path w
           in (Inr True, recordRestoredOutcome (sl_module t) tip (Some removed) w)))"

definition record_failure :: "string \<Rightarrow> string option \<Rightarrow> failure \<Rightarrow> world \<Rightarrow> world" where
  "record_failure m path e w =
     recordBootstrapOutcome m (if postWipe e then WipedLeftDown else Failed) (reportKeptBootstrapArchive path w) w"

definition ensureBootstrap :: "restore_env \<Rightarrow> target \<Rightarrow> world \<Rightarrow> bool \<times> world" where
  "ensureBootstrap env t w =
     (let m = sl_module t; path = rv_dir env @ ''/latest.tgz'' in
      if truthy_text (rv_no_bootstrap env) \<noteq> None then (False, recordBootstrapOutcome m Disabled None w)
      else case attempt (calling env TargetDirRead w) (\<lambda>_ w. downloadBootstrap env path w) of
          (Inl e, w) \<Rightarrow> (False, record_failure m None e w)
        | (Inr False, w) \<Rightarrow> (False, recordBootstrapOutcome m NonePublished None w)
        | (Inr True, w) \<Rightarrow>
            (case restore_downloaded env t path w of
               (Inl e, w) \<Rightarrow> (False, record_failure m (Some path) e w)
             | (Inr done', w) \<Rightarrow> (done', w)))"

definition ensureBootstrapUtxoTracker :: "restore_env \<Rightarrow> string \<Rightarrow> string \<Rightarrow> world \<Rightarrow> bool \<times> world" where
  "ensureBootstrapUtxoTracker env coin network w =
     ensureBootstrap env \<lparr>sl_module = XCHAIN_UTXO_TRACKER, sl_coin = coin, sl_network = network\<rparr> w"

definition ensureBootstrapMariaDb :: "restore_env \<Rightarrow> string \<Rightarrow> string \<Rightarrow> string \<Rightarrow> world \<Rightarrow> bool \<times> world" where
  "ensureBootstrapMariaDb env coin network module' w =
     ensureBootstrap env \<lparr>sl_module = module', sl_coin = coin, sl_network = network\<rparr> w"

section \<open>What a restore does\<close>

definition no_wipe :: "failure + 'a \<Rightarrow> bool" where
  "no_wipe x = (\<forall>e. x = Inl e \<longrightarrow> \<not> postWipe e)"

lemma no_wipe_simps [simp]: "no_wipe (Inr y)" "no_wipe (Inl e) = (\<not> postWipe e)"
  by (simp_all add: no_wipe_def)

text \<open>The service has a container, as the registry says.\<close>

definition registered :: "restore_env \<Rightarrow> bool" where
  "registered env = (\<exists>row. rv_row env = Some row \<and> truthy_text row \<noteq> None)"

text \<open>
  An inner archive bound to the archive file: the file passes the signature policy and the
  identity check, and carries the inner archive's checksum.
\<close>

definition authentic :: "restore_env \<Rightarrow> target \<Rightarrow> string \<Rightarrow> files \<Rightarrow> string \<Rightarrow> bool" where
  "authentic env t path F inner = (\<exists>outer cks. F path = Some outer
     \<and> signature_accepts (rv_crypto env) (rv_signing env) F path outer
     \<and> id_status (compareArchiveIdentity (readBootstrapArchiveMeta (rv_gunzip env outer)) t) \<noteq> Mismatch
     \<and> expectedInnerSha (rv_tar env) outer cks = Inr (sha (rv_crypto env) inner))"

definition gate_passed :: "restore_env \<Rightarrow> target \<Rightarrow> string \<Rightarrow> files \<Rightarrow> string \<Rightarrow> bool" where
  "gate_passed env t path F outer = (F path = Some outer
     \<and> signature_accepts (rv_crypto env) (rv_signing env) F path outer
     \<and> id_status (compareArchiveIdentity (readBootstrapArchiveMeta (rv_gunzip env outer)) t) \<noteq> Mismatch)"

lemma calling_spec: "ensures (calling env c w) (\<lambda>x w'. w' = w \<and> no_wipe x)"
  by (simp add: calling_def)

lemma checked_spec: "ensures (checked r w) (\<lambda>x w'. w' = w \<and> no_wipe x \<and> (\<forall>y. x = Inr y \<longrightarrow> r = Inr y))"
  by (simp add: checked_def split: sum.splits)

lemma gate_archive_spec:
  "ensures (gate_archive env t path w) (\<lambda>x w'. w' = w \<and> no_wipe x \<and> (\<forall>outer. x = Inr outer \<longrightarrow> gate_passed env t path (fs w) outer))"
proof (cases "fs w path")
  case (Some outer)
  show ?thesis
    unfolding gate_archive_def Some option.case
    by (rule ensures_attempt [OF checked_spec], simp, rule ensures_attempt [OF checked_spec])
      (use Some checked_signature in \<open>auto simp: gate_passed_def assertArchiveIdentity_def split: if_splits\<close>)
qed (simp add: gate_archive_def)

lemma unpack_inner_spec:
  "ensures (unpack_inner env outer nm cks w) (\<lambda>x w'. (\<exists>wd. w' = w\<lparr>workdir := wd\<rparr>) \<and> no_wipe x \<and>
     (\<forall>b. x = Inr b \<longrightarrow> expectedInnerSha (rv_tar env) outer cks = Inr (sha (rv_crypto env) b)))"
proof -
  obtain r wd where r: "ensureVerifiedInnerArchive (rv_crypto env) (rv_tar env) outer (workdir w) nm cks = (r, wd)"
    by fastforce
  show ?thesis
    using r by (cases r) (auto simp: unpack_inner_def checked_def dest: verified_inner)
qed

text \<open>What every prepare leaves alone.\<close>

definition untouched :: "world \<Rightarrow> world \<Rightarrow> bool" where
  "untouched w w' = (fs w' = fs w \<and> store w' = store w \<and> outcomes w' = outcomes w \<and> (running w' \<longrightarrow> running w))"

lemma untouched_refl [simp]: "untouched w w" "untouched w (w\<lparr>workdir := d\<rparr>)"
  by (simp_all add: untouched_def)

lemma untouched_trans: "untouched w w1 \<Longrightarrow> untouched w1 w2 \<Longrightarrow> untouched w w2"
  by (simp add: untouched_def)

lemma stop_service_spec: "ensures (stop_service env w) (\<lambda>x w'. untouched w w' \<and> no_wipe x \<and> (x = Inr () \<longrightarrow> \<not> running w'))"
  by (simp add: stop_service_def untouched_def)

lemma authenticI:
  "gate_passed env t path F outer \<Longrightarrow> expectedInnerSha (rv_tar env) outer cks = Inr (sha (rv_crypto env) inner) \<Longrightarrow> authentic env t path F inner"
  by (auto simp: gate_passed_def authentic_def)

lemma untouched_workdir: "w1 = w\<lparr>workdir := d\<rparr> \<Longrightarrow> untouched w w1 \<and> fs w1 = fs w"
  by simp

lemma prepareTracker_spec:
  "ensures (prepareTrackerRestore env t path w) (\<lambda>x w'. untouched w w' \<and> no_wipe x \<and>
     (\<forall>inner. x = Inr inner \<longrightarrow> authentic env t path (fs w) inner \<and> registered env))"
  unfolding prepareTrackerRestore_def
  apply (rule ensures_attempt [OF calling_spec], simp)
  apply (rule ensures_attempt [OF gate_archive_spec], simp)
  apply (rule ensures_attempt [OF unpack_inner_spec], force)
  apply (rule ensures_attempt [OF calling_spec], force)
  by (auto simp: registered_def intro: authenticI split: option.splits)

lemma database_access_spec: "ensures (database_access env w) (\<lambda>x w'. w' = w \<and> no_wipe x)"
  by (simp add: database_access_def calling_def attempt_def)

lemma stop_installed_spec:
  "ensures (stop_installed env w) (\<lambda>x w'. untouched w w' \<and> no_wipe x \<and>
     (\<forall>b. x = Inr b \<longrightarrow> b = registered env \<and> (b \<longrightarrow> \<not> running w')))"
proof (cases "rv_row env")
  case None then show ?thesis by (simp add: stop_installed_def)
next
  case (Some row)
  have "ensures (attempt (stop_service env w) (\<lambda>_ w. (Inr True, w))) (\<lambda>x w'. untouched w w' \<and> no_wipe x \<and>
     (\<forall>b. x = Inr b \<longrightarrow> b \<and> \<not> running w'))"
    by (rule ensures_attempt [OF stop_service_spec]) auto
  then show ?thesis using Some by (auto simp: stop_installed_def registered_def elim: ensures_weaken)
qed

lemma prepareMaria_spec:
  "ensures (prepareMariaRestore env t path w) (\<lambda>x w'. untouched w w' \<and> no_wipe x \<and>
     (\<forall>inner installed. x = Inr (inner, installed) \<longrightarrow> authentic env t path (fs w) inner \<and> installed = registered env
        \<and> (installed \<longrightarrow> \<not> running w')))"
  unfolding prepareMariaRestore_def
  apply (rule ensures_attempt [OF calling_spec], simp)
  apply (rule ensures_attempt [OF calling_spec], simp)
  apply (rule ensures_attempt [OF gate_archive_spec], simp)
  apply (rule ensures_attempt [OF unpack_inner_spec], force)
  apply (rule ensures_attempt [OF database_access_spec], force)
  apply (rule ensures_attempt [OF calling_spec], force)
  apply (rule ensures_attempt [OF stop_installed_spec])
  by (auto intro: authenticI dest: untouched_trans [OF untouched_refl(2)])

text \<open>The destructive steps: success imports the inner archive, and only marked errors leave less.\<close>

definition only_store :: "world \<Rightarrow> world \<Rightarrow> bool" where
  "only_store w w' = (fs w' = fs w \<and> outcomes w' = outcomes w \<and> running w' = running w)"

lemma only_store_trans: "only_store w w1 \<Longrightarrow> only_store w1 w2 \<Longrightarrow> only_store w w2"
  by (simp add: only_store_def)

definition replaced :: "string \<Rightarrow> world \<Rightarrow> failure + unit \<Rightarrow> world \<Rightarrow> bool" where
  "replaced inner w x w' = (only_store w w' \<and> (case x of
     Inr _ \<Rightarrow> store w' = Imported inner
   | Inl e \<Rightarrow> store w' = Imported inner \<or> (postWipe e \<and> store w' = Incomplete)))"

lemma destroying_spec:
  "ensures (destroying env c s w) (\<lambda>x w'. only_store w w' \<and> (case x of
     Inr _ \<Rightarrow> store w' = s | Inl e \<Rightarrow> postWipe e \<and> store w' = Incomplete))"
  by (simp add: destroying_def only_store_def)

lemma restoreTrackerVolume_spec:
  "ensures (restoreTrackerVolume env inner w) (\<lambda>x w'. replaced inner w x w' \<and> (\<forall>e. x = Inl e \<longrightarrow> postWipe e))"
  unfolding restoreTrackerVolume_def
  apply (rule ensures_attempt [OF destroying_spec], simp add: replaced_def)
  apply (rule ensures_attempt [OF destroying_spec], fastforce simp: replaced_def only_store_def)
  apply (rule ensures_attempt [OF destroying_spec], fastforce simp: replaced_def only_store_def)
  by (auto simp: replaced_def only_store_def)

lemma recreateMariaDatabase_spec:
  "ensures (recreateMariaDatabase env w) (\<lambda>x w'. only_store w w' \<and> store w' = Incomplete \<and> (\<forall>e. x = Inl e \<longrightarrow> postWipe e))"
proof (cases "rv_external env")
  case True
  show ?thesis
    unfolding recreateMariaDatabase_def if_P [OF True]
    by (rule ensures_attempt [OF destroying_spec], simp, rule ensures_weaken [OF destroying_spec])
      (auto simp: only_store_def split: sum.splits)
next
  case False
  then show ?thesis
    by (auto simp: recreateMariaDatabase_def split: sum.splits intro: ensures_weaken [OF destroying_spec])
qed

lemma restoreMariaDatabase_spec:
  "ensures (restoreMariaDatabase env inner w) (replaced inner w)"
  unfolding restoreMariaDatabase_def importMariaDump_def
  apply (rule ensures_attempt [OF recreateMariaDatabase_spec], simp add: replaced_def)
  apply (rule ensures_attempt [where P = "replaced inner w"])
    apply (rule ensures_attempt [OF destroying_spec], fastforce simp: replaced_def only_store_def)
    apply (rule ensures_weaken [OF destroying_spec])
    apply (fastforce simp: replaced_def only_store_def split: sum.splits)
   apply simp
  by (auto simp: replaced_def only_store_def)

text \<open>What a whole restore leaves, on every path.\<close>

definition restore_post :: "restore_env \<Rightarrow> target \<Rightarrow> string \<Rightarrow> world \<Rightarrow> failure + unit \<Rightarrow> world \<Rightarrow> bool" where
  "restore_post env t path w x w' = (fs w' = fs w \<and> outcomes w' = outcomes w \<and>
     ((store w' = store w \<and> (running w' \<longrightarrow> running w) \<and> no_wipe x \<and> x \<noteq> Inr ())
      \<or> (\<exists>inner. authentic env t path (fs w) inner \<and>
          (store w' = Imported inner \<and> (x = Inr () \<longrightarrow> registered env \<longrightarrow> running w') \<and> (no_wipe x \<or> \<not> running w')
           \<or> store w' = Incomplete \<and> \<not> running w' \<and> \<not> no_wipe x))))"

lemma start_service_spec:
  "ensures (start_service env w) (\<lambda>x w'. fs w' = fs w \<and> outcomes w' = outcomes w \<and> store w' = store w \<and> no_wipe x
     \<and> (x = Inr () \<longrightarrow> running w') \<and> (running w \<longrightarrow> running w'))"
  by (simp add: start_service_def)

lemma restore_tracker_post:
  "ensures (restoreBootstrapUtxoTracker env t path w) (restore_post env t path w)"
  unfolding restoreBootstrapUtxoTracker_def
  apply (rule ensures_attempt [OF prepareTracker_spec])
   apply (simp add: restore_post_def untouched_def)
  apply (rule ensures_attempt [OF stop_service_spec])
   apply (simp add: restore_post_def untouched_def)
  apply (rule ensures_attempt [OF restoreTrackerVolume_spec])
   apply (force simp: restore_post_def untouched_def replaced_def only_store_def)
  apply (rule ensures_weaken [OF start_service_spec])
  by (force simp: restore_post_def untouched_def replaced_def only_store_def)

lemma startMaria_spec:
  "ensures (startMariaService env installed w) (\<lambda>x w'. fs w' = fs w \<and> outcomes w' = outcomes w \<and> store w' = store w \<and> no_wipe x
     \<and> (x = Inr () \<longrightarrow> installed \<longrightarrow> running w'))"
  by (simp add: startMariaService_def start_service_def)

lemma restore_maria_post:
  assumes "running w \<longrightarrow> registered env"
  shows "ensures (restoreBootstrapMariaDb env t path w) (restore_post env t path w)"
  unfolding restoreBootstrapMariaDb_def
proof (rule ensures_attempt [OF prepareMaria_spec], goal_cases)
  case 1 then show ?case by (simp add: restore_post_def untouched_def)
next
  case (2 y w1)
  obtain inner inst where y: "y = (inner, inst)" by fastforce
  have p: "untouched w w1" "authentic env t path (fs w) inner" "inst = registered env" "inst \<longrightarrow> \<not> running w1"
    using 2 y by auto
  then have down: "\<not> running w1" using assms by (auto simp: untouched_def)
  obtain x w2 where r: "restoreMariaDatabase env inner w1 = (x, w2)" by fastforce
  have rep: "replaced inner w1 x w2" using restoreMariaDatabase_spec [of env inner w1] r by simp
  have start: "ensures (startMariaService env inst w2) (restore_post env t path w)" if "store w2 = Imported inner"
    using p rep that
    by (intro ensures_weaken [OF startMaria_spec]) (auto simp: restore_post_def untouched_def replaced_def only_store_def)
  show ?case
  proof (cases x)
    case (Inr u)
    then show ?thesis using start rep r y by (simp add: replaced_def)
  next
    case (Inl e)
    show ?thesis
    proof (cases "postWipe e")
      case True
      then show ?thesis using p down rep r y Inl by (auto simp: restore_post_def untouched_def replaced_def only_store_def)
    next
      case False
      have "ensures (attempt (startMariaService env inst w2) (\<lambda>_ w. (Inl e, w))) (restore_post env t path w)"
        by (rule ensures_attempt [OF startMaria_spec])
          (use p rep Inl False in \<open>auto simp: restore_post_def untouched_def replaced_def only_store_def\<close>)
      then show ?thesis using r y Inl False by simp
    qed
  qed
qed

lemma restore_bootstrap_post:
  assumes "running w \<longrightarrow> registered env"
  shows "ensures (restoreBootstrap env t path w) (restore_post env t path w)"
  using restore_tracker_post restore_maria_post [OF assms]
  by (simp add: restoreBootstrap_def) (simp add: restore_post_def)

section \<open>What an install's restore attempt does\<close>

text \<open>The signature the server holds next to the archive, if any.\<close>

definition served_signature :: "restore_env \<Rightarrow> string \<Rightarrow> string option" where
  "served_signature env finalUrl = (case rv_sig env (finalUrl @ BOOTSTRAP_SIG_SUFFIX) of Served text _ \<Rightarrow> Some text | _ \<Rightarrow> None)"

definition downloaded :: "restore_env \<Rightarrow> string \<Rightarrow> world \<Rightarrow> failure + bool \<Rightarrow> world \<Rightarrow> bool" where
  "downloaded env path w x w' = (store w' = store w \<and> outcomes w' = outcomes w \<and> running w' = running w \<and> no_wipe x \<and>
     (x = Inr True \<longrightarrow> (\<exists>outer url. rv_latest env = Served outer url \<and>
        fs w' = (fs w)(path \<mapsto> outer, path @ BOOTSTRAP_SIG_SUFFIX := served_signature env url))))"

lemma writeResponse_spec:
  "ensures (writeBootstrapResponse env body path w) (\<lambda>x w'. (\<exists>b. w' = w\<lparr>fs := (fs w)(path \<mapsto> b)\<rparr> \<and> (x = Inr () \<longrightarrow> b = body)) \<and> no_wipe x)"
  by (auto simp: writeBootstrapResponse_def)

lemma downloadSignature_spec:
  "ensures (downloadBootstrapSignature env url path w) (\<lambda>x w'. store w' = store w \<and> outcomes w' = outcomes w \<and> running w' = running w
     \<and> no_wipe x \<and> (x = Inr () \<longrightarrow> fs w' = (fs w)(path @ BOOTSTRAP_SIG_SUFFIX := served_signature env url)))"
  by (simp add: downloadBootstrapSignature_def served_signature_def calling_def attempt_def Let_def split: reply.split)

lemma download_spec: "ensures (downloadBootstrap env path w) (downloaded env path w)"
  unfolding downloadBootstrap_def
proof (rule ensures_attempt [OF calling_spec], goal_cases)
  case 1 then show ?case by (simp add: downloaded_def)
next
  case (2 y w1)
  then have w1: "w1 = w" by simp
  show ?case
  proof (cases "rv_latest env")
    case (Served body url)
    show ?thesis
      unfolding Served w1 reply.case
      by (rule ensures_attempt [OF writeResponse_spec], force simp: downloaded_def,
          rule ensures_attempt [OF downloadSignature_spec])
        (use Served in \<open>force simp: downloaded_def\<close>)+
  qed (simp_all add: downloaded_def w1)
qed

lemma attempt_download_spec:
  "ensures (attempt (calling env c w) (\<lambda>_ w. downloadBootstrap env path w)) (downloaded env path w)"
  by (rule ensures_attempt [OF calling_spec]) (auto simp: downloaded_def [abs_def] intro: ensures_weaken [OF download_spec])

lemma retire_result:
  "retireBootstrapArchive env path w = (b, w') \<Longrightarrow> store w' = store w \<and> outcomes w' = outcomes w \<and> running w' = running w"
  by (auto simp: retireBootstrapArchive_def Let_def split: if_splits)

text \<open>What the run records, and the disk it leaves.\<close>

definition outcome_matches :: "restore_env \<Rightarrow> target \<Rightarrow> world \<Rightarrow> bool \<Rightarrow> world \<Rightarrow> outcome \<Rightarrow> bool" where
  "outcome_matches env t w done' w' rec = (
     (running w' \<longrightarrow> store w' \<noteq> Incomplete) \<and>
     done' = (oc_status rec \<in> {Restored, RestoredNodeBehind}) \<and>
     (done' \<longrightarrow> (\<exists>b. store w' = Imported b) \<and> (registered env \<longrightarrow> running w')) \<and>
     (oc_status rec = WipedLeftDown \<longrightarrow> \<not> running w' \<and> (store w' = Incomplete \<or> (\<exists>b. store w' = Imported b))) \<and>
     (oc_status rec = Failed \<longrightarrow> store w' \<noteq> Incomplete) \<and>
     (oc_status rec \<in> {NodeBehind, NonePublished, Disabled} \<longrightarrow> store w' = store w \<and> running w' = running w))"

definition same_state :: "world \<Rightarrow> world \<Rightarrow> bool" where
  "same_state w w' = (store w' = store w \<and> outcomes w' = outcomes w \<and> running w' = running w)"

text \<open>The result of the second half, before its error is caught.\<close>

definition attempted :: "restore_env \<Rightarrow> target \<Rightarrow> string \<Rightarrow> world \<Rightarrow> failure + bool \<Rightarrow> world \<Rightarrow> bool" where
  "attempted env t path w x w' = (case x of
     Inl e \<Rightarrow> restore_post env t path w (Inl e) w'
   | Inr b \<Rightarrow> (\<exists>w1 rec. outcomes w' = outcomes w @ [rec] \<and> same_state w1 (w'\<lparr>outcomes := outcomes w1\<rparr>) \<and>
       (if b then restore_post env t path w (Inr ()) w1 \<and> oc_status rec \<in> {Restored, RestoredNodeBehind}
        else same_state w w1 \<and> oc_status rec = NodeBehind) \<and> oc_module rec = sl_module t))"

lemma verify_refused_spec: "ensures (verifyRefusedArchive env t path w) (\<lambda>x w'. w' = w \<and> no_wipe x)"
  unfolding verifyRefusedArchive_def
  by (rule ensures_attempt [OF checked_spec], simp) (auto intro: ensures_weaken [OF checked_spec])

lemma restore_downloaded_spec:
  assumes "running w \<longrightarrow> registered env"
  shows "ensures (restore_downloaded env t path w) (attempted env t path w)"
proof -
  define tip where "tip = assessNodeTipForRestore ((rv_tip env)\<lparr>te_archive := archive_stream env path w\<rparr>) t"
  show ?thesis
  proof (cases "as_refuse tip")
    case True
    have "ensures (attempt (verifyRefusedArchive env t path w) (\<lambda>_ w.
           let (removed, w) = retireBootstrapArchive env path w
           in (Inr False, recordBootstrapOutcome (sl_module t) NodeBehind (Some removed) w))) (attempted env t path w)"
    proof (rule ensures_attempt [OF verify_refused_spec], goal_cases)
      case 1 then show ?case by (simp add: attempted_def restore_post_def)
    next
      case (2 y w1)
      obtain b w2 where r: "retireBootstrapArchive env path w1 = (b, w2)" by fastforce
      show ?case unfolding r Let_def prod.case using 2 retire_result [OF r]
        by (auto simp: attempted_def recordBootstrapOutcome_def same_state_def)
    qed
    then show ?thesis using True by (simp add: restore_downloaded_def tip_def Let_def)
  next
    case False
    have "ensures (attempt (restoreBootstrap env t path w) (\<lambda>_ w.
           let (removed, w) = retireBootstrapArchive env path w
           in (Inr True, recordRestoredOutcome (sl_module t) tip (Some removed) w))) (attempted env t path w)"
    proof (rule ensures_attempt [OF restore_bootstrap_post [OF assms]], goal_cases)
      case 1 then show ?case by (simp add: attempted_def)
    next
      case (2 y w1)
      obtain b w2 where r: "retireBootstrapArchive env path w1 = (b, w2)" by fastforce
      have "outcomes w1 = outcomes w" using 2 by (simp add: restore_post_def)
      then show ?case unfolding r Let_def prod.case using 2 retire_result [OF r]
        by (auto simp: attempted_def recordBootstrapOutcome_def recordRestoredOutcome_def same_state_def)
    qed
    then show ?thesis using False by (simp add: restore_downloaded_def tip_def Let_def)
  qed
qed

text \<open>An attempt leaves either the store and the container as they were, or a store filled from
  an authentic archive.\<close>

definition attempt_summary :: "restore_env \<Rightarrow> target \<Rightarrow> world \<Rightarrow> bool \<Rightarrow> world \<Rightarrow> outcome \<Rightarrow> bool" where
  "attempt_summary env t w done' w' rec = (
     outcomes w' = outcomes w @ [rec] \<and> oc_module rec = sl_module t \<and>
     ((oc_status rec \<in> {NodeBehind, NonePublished, Disabled} \<and> \<not> done' \<and> store w' = store w \<and> running w' = running w)
      \<or> (oc_status rec = Failed \<and> \<not> done' \<and> store w' = store w \<and> (running w' \<longrightarrow> running w))
      \<or> (\<exists>outer url inner.
           rv_latest env = Served outer url
         \<and> authentic env t (rv_dir env @ ''/latest.tgz'')
             ((fs w)(rv_dir env @ ''/latest.tgz'' \<mapsto> outer, (rv_dir env @ ''/latest.tgz'') @ BOOTSTRAP_SIG_SUFFIX := served_signature env url)) inner
         \<and> ((oc_status rec \<in> {Restored, RestoredNodeBehind} \<and> done' \<and> store w' = Imported inner \<and> (registered env \<longrightarrow> running w'))
            \<or> (oc_status rec = Failed \<and> \<not> done' \<and> store w' = Imported inner)
            \<or> (oc_status rec = WipedLeftDown \<and> \<not> done' \<and> \<not> running w' \<and> store w' \<in> {Incomplete, Imported inner})))))"

lemma ensure_summary:
  assumes "running w \<longrightarrow> registered env" "ensureBootstrap env t w = (d, w')"
  shows "\<exists>rec. attempt_summary env t w d w' rec"
proof (cases "truthy_text (rv_no_bootstrap env) \<noteq> None")
  case True
  then show ?thesis using assms(2) by (auto simp: ensureBootstrap_def recordBootstrapOutcome_def attempt_summary_def)
next
  case False
  define path where "path = rv_dir env @ ''/latest.tgz''"
  obtain x w1 where d: "attempt (calling env TargetDirRead w) (\<lambda>_ w. downloadBootstrap env path w) = (x, w1)" by fastforce
  have dl: "downloaded env path w x w1" using attempt_download_spec [of env TargetDirRead w path] d by simp
  have run: "(case (x, w1) of
          (Inl e, w) \<Rightarrow> (False, record_failure (sl_module t) None e w)
        | (Inr False, w) \<Rightarrow> (False, recordBootstrapOutcome (sl_module t) NonePublished None w)
        | (Inr True, w) \<Rightarrow>
            (case restore_downloaded env t path w of
               (Inl e, w) \<Rightarrow> (False, record_failure (sl_module t) (Some path) e w)
             | (Inr done', w) \<Rightarrow> (done', w))) = (d, w')"
    using assms(2) False d unfolding ensureBootstrap_def Let_def path_def [symmetric] by simp
  show ?thesis
  proof (cases "x = Inr True")
    case False
    then show ?thesis
      using run dl by (cases x) (auto simp: downloaded_def record_failure_def recordBootstrapOutcome_def attempt_summary_def)
  next
    case True
    obtain outer url where pub: "rv_latest env = Served outer url"
      and F: "fs w1 = (fs w)(path \<mapsto> outer, path @ BOOTSTRAP_SIG_SUFFIX := served_signature env url)"
      using dl True by (auto simp: downloaded_def)
    have keep: "store w1 = store w" "outcomes w1 = outcomes w" "running w1 = running w" using dl by (auto simp: downloaded_def)
    obtain y w2 where r: "restore_downloaded env t path w1 = (y, w2)" by fastforce
    have att: "attempted env t path w1 y w2"
      using restore_downloaded_spec [of w1 env t path] assms(1) keep r by simp
    show ?thesis
    proof (cases y)
      case (Inl e)
      then have "d = False" "w' = record_failure (sl_module t) (Some path) e w2" using run True r by auto
      then show ?thesis
        using att Inl keep pub F unfolding attempted_def restore_post_def attempt_summary_def path_def [symmetric]
        by (auto simp: record_failure_def recordBootstrapOutcome_def)
    next
      case (Inr b)
      then have "d = b" "w' = w2" using run True r by auto
      then show ?thesis
        using att Inr keep pub F unfolding attempted_def restore_post_def attempt_summary_def path_def [symmetric]
        by (cases b) (auto simp: same_state_def)
    qed
  qed
qed

text \<open>
  C30. Whatever call fails, the outcome an install's restore attempt records tells the state of
  the disk: \<open>restored\<close> means the store was filled from the archive and the service runs,
  \<open>wiped-left-down\<close> that its container is stopped, the refusals that nothing changed, and
  \<open>failed\<close> never hides a partly wiped store. No container runs over one.
\<close>

theorem restore_outcome_matches_disk:
  assumes "running w \<longrightarrow> registered env" "store w = Original" "ensureBootstrap env t w = (d, w')"
  shows "\<exists>rec. outcomes w' = outcomes w @ [rec] \<and> outcome_matches env t w d w' rec"
  using ensure_summary [OF assms(1,3)] assms(2)
  by (elim exE) (rule exI, auto simp: attempt_summary_def outcome_matches_def)

text \<open>
  C31. The store changes only when the server offered an archive that, as downloaded, passes the
  signature policy with the signature served next to it and does not name another slot, and
  what is imported is the inner archive whose checksum that archive carries, whatever the work
  directory held before.
\<close>

theorem restore_imports_only_the_authentic_archive:
  assumes "running w \<longrightarrow> registered env" "ensureBootstrap env t w = (d, w')" "store w' \<noteq> store w"
  shows "\<exists>outer url inner. rv_latest env = Served outer url
     \<and> authentic env t (rv_dir env @ ''/latest.tgz'')
         ((fs w)(rv_dir env @ ''/latest.tgz'' \<mapsto> outer, (rv_dir env @ ''/latest.tgz'') @ BOOTSTRAP_SIG_SUFFIX := served_signature env url)) inner
     \<and> store w' \<in> {Incomplete, Imported inner}"
  using ensure_summary [OF assms(1,2)] assms(3) unfolding attempt_summary_def by auto

definition demo_sum :: string where "demo_sum = replicate 64 (CHR ''a'')"

definition demo_restore :: "(call \<Rightarrow> bool) \<Rightarrow> restore_env" where
  "demo_restore ok = \<lparr>rv_ok = ok, rv_external = False,
     rv_crypto = \<lparr>sha = (\<lambda>b. if b = ''inner'' then demo_sum else ''0''), key_ok = (\<lambda>k. k = ''pub''),
       verify = (\<lambda>d k s. d = ''0'' \<and> k = ''pub'' \<and> s = ''sig''), sign = (\<lambda>d k. None)\<rparr>,
     rv_tar = \<lparr>tar_list = (\<lambda>b. Some (''dump.sql.gz'' @ CHR 0x0A # ''dump.sha256'')), tar_member = (\<lambda>b n. Some demo_sum), tar_extract = (\<lambda>b. (True, [''dump.sql.gz'' \<mapsto> ''inner'']))\<rparr>,
     rv_signing = \<lparr>sc_require = None, sc_pubkey = None, sc_signing_key = None\<rparr>,
     rv_gunzip = (\<lambda>b. [Stream_error]),
     rv_tip = \<lparr>te_skip = Some ''1'', te_archive = [], te_node_container = None, te_node_cli = (\<lambda>c a. None),
       te_container = None, te_config = None, te_exec = (\<lambda>i c e. None), te_version = None\<rparr>,
     rv_row = Some (Some ''c1''), rv_after_failed_stop = True, rv_no_bootstrap = None, rv_dir = ''/b'',
     rv_latest = Served ''outer'' ''u'', rv_download_ok = True, rv_partial = [],
     rv_sig = (\<lambda>u. Served ''v1 ed25519 sig'' u)\<rparr>"

definition demo_decoder :: target where
  "demo_decoder = \<lparr>sl_module = XCHAIN_DECODER, sl_coin = ''bitcoin'', sl_network = ''mainnet''\<rparr>"

definition demo_installed :: world where
  "demo_installed = \<lparr>fs = [DEFAULT_BOOTSTRAP_PUBKEY_PATH \<mapsto> ''pub''], workdir = Some [''dump.sql.gz'' \<mapsto> ''planted''],
     running = True, store = Original, outcomes = []\<rparr>"

lemma demo_no_meta: "readBootstrapArchiveMeta [Stream_error] = None"
  by (simp add: readBootstrapArchiveMeta_def readLeadingArchiveMember_def reader_init_def finish_def)

lemma demo_signature:
  "tokens ''v1 ed25519 sig'' = [''v1'', ''ed25519'', ''sig'']" "guardSkipped (Some ''1'')"
  "lines_of (''dump.sql.gz'' @ CHR 0x0A # ''dump.sha256'') = [''dump.sql.gz'', ''dump.sha256'']"
  "basename ''dump.sql.gz'' = ''dump.sql.gz''" "basename ''dump.sha256'' = ''dump.sha256''"
  "tokens demo_sum = [demo_sum]" "length demo_sum = 64" "list_all is_hex demo_sum"
  "unsafe_member ''dump.sql.gz'' = False" "unsafe_member ''dump.sha256'' = False"
  "id_status (compareArchiveIdentity None t) = Unchecked"
  by (code_simp | simp add: compareArchiveIdentity_def identity_fields_def identityValue_def)+

lemma demo_restore_simps [simp]:
  "rv_ok (demo_restore ok) = ok" "rv_external (demo_restore ok) = False" "rv_gunzip (demo_restore ok) = (\<lambda>b. [Stream_error])"
  "rv_row (demo_restore ok) = Some (Some ''c1'')" "rv_no_bootstrap (demo_restore ok) = None" "rv_dir (demo_restore ok) = ''/b''"
  "rv_latest (demo_restore ok) = Served ''outer'' ''u''" "rv_download_ok (demo_restore ok)"
  "rv_sig (demo_restore ok) = (\<lambda>u. Served ''v1 ed25519 sig'' u)" "te_skip (rv_tip (demo_restore ok)) = Some ''1''"
  by (simp_all add: demo_restore_def)

lemma demo_expected: "expectedInnerSha (rv_tar (demo_restore ok)) outer ''dump.sha256'' = Inr demo_sum"
  by (simp add: expectedInnerSha_def demo_restore_def assertSafeArchiveMemberNames_def demo_signature Let_def del: append_Cons append.simps)

lemma demo_unpacked:
  "ensureVerifiedInnerArchive (rv_crypto (demo_restore ok)) (rv_tar (demo_restore ok)) outer (Some [''dump.sql.gz'' \<mapsto> ''planted'']) ''dump.sql.gz'' ''dump.sha256''
    = (Inr ''inner'', Some [''dump.sql.gz'' \<mapsto> ''inner''])"
proof -
  have "demo_sum \<noteq> ''0''" by code_simp
  then show ?thesis
    unfolding ensureVerifiedInnerArchive_def demo_expected by (auto simp: extract_inner_def demo_restore_def)
qed

lemma demo_checked:
  "F DEFAULT_BOOTSTRAP_PUBKEY_PATH = Some ''pub'' \<Longrightarrow> F ''/b/latest.tgz'' = Some ''outer'' \<Longrightarrow>
   F (''/b/latest.tgz'' @ BOOTSTRAP_SIG_SUFFIX) = Some ''v1 ed25519 sig'' \<Longrightarrow>
   checkBootstrapSignature (rv_crypto (demo_restore ok)) (rv_signing (demo_restore ok)) F ''/b/latest.tgz'' = Inr ()"
  by (simp add: checkBootstrapSignature_def loadBootstrapPublicKey_def verifyBootstrapSignature_def computeSha256_def demo_signature
      demo_restore_def)

definition demo_disk :: files where
  "demo_disk = [DEFAULT_BOOTSTRAP_PUBKEY_PATH \<mapsto> ''pub'', ''/b/latest.tgz'' \<mapsto> ''outer'',
     ''/b/latest.tgz.sig'' \<mapsto> ''v1 ed25519 sig'']"

lemma demo_paths: "''/b/latest.tgz'' @ BOOTSTRAP_SIG_SUFFIX = ''/b/latest.tgz.sig''"
  "DEFAULT_BOOTSTRAP_PUBKEY_PATH \<noteq> ''/b/latest.tgz.sig''" "DEFAULT_BOOTSTRAP_PUBKEY_PATH \<noteq> ''/b/latest.tgz''"
  by (simp_all add: BOOTSTRAP_SIG_SUFFIX_def DEFAULT_BOOTSTRAP_PUBKEY_PATH_def)

lemma demo_download:
  "rv_ok (demo_restore ok) = ok \<Longrightarrow> ok DirWritable \<Longrightarrow> ok SignatureWrite \<Longrightarrow>
   downloadBootstrap (demo_restore ok) ''/b/latest.tgz'' demo_installed = (Inr True, demo_installed\<lparr>fs := demo_disk\<rparr>)"
  by (simp add: downloadBootstrap_def calling_def attempt_def writeBootstrapResponse_def downloadBootstrapSignature_def
      BOOTSTRAP_SIG_SUFFIX_def demo_installed_def demo_disk_def Let_def)

lemma demo_prepared:
  assumes "\<And>c. c \<noteq> ImportDump \<Longrightarrow> ok c"
  shows "prepareMariaRestore (demo_restore ok) demo_decoder ''/b/latest.tgz'' (demo_installed\<lparr>fs := demo_disk\<rparr>)
    = (Inr (''inner'', True), demo_installed\<lparr>fs := demo_disk, workdir := Some [''dump.sql.gz'' \<mapsto> ''inner''], running := False\<rparr>)"
proof -
  have d: "demo_disk DEFAULT_BOOTSTRAP_PUBKEY_PATH = Some ''pub''" "demo_disk ''/b/latest.tgz'' = Some ''outer''"
    "demo_disk (''/b/latest.tgz'' @ BOOTSTRAP_SIG_SUFFIX) = Some ''v1 ed25519 sig''"
    using demo_paths by (simp_all add: demo_disk_def BOOTSTRAP_SIG_SUFFIX_def)
  show ?thesis
    using assms
    by (simp add: prepareMariaRestore_def calling_def attempt_def gate_archive_def d(2) checked_def demo_checked [OF d] unpack_inner_def
        assertArchiveIdentity_def demo_no_meta demo_signature database_access_def stop_installed_def truthy_text_def stop_service_def
        demo_unpacked demo_installed_def)
qed

lemma demo_decoder_simps [simp]: "sl_module demo_decoder = XCHAIN_DECODER" "outcomes demo_installed = []"
  by (simp_all add: demo_decoder_def demo_installed_def)

lemma demo_restore_run:
  assumes "\<And>c. c \<noteq> ImportDump \<Longrightarrow> ok c"
  shows "running (snd (ensureBootstrap (demo_restore ok) demo_decoder demo_installed)) = ok ImportDump"
    "map oc_status (outcomes (snd (ensureBootstrap (demo_restore ok) demo_decoder demo_installed)))
       = [if ok ImportDump then Restored else WipedLeftDown]"
    "store (snd (ensureBootstrap (demo_restore ok) demo_decoder demo_installed)) = (if ok ImportDump then Imported ''inner'' else Incomplete)"
  using assms demo_prepared [OF assms]
  by (simp_all add: ensureBootstrap_def truthy_text_def demo_download Let_def calling_def attempt_def restore_downloaded_def
      assessNodeTipForRestore_def demo_signature plain_verdict_def restoreBootstrap_def restoreBootstrapMariaDb_def
      module_name_defs restoreMariaDatabase_def recreateMariaDatabase_def importMariaDump_def destroying_def
      startMariaService_def start_service_def retireBootstrapArchive_def recordRestoredOutcome_def recordBootstrapOutcome_def
      record_failure_def)

lemma demo_registered: "registered (demo_restore ok)"
  by (simp add: registered_def truthy_text_def)

theorem restore_outcome_matches_disk_witness:
  "\<exists>d w' rec. ensureBootstrap (demo_restore (\<lambda>c. c \<noteq> ImportDump)) demo_decoder demo_installed = (d, w')
     \<and> oc_status rec = WipedLeftDown \<and> store w' = Incomplete
     \<and> outcome_matches (demo_restore (\<lambda>c. c \<noteq> ImportDump)) demo_decoder demo_installed d w' rec"
proof -
  let ?env = "demo_restore (\<lambda>c. c \<noteq> ImportDump)"
  obtain d w' where run: "ensureBootstrap ?env demo_decoder demo_installed = (d, w')" by fastforce
  have "store demo_installed = Original" by (simp add: demo_installed_def)
  then obtain rec where rec: "outcomes w' = outcomes demo_installed @ [rec]" "outcome_matches ?env demo_decoder demo_installed d w' rec"
    using restore_outcome_matches_disk [OF _ _ run] demo_registered by blast
  then show ?thesis using run demo_restore_run [of "\<lambda>c. c \<noteq> ImportDump"] by auto
qed

theorem restore_imports_only_the_authentic_archive_witness:
  "\<exists>outer url. rv_latest (demo_restore (\<lambda>c. True)) = Served outer url
     \<and> authentic (demo_restore (\<lambda>c. True)) demo_decoder (rv_dir (demo_restore (\<lambda>c. True)) @ ''/latest.tgz'')
         ((fs demo_installed)(rv_dir (demo_restore (\<lambda>c. True)) @ ''/latest.tgz'' \<mapsto> outer,
            (rv_dir (demo_restore (\<lambda>c. True)) @ ''/latest.tgz'') @ BOOTSTRAP_SIG_SUFFIX := served_signature (demo_restore (\<lambda>c. True)) url)) ''inner''"
proof -
  let ?env = "demo_restore (\<lambda>c. True)"
  obtain d w' where run: "ensureBootstrap ?env demo_decoder demo_installed = (d, w')" by fastforce
  have s: "store w' = Imported ''inner''" using demo_restore_run(3) [of "\<lambda>c. True"] run by simp
  then have "store w' \<noteq> store demo_installed" by (simp add: demo_installed_def)
  then obtain outer url inner where "rv_latest ?env = Served outer url" "store w' \<in> {Incomplete, Imported inner}"
    "authentic ?env demo_decoder (rv_dir ?env @ ''/latest.tgz'')
         ((fs demo_installed)(rv_dir ?env @ ''/latest.tgz'' \<mapsto> outer, (rv_dir ?env @ ''/latest.tgz'') @ BOOTSTRAP_SIG_SUFFIX := served_signature ?env url)) inner"
    using restore_imports_only_the_authentic_archive [OF _ run] demo_registered by blast
  moreover have "inner = ''inner''" using calculation(2) s by simp
  ultimately show ?thesis by blast
qed

end
