(* ===== verification/TrackerArchive.thy ===== *)
theory TrackerArchive
  imports JsEffects ArchiveSigning ArchiveMeta JsNumber HealthGate
begin

text \<open>
  Publishing a utxo-tracker archive: \<open>services/bootstrap_service/tracker_height.js\<close>,
  \<open>tracker_archive.js\<close>, the capacity check of \<open>workspace.js\<close> and the encoder's maintenance window
  of \<open>services/encoder_maintenance_window.js\<close>. The world holds what an outage is made of: whether
  the tracker runs, whether the encoder's window is declared, the snapshot in the volume, and
  the archive in the output directory.
\<close>

section \<open>The recorded height\<close>

text \<open>\<open>None\<close> is the error of a reading that exists before the stop only.\<close>

definition chooseArchiveHeight :: "int option \<Rightarrow> int option \<Rightarrow> int option \<Rightarrow> int option option" where
  "chooseArchiveHeight preStop postRestart frozen = (case frozen of
     Some f \<Rightarrow> Some (Some f)
   | None \<Rightarrow> (case (preStop, postRestart) of
       (Some _, None) \<Rightarrow> None
     | (None, None) \<Rightarrow> Some None
     | (None, Some q) \<Rightarrow> Some (Some q)
     | (Some p, Some q) \<Rightarrow> Some (Some (max p q))))"

definition refusePreStopOnlyHeight :: "int option \<Rightarrow> int option \<Rightarrow> int option \<Rightarrow> bool" where
  "refusePreStopOnlyHeight preStop postRestart frozen = (frozen = None \<and> preStop \<noteq> None \<and> postRestart = None)"

text \<open>The committed height of a status payload: the first usable of the two fields.\<close>

definition usable_height :: "jsnum \<Rightarrow> int option" where
  "usable_height n = (case integer_value n of Some i \<Rightarrow> if 0 \<le> i then Some i else None | None \<Rightarrow> None)"

definition status_height :: "json \<Rightarrow> int option" where
  "status_height p = (let read_at = (\<lambda>k. usable_height (if truthy p then Number_opt (field p k) else Number p))
     in case read_at ''committed_height'' of Some h \<Rightarrow> Some h | None \<Rightarrow> read_at ''tracker_height'')"

definition readTrackerCommittedHeight :: "(string \<rightharpoonup> string) option \<Rightarrow> (exec_cmd \<Rightarrow> string option) \<Rightarrow> int option" where
  "readTrackerCommittedHeight cfg exec = (case cfg of
     None \<Rightarrow> None
   | Some c \<Rightarrow> (case c ''UTXO_TRACKER_API_PORT'' of
       None \<Rightarrow> None
     | Some port \<Rightarrow> if port = [] then None else Option.bind (probeServiceStatus exec port) status_height))"

definition POST_RESTART_PROBE_ATTEMPTS :: nat where "POST_RESTART_PROBE_ATTEMPTS = 60"

text \<open>The reading of each attempt, in order.\<close>

fun first_height :: "(nat \<Rightarrow> int option) \<Rightarrow> nat list \<Rightarrow> int option" where
  "first_height reading [] = None"
| "first_height reading (i # rest) = (case reading i of Some h \<Rightarrow> Some h | None \<Rightarrow> first_height reading rest)"

definition readTrackerHeightAfterRestart :: "(nat \<Rightarrow> int option) \<Rightarrow> int option" where
  "readTrackerHeightAfterRestart reading = first_height reading [0..<POST_RESTART_PROBE_ATTEMPTS]"

text \<open>The marker file of a cleanly closed store; \<open>None\<close> when \<open>cat\<close> fails.\<close>

definition readFrozenStoreHeight :: "string option \<Rightarrow> int option" where
  "readFrozenStoreHeight out = (case out of
     None \<Rightarrow> None
   | Some o' \<Rightarrow> let text = trim o' in
       if text \<noteq> [] \<and> list_all is_digit text \<and> decimal_nat text < 2 ^ 53 then Some (int (decimal_nat text)) else None)"

lemma frozen_height_text:
  assumes "n < 2 ^ 53"
  shows "readFrozenStoreHeight (Some (show_nat n @ [CHR 0x0A])) = Some (int n)"
  using assms show_nat_digits [of n] by (simp add: readFrozenStoreHeight_def del: append_Cons)

section \<open>Room for the archive\<close>

definition BOOTSTRAP_FS_RESERVE_BYTES :: nat where "BOOTSTRAP_FS_RESERVE_BYTES = 2 * 1024 * 1024 * 1024"

text \<open>Whether a directory passes; \<open>free\<close> is what \<open>statfs\<close> measures under its nearest existing parent.\<close>

definition assertPathCapacity :: "nat option \<Rightarrow> nat \<Rightarrow> bool" where
  "assertPathCapacity free estimatedBytes = (estimatedBytes = 0 \<or> (case free of
     None \<Rightarrow> True | Some f \<Rightarrow> estimatedBytes + BOOTSTRAP_FS_RESERVE_BYTES \<le> f))"

definition assertBootstrapCapacity :: "nat option \<Rightarrow> nat option \<Rightarrow> nat \<Rightarrow> bool" where
  "assertBootstrapCapacity workFree outputFree estimatedBytes =
     (assertPathCapacity workFree estimatedBytes \<and> assertPathCapacity outputFree estimatedBytes)"

section \<open>Two pipelines\<close>

text \<open>
  The events of \<open>tar | gzip > file\<close> in the order they fire: a spawn error, a stream error, the
  file written to the end of what \<open>tar\<close> gave, and \<open>tar\<close> gone with its exit code (\<open>None\<close> on a
  signal). \<open>Some True\<close> is a resolved promise, \<open>Some False\<close> a rejected one. The wrapper waits for
  both ends; the compress takes the first event that decides.
\<close>

datatype pipe_event = Spawn_error | Gzip_error | Write_error | Finished | Closed "int option"

fun compress_settles :: "pipe_event list \<Rightarrow> bool option" where
  "compress_settles [] = None"
| "compress_settles (Finished # evs) = Some True"
| "compress_settles (Closed c # evs) = (if c \<noteq> Some 0 then Some False else compress_settles evs)"
| "compress_settles (Gzip_error # evs) = compress_settles evs"
| "compress_settles (_ # evs) = Some False"

fun wrap_settles :: "int option \<Rightarrow> bool \<Rightarrow> pipe_event list \<Rightarrow> bool option" where
  "wrap_settles tarExit written [] = None"
| "wrap_settles tarExit written (Finished # evs) =
     (if tarExit = None then wrap_settles tarExit True evs else Some (tarExit = Some 0))"
| "wrap_settles tarExit written (Closed c # evs) =
     (if c = None \<or> \<not> written then wrap_settles c written evs else Some (c = Some 0))"
| "wrap_settles tarExit written (_ # evs) = Some False"

definition writeStoredGzipTar :: "pipe_event list \<Rightarrow> bool option" where
  "writeStoredGzipTar = wrap_settles None False"

definition tar_completed :: "pipe_event list \<Rightarrow> bool" where
  "tar_completed evs = (\<forall>c. Closed c \<in> set evs \<longrightarrow> c = Some 0)"

text \<open>
  The wrapper never resolves on a truncated archive, in whatever order the events fire; after a
  \<open>tar\<close> killed by a signal it never settles at all.
\<close>

lemma wrap_settles_complete:
  "wrap_settles te wr evs = Some True \<Longrightarrow> (te = Some 0 \<or> Closed (Some 0) \<in> set evs) \<and> (wr \<or> Finished \<in> set evs)"
  by (induction te wr evs rule: wrap_settles.induct) (auto split: if_splits)

lemma wrapper_resolves_complete:
  "writeStoredGzipTar evs = Some True \<Longrightarrow> Closed (Some 0) \<in> set evs \<and> Finished \<in> set evs"
  unfolding writeStoredGzipTar_def by (drule wrap_settles_complete) simp

lemma killed_wrapper_hangs:
  "writeStoredGzipTar [Finished, Closed None] = None" "writeStoredGzipTar [Closed None, Finished] = None"
  by (simp_all add: writeStoredGzipTar_def)

text \<open>The compress does when the file is finished before \<open>tar\<close> reports its failure.\<close>

lemma compress_resolves_truncated: "compress_settles [Finished, Closed (Some 1)] = Some True"
  by simp

lemma compress_in_order:
  assumes "compress_settles (pre @ Closed c # post) = Some True" "Finished \<notin> set pre"
  shows "c = Some 0"
  using assms by (induction pre rule: compress_settles.induct) (auto split: if_splits)

section \<open>The run\<close>

text \<open>
  \<open>ta_complete\<close>: \<open>tar\<close> gave all of the store; \<open>ta_consistent\<close>: the bytes were read from the
  snapshot or with the tracker down. \<open>ta_held\<close> is the height of the store at the stop, which the
  archive holds.
\<close>

record archive =
  ta_complete :: bool
  ta_consistent :: bool
  ta_held :: int
  ta_height :: "int option"
  ta_signed :: bool

text \<open>The last five fields are the run's own variables.\<close>

record tworld =
  up :: bool
  window :: bool
  snapshot :: bool
  published :: "archive option"
  maintenanceDeclared :: bool
  containerRestored :: bool
  preStopHeight :: "int option"
  postRestartHeight :: "int option"
  frozenHeight :: "int option"

datatype tcall =
    ReadTargets | DropStaleSnapshot | FindContainer | PrepareDirs | ClearWindow | TakeSnapshot | DropHalfSnapshot
  | StartFromSnapshot | WriteChecksum | StartAfterCompress | WriteMeta | SignArchive | RemoveStaging
  | RemoveSnapshot | StartInCleanup

datatype terror = TCall tcall | NoSpace | CompressFailed | WrapFailed | StopFailed | UncleanStop | HeightUnknown

record stop_result =
  st_killed :: bool
  st_unclean :: bool

text \<open>
  \<open>tk_stop\<close> is the stop's outcome, \<open>None\<close> when it throws, with whether the tracker still runs
  then; \<open>tk_held\<close> the height of the store once stopped. \<open>tk_compress\<close> and \<open>tk_wrap\<close> are
  the events of the pipelines; the run is modelled for pipelines that settle (\<open>pipelines_settle\<close>).
\<close>

record tracker_env =
  tk_ok :: "tcall \<Rightarrow> bool"
  tk_work_free :: "nat option"
  tk_output_free :: "nat option"
  tk_bytes :: nat
  tk_encoder :: bool
  tk_stop :: "stop_result option"
  tk_up_after_failed_stop :: bool
  tk_pre :: "int option"
  tk_post :: "nat \<Rightarrow> int option"
  tk_frozen :: "string option"
  tk_held :: int
  tk_sign :: bool
  tk_compress :: "pipe_event list"
  tk_wrap :: "pipe_event list"

type_synonym 'a tracker_run = "(terror, 'a, tworld) run_result"

definition tdo :: "tracker_env \<Rightarrow> tcall \<Rightarrow> (tworld \<Rightarrow> tworld) \<Rightarrow> tworld \<Rightarrow> unit tracker_run" where
  "tdo env c f w = (if tk_ok env c then (Inr (), f w) else (Inl (TCall c), w))"

definition prepareTrackerArchive :: "tracker_env \<Rightarrow> tworld \<Rightarrow> unit tracker_run" where
  "prepareTrackerArchive env w =
     attempt (tdo env ReadTargets id w) (\<lambda>_ w.
     attempt (tdo env DropStaleSnapshot (\<lambda>w. w\<lparr>snapshot := False\<rparr>) w) (\<lambda>_ w.
     if \<not> assertBootstrapCapacity (tk_work_free env) (tk_output_free env) (tk_bytes env) then (Inl NoSpace, w)
     else attempt (tdo env FindContainer id w) (\<lambda>_ w.
     tdo env PrepareDirs id (w\<lparr>preStopHeight := tk_pre env, postRestartHeight := None, frozenHeight := None\<rparr>))))"

text \<open>Declaring and clearing the window is best effort; \<open>tk_encoder\<close> is whether the declaration landed.\<close>

definition beginTrackerMaintenance :: "tracker_env \<Rightarrow> tworld \<Rightarrow> tworld" where
  "beginTrackerMaintenance env w = w\<lparr>window := tk_encoder env \<or> window w, maintenanceDeclared := tk_encoder env\<rparr>"

definition endMaintenanceWindow :: "tracker_env \<Rightarrow> tworld \<Rightarrow> tworld" where
  "endMaintenanceWindow env w =
     (if \<not> maintenanceDeclared w then w
      else w\<lparr>maintenanceDeclared := False, window := window w \<and> \<not> tk_ok env ClearWindow\<rparr>)"

definition stop_tracker :: "tracker_env \<Rightarrow> tworld \<Rightarrow> stop_result tracker_run" where
  "stop_tracker env w = (case tk_stop env of
     None \<Rightarrow> (Inl StopFailed, w\<lparr>up := up w \<and> tk_up_after_failed_stop env\<rparr>)
   | Some st \<Rightarrow> (Inr st, w\<lparr>up := False\<rparr>))"

definition restartTrackerAndReadHeight :: "tracker_env \<Rightarrow> tcall \<Rightarrow> tworld \<Rightarrow> unit tracker_run" where
  "restartTrackerAndReadHeight env c w =
     attempt (tdo env c (\<lambda>w. w\<lparr>up := True, containerRestored := True\<rparr>) w) (\<lambda>_ w.
     let w1 = (endMaintenanceWindow env w)\<lparr>postRestartHeight := readTrackerHeightAfterRestart (tk_post env)\<rparr>
     in if refusePreStopOnlyHeight (preStopHeight w1) (postRestartHeight w1) (frozenHeight w1)
        then (Inl HeightUnknown, w1) else (Inr (), w1))"

text \<open>Whether the snapshot was taken; the tracker runs again then.\<close>

definition takeTrackerSnapshot :: "tracker_env \<Rightarrow> tworld \<Rightarrow> bool tracker_run" where
  "takeTrackerSnapshot env w =
     (if tk_ok env TakeSnapshot
      then attempt (restartTrackerAndReadHeight env StartFromSnapshot (w\<lparr>snapshot := True\<rparr>)) (\<lambda>_ w. (Inr True, w))
      else attempt (tdo env DropHalfSnapshot (\<lambda>w. w\<lparr>snapshot := False\<rparr>) w) (\<lambda>_ w. (Inr False, w)))"

definition compressTrackerArchive :: "tracker_env \<Rightarrow> bool \<Rightarrow> tworld \<Rightarrow> bool tracker_run" where
  "compressTrackerArchive env snapshotTaken w =
     (if compress_settles (tk_compress env) \<noteq> Some True then (Inl CompressFailed, w)
      else attempt (tdo env WriteChecksum id w) (\<lambda>_ w. (Inr (if snapshotTaken then snapshot w else \<not> up w), w)))"

text \<open>A failed wrap removes its partial output; a failed signature leaves the unsigned archive.\<close>

definition finalizeTrackerArchive :: "tracker_env \<Rightarrow> bool \<Rightarrow> int option \<Rightarrow> tworld \<Rightarrow> unit tracker_run" where
  "finalizeTrackerArchive env consistent height w =
     attempt (tdo env WriteMeta id w) (\<lambda>_ w.
     if writeStoredGzipTar (tk_wrap env) \<noteq> Some True then (Inl WrapFailed, w)
     else let w = w\<lparr>published := Some \<lparr>ta_complete = tar_completed (tk_compress env), ta_consistent = consistent,
                 ta_held = tk_held env, ta_height = height, ta_signed = False\<rparr>\<rparr> in
     attempt (if tk_sign env then tdo env SignArchive (\<lambda>w. w\<lparr>published := map_option (\<lambda>a. a\<lparr>ta_signed := True\<rparr>) (published w)\<rparr>) w
              else (Inr (), w)) (\<lambda>_ w.
     tdo env RemoveStaging id w))"

definition cleanupTrackerArchive :: "tracker_env \<Rightarrow> tworld \<Rightarrow> unit tracker_run" where
  "cleanupTrackerArchive env w =
     (let w1 = (if tk_ok env RemoveSnapshot then w\<lparr>snapshot := False\<rparr> else w) in
      attempt (if containerRestored w1 then (Inr (), w1) else tdo env StartInCleanup (\<lambda>w. w\<lparr>up := True\<rparr>) w1) (\<lambda>_ w.
      (Inr (), endMaintenanceWindow env w)))"

definition archive_stopped_store :: "tracker_env \<Rightarrow> stop_result \<Rightarrow> tworld \<Rightarrow> unit tracker_run" where
  "archive_stopped_store env st w =
     (if st_killed st \<or> st_unclean st then (Inl UncleanStop, w)
      else
     attempt (takeTrackerSnapshot env w) (\<lambda>snapshotTaken w.
     attempt (compressTrackerArchive env snapshotTaken w) (\<lambda>consistent w.
     let w = w\<lparr>frozenHeight := readFrozenStoreHeight (tk_frozen env)\<rparr> in
     attempt (if snapshotTaken then (Inr (), w) else restartTrackerAndReadHeight env StartAfterCompress w) (\<lambda>_ w.
     case chooseArchiveHeight (preStopHeight w) (postRestartHeight w) (frozenHeight w) of
       None \<Rightarrow> (Inl HeightUnknown, w)
     | Some height \<Rightarrow> finalizeTrackerArchive env consistent height w))))"

text \<open>The stop comes before the \<open>try\<close> block.\<close>

definition makeBootstrapUtxoTracker :: "tracker_env \<Rightarrow> tworld \<Rightarrow> unit tracker_run" where
  "makeBootstrapUtxoTracker env w =
     attempt (prepareTrackerArchive env w) (\<lambda>_ w.
     attempt (stop_tracker env (beginTrackerMaintenance env w)) (\<lambda>st w.
     try_finally (archive_stopped_store env st (w\<lparr>containerRestored := False\<rparr>)) (cleanupTrackerArchive env)))"

section \<open>What a publish leaves\<close>

text \<open>
  The readings are of the store they claim: the marker of the frozen store is its height, and
  a restarted tracker has not rolled back below it.
\<close>

definition honest_heights :: "tracker_env \<Rightarrow> bool" where
  "honest_heights env = ((\<forall>f. readFrozenStoreHeight (tk_frozen env) = Some f \<longrightarrow> f = tk_held env)
     \<and> (\<forall>i h. tk_post env i = Some h \<longrightarrow> tk_held env \<le> h))"

definition pipelines_settle :: "tracker_env \<Rightarrow> bool" where
  "pipelines_settle env = (compress_settles (tk_compress env) \<noteq> None \<and> writeStoredGzipTar (tk_wrap env) \<noteq> None)"

definition sound_archive :: "tracker_env \<Rightarrow> archive \<Rightarrow> bool" where
  "sound_archive env a = (ta_complete a = tar_completed (tk_compress env) \<and> ta_consistent a \<and> ta_held a = tk_held env \<and> (\<forall>h. ta_height a = Some h \<longrightarrow> tk_held env \<le> h))"

lemma first_height_reading: "first_height f is = Some h \<Longrightarrow> \<exists>i. f i = Some h"
  by (induction "is") (auto split: option.splits)

lemma chosen_height:
  assumes "chooseArchiveHeight pre post frozen = Some (Some h)"
    "\<And>f. frozen = Some f \<Longrightarrow> held \<le> f" "\<And>q. post = Some q \<Longrightarrow> held \<le> q"
  shows "held \<le> h"
  using assms by (auto simp: chooseArchiveHeight_def max_def split: option.splits if_splits)

text \<open>What holds from the stop on: the run knows whether the tracker is back, the window is declared
  only while it is not, and whatever is published is sound.\<close>

definition outage_inv :: "tracker_env \<Rightarrow> tworld \<Rightarrow> bool" where
  "outage_inv env w = (containerRestored w = up w \<and> (window w \<longrightarrow> maintenanceDeclared w \<and> \<not> up w)
     \<and> (\<forall>q. postRestartHeight w = Some q \<longrightarrow> tk_held env \<le> q) \<and> (\<forall>a. published w = Some a \<longrightarrow> sound_archive env a))"

definition delivered :: "tracker_env \<Rightarrow> tworld \<Rightarrow> bool" where
  "delivered env w = (\<exists>a. published w = Some a \<and> (tk_sign env \<longrightarrow> ta_signed a))"

lemma tdo_ensures:
  assumes "tk_ok env c \<Longrightarrow> Q (Inr ()) (f w)" "Q (Inl (TCall c)) w"
  shows "ensures (tdo env c f w) Q"
  using assms by (simp add: tdo_def)

lemma read_height_after_restart:
  "readTrackerHeightAfterRestart f = Some h \<Longrightarrow> \<exists>i. f i = Some h"
  unfolding readTrackerHeightAfterRestart_def by (rule first_height_reading)

lemma restart_ensures:
  assumes "outage_inv env w" "tk_ok env ClearWindow" "honest_heights env"
  shows "ensures (restartTrackerAndReadHeight env c w)
    (\<lambda>x w'. outage_inv env w' \<and> snapshot w' = snapshot w \<and> published w' = published w \<and> (x = Inr () \<longrightarrow> up w'))"
  unfolding restartTrackerAndReadHeight_def
proof (rule ensures_attempt [where P = "\<lambda>x w'. case x of Inl e \<Rightarrow> w' = w | Inr _ \<Rightarrow> w' = w\<lparr>up := True, containerRestored := True\<rparr>"], goal_cases)
  case 1 show ?case by (simp add: tdo_ensures)
next
  case 2 then show ?case using assms(1) by simp
next
  case (3 y w1)
  have "\<And>q. readTrackerHeightAfterRestart (tk_post env) = Some q \<Longrightarrow> tk_held env \<le> q"
    using assms(3) read_height_after_restart unfolding honest_heights_def by blast
  then show ?case using 3 assms(1,2) by (auto simp: Let_def outage_inv_def endMaintenanceWindow_def)
qed

lemma snapshot_ensures:
  assumes "outage_inv env w" "\<not> up w" "tk_ok env ClearWindow" "honest_heights env"
  shows "ensures (takeTrackerSnapshot env w)
    (\<lambda>x w'. outage_inv env w' \<and> published w' = published w \<and> (case x of Inl _ \<Rightarrow> True | Inr b \<Rightarrow> up w' = b \<and> (b \<longrightarrow> snapshot w')))"
proof (cases "tk_ok env TakeSnapshot")
  case True
  have inv: "outage_inv env (w\<lparr>snapshot := True\<rparr>)" using assms(1) by (simp add: outage_inv_def)
  show ?thesis using True unfolding takeTrackerSnapshot_def
    by (simp only: if_True) (rule ensures_attempt [OF restart_ensures [OF inv assms(3,4)]], auto)
next
  case False
  have "ensures (attempt (tdo env DropHalfSnapshot (\<lambda>w. w\<lparr>snapshot := False\<rparr>) w) (\<lambda>_ w. (Inr False, w)))
    (\<lambda>x w'. outage_inv env w' \<and> published w' = published w \<and> (case x of Inl _ \<Rightarrow> True | Inr b \<Rightarrow> up w' = b \<and> (b \<longrightarrow> snapshot w')))"
    using assms(1,2) by (intro ensures_attempt [OF tdo_ensures [where Q = "\<lambda>x w'. outage_inv env w' \<and> published w' = published w \<and> \<not> up w'"]])
      (auto simp: outage_inv_def)
  then show ?thesis using False by (simp add: takeTrackerSnapshot_def)
qed

lemma finalize_ensures:
  assumes "outage_inv env w" "consistent" "\<And>h. height = Some h \<Longrightarrow> tk_held env \<le> h"
  shows "ensures (finalizeTrackerArchive env consistent height w)
    (\<lambda>x w'. outage_inv env w' \<and> up w' = up w \<and> (x = Inr () \<longrightarrow> delivered env w'))"
  using assms
  by (auto simp: finalizeTrackerArchive_def delivered_def Let_def attempt_def tdo_def outage_inv_def sound_archive_def)

lemma chosen_height_sound:
  assumes "outage_inv env w" "honest_heights env" "frozenHeight w = readFrozenStoreHeight (tk_frozen env)"
    "chooseArchiveHeight (preStopHeight w) (postRestartHeight w) (frozenHeight w) = Some (Some h)"
  shows "tk_held env \<le> h"
proof (rule chosen_height [OF assms(4)])
  show "tk_held env \<le> f" if "frozenHeight w = Some f" for f
    using that assms(2,3) by (simp add: honest_heights_def)
  show "tk_held env \<le> q" if "postRestartHeight w = Some q" for q
    using that assms(1) by (simp add: outage_inv_def)
qed

lemma restarted_ensures:
  assumes "outage_inv env w" "tk_ok env ClearWindow" "honest_heights env" "up w = snapshotTaken"
    "frozenHeight w = readFrozenStoreHeight (tk_frozen env)"
  shows "ensures (if snapshotTaken then (Inr (), w) else restartTrackerAndReadHeight env StartAfterCompress w)
    (\<lambda>x w'. outage_inv env w' \<and> (x = Inr () \<longrightarrow> up w' \<and> frozenHeight w' = readFrozenStoreHeight (tk_frozen env)))"
proof (cases snapshotTaken)
  case True then show ?thesis using assms by simp
next
  case False
  have "frozenHeight (snd (restartTrackerAndReadHeight env StartAfterCompress w)) = frozenHeight w"
    by (auto simp: restartTrackerAndReadHeight_def attempt_def tdo_def Let_def endMaintenanceWindow_def)
  then show ?thesis using restart_ensures [OF assms(1-3), of StartAfterCompress] False assms(5)
    by (auto simp: ensures_def)
qed

lemma stopped_store_ensures:
  assumes "outage_inv env w" "\<not> up w" "tk_ok env ClearWindow" "honest_heights env"
  shows "ensures (archive_stopped_store env st w)
    (\<lambda>x w'. outage_inv env w' \<and> ((st_killed st \<or> st_unclean st) \<longrightarrow> published w' = published w) \<and> (x = Inr () \<longrightarrow> up w' \<and> delivered env w'))"
proof (cases "st_killed st \<or> st_unclean st")
  case True then show ?thesis using assms(1) by (simp add: archive_stopped_store_def)
next
  case clean: False
  have "ensures (attempt (takeTrackerSnapshot env w) (\<lambda>snapshotTaken w.
     attempt (compressTrackerArchive env snapshotTaken w) (\<lambda>consistent w.
     let w = w\<lparr>frozenHeight := readFrozenStoreHeight (tk_frozen env)\<rparr> in
     attempt (if snapshotTaken then (Inr (), w) else restartTrackerAndReadHeight env StartAfterCompress w) (\<lambda>_ w.
     case chooseArchiveHeight (preStopHeight w) (postRestartHeight w) (frozenHeight w) of
       None \<Rightarrow> (Inl HeightUnknown, w)
     | Some height \<Rightarrow> finalizeTrackerArchive env consistent height w))))
    (\<lambda>x w'. outage_inv env w' \<and> (x = Inr () \<longrightarrow> up w' \<and> delivered env w'))" (is "ensures _ ?Q")
  proof (rule ensures_attempt [OF snapshot_ensures [OF assms]], goal_cases)
    case 1 then show ?case by simp
  next
    case (2 snapshotTaken w1)
    show ?case
    proof (rule ensures_attempt [where P = "\<lambda>x w2. w2 = w1 \<and> (case x of Inl _ \<Rightarrow> True | Inr b \<Rightarrow> b)"], goal_cases)
      case 1 then show ?case using 2 by (auto simp: compressTrackerArchive_def attempt_def tdo_def)
    next
      case (2 e w2) then show ?case using \<open>outage_inv env w1 \<and> _\<close> by simp
    next
      case (3 consistent w2)
      let ?w = "w2\<lparr>frozenHeight := readFrozenStoreHeight (tk_frozen env)\<rparr>"
      have w: "outage_inv env ?w" "up ?w = snapshotTaken" "consistent" using 2 3 by (auto simp: outage_inv_def)
      show ?case unfolding Let_def
      proof (rule ensures_attempt [OF restarted_ensures [OF w(1) assms(3,4) w(2)]], goal_cases)
        case 1 then show ?case by simp
      next
        case 2 then show ?case by simp
      next
        case (3 u w3)
        show ?case
        proof (cases "chooseArchiveHeight (preStopHeight w3) (postRestartHeight w3) (frozenHeight w3)")
          case None then show ?thesis using 3 by simp
        next
          case (Some height)
          have "ensures (finalizeTrackerArchive env consistent height w3)
            (\<lambda>x w'. outage_inv env w' \<and> up w' = up w3 \<and> (x = Inr () \<longrightarrow> delivered env w'))"
            using 3 Some by (intro finalize_ensures) (auto intro: w(3) chosen_height_sound [OF _ assms(4), of w3])
          then show ?thesis using 3 Some by (auto elim: ensures_weaken)
        qed
      qed
    qed
  qed
  then show ?thesis using clean unfolding archive_stopped_store_def by simp
qed

text \<open>The finally block leaves the service up and the window closed, or fails on the very start.\<close>

lemma cleanup_ensures:
  assumes "outage_inv env w" "tk_ok env ClearWindow"
  shows "ensures (cleanupTrackerArchive env w)
    (\<lambda>x w'. published w' = published w \<and> (case x of Inr _ \<Rightarrow> up w' \<and> \<not> window w'
       | Inl e \<Rightarrow> e = TCall StartInCleanup \<and> \<not> tk_ok env StartInCleanup \<and> \<not> up w \<and> \<not> up w'))"
  using assms
  by (auto simp: cleanupTrackerArchive_def attempt_def tdo_def outage_inv_def Let_def endMaintenanceWindow_def)

lemma prepare_ensures:
  "ensures (prepareTrackerArchive env w) (\<lambda>x w'. x \<noteq> Inl StopFailed \<and> up w' = up w \<and> window w' = window w \<and> published w' = published w
     \<and> (x = Inr () \<longrightarrow> postRestartHeight w' = None \<and> assertBootstrapCapacity (tk_work_free env) (tk_output_free env) (tk_bytes env)))"
  by (auto simp: prepareTrackerArchive_def attempt_def tdo_def)

definition publish_outcome :: "tracker_env \<Rightarrow> stop_result \<Rightarrow> terror + unit \<Rightarrow> tworld \<Rightarrow> bool" where
  "publish_outcome env st x w' =
     ((up w' \<and> \<not> window w' \<or> x = Inl (TCall StartInCleanup) \<and> \<not> tk_ok env StartInCleanup)
      \<and> (\<forall>a. published w' = Some a \<longrightarrow> sound_archive env a \<and> \<not> st_killed st \<and> \<not> st_unclean st
            \<and> assertBootstrapCapacity (tk_work_free env) (tk_output_free env) (tk_bytes env))
      \<and> (x = Inr () \<longrightarrow> delivered env w'))"

lemma publish_ensures:
  assumes "up w" "\<not> window w" "published w = None" "tk_stop env = Some st" "tk_ok env ClearWindow" "honest_heights env"
  shows "ensures (makeBootstrapUtxoTracker env w) (publish_outcome env st)"
  unfolding makeBootstrapUtxoTracker_def
proof (rule ensures_attempt [OF prepare_ensures], goal_cases)
  case 1 then show ?case using assms(1-3) by (simp add: publish_outcome_def)
next
  case (2 u w1)
  let ?w = "(beginTrackerMaintenance env w1)\<lparr>up := False, containerRestored := False\<rparr>"
  have inv: "outage_inv env ?w" "\<not> up ?w" "published ?w = None"
    using 2 assms(2,3) by (auto simp: outage_inv_def beginTrackerMaintenance_def)
  have "ensures (try_finally (archive_stopped_store env st ?w) (cleanupTrackerArchive env)) (publish_outcome env st)"
  proof (rule ensures_finally [OF stopped_store_ensures [OF inv(1,2) assms(5,6)]], goal_cases)
    case (1 x w2)
    then have "outage_inv env w2" by simp
    from cleanup_ensures [OF this assms(5)] show ?case
      by (rule ensures_weaken) (use 1 2 inv(3) in \<open>auto simp: publish_outcome_def outage_inv_def delivered_def split: sum.splits\<close>)
  qed
  then show ?case by (simp add: stop_tracker_def assms(4) attempt_def)
qed


definition demo_publish :: "(tcall \<Rightarrow> bool) \<Rightarrow> stop_result option \<Rightarrow> pipe_event list \<Rightarrow> tracker_env" where
  "demo_publish ok stop evs = \<lparr>tk_ok = ok, tk_work_free = None, tk_output_free = Some (2 ^ 40), tk_bytes = 2 ^ 30,
     tk_encoder = True, tk_stop = stop, tk_up_after_failed_stop = False, tk_pre = Some 800, tk_post = (\<lambda>i. if i < 2 then None else Some 806),
     tk_frozen = Some (''805'' @ [CHR 0x0A]), tk_held = 805, tk_sign = True, tk_compress = evs, tk_wrap = [Closed (Some 0), Finished]\<rparr>"

definition demo_tracker :: tworld where
  "demo_tracker = \<lparr>up = True, window = False, snapshot = True, published = None, maintenanceDeclared = False,
     containerRestored = False, preStopHeight = None, postRestartHeight = None, frozenHeight = None\<rparr>"

lemma demo_frozen: "readFrozenStoreHeight (Some (''805'' @ [CHR 0x0A])) = Some 805"
proof -
  have "''805'' = show_nat 805" by code_simp
  then show ?thesis using frozen_height_text [of 805] by simp
qed

lemma demo_post: "readTrackerHeightAfterRestart (\<lambda>i. if i < 2 then None else Some 806) = Some 806"
  by (simp add: readTrackerHeightAfterRestart_def POST_RESTART_PROBE_ATTEMPTS_def upt_conv_Cons)

lemma demo_room: "assertBootstrapCapacity None (Some 1099511627776) 1073741824"
  by (simp add: assertBootstrapCapacity_def assertPathCapacity_def BOOTSTRAP_FS_RESERVE_BYTES_def)

text \<open>Without a snapshot, and with the signature failing at the end.\<close>

abbreviation demo_publish_env :: tracker_env where
  "demo_publish_env \<equiv> demo_publish (\<lambda>c. c \<noteq> TakeSnapshot \<and> c \<noteq> SignArchive) (Some \<lparr>st_killed = False, st_unclean = False\<rparr>) [Closed (Some 0), Finished]"

lemma demo_publish_run:
  "fst (makeBootstrapUtxoTracker demo_publish_env demo_tracker) = Inl (TCall SignArchive)"
  "published (snd (makeBootstrapUtxoTracker demo_publish_env demo_tracker))
     = Some \<lparr>ta_complete = True, ta_consistent = True, ta_held = 805, ta_height = Some 805, ta_signed = False\<rparr>"
  by (simp_all add: demo_publish_def demo_tracker_def makeBootstrapUtxoTracker_def prepareTrackerArchive_def demo_room tdo_def attempt_def
      try_finally_def stop_tracker_def beginTrackerMaintenance_def archive_stopped_store_def takeTrackerSnapshot_def compressTrackerArchive_def
      tar_completed_def demo_frozen demo_post restartTrackerAndReadHeight_def endMaintenanceWindow_def refusePreStopOnlyHeight_def Let_def
      chooseArchiveHeight_def finalizeTrackerArchive_def writeStoredGzipTar_def cleanupTrackerArchive_def del: append_Cons)

lemma demo_publish_honest: "honest_heights demo_publish_env"
  by (simp add: honest_heights_def demo_publish_def demo_frozen del: append_Cons)


text \<open>A stop that throws leaves before the \<open>try\<close> block: the declared window is never closed.\<close>

lemma failed_stop_leaves_window:
  assumes "tk_stop env = None" "tk_encoder env" "makeBootstrapUtxoTracker env w = (Inl StopFailed, w')"
  shows "window w'"
  using assms prepare_ensures [of env w]
  by (auto simp: makeBootstrapUtxoTracker_def attempt_def stop_tracker_def beginTrackerMaintenance_def ensures_def split: prod.splits sum.splits)

text \<open>A null height of the status is read as 0, before the other field is looked at.\<close>

lemma null_height_is_zero:
  assumes "field p ''committed_height'' = Some JNull" "truthy p"
  shows "status_height p = Some 0"
proof -
  have "dbl 0 = 0" using dbl_nat [of 0] by simp
  then have "Number JNull = Fin 0" by (simp add: Number_def to_num_def double_limit_def)
  then show ?thesis using assms by (simp add: status_height_def usable_height_def Number_opt_def integer_value_def)
qed

text \<open>A rollback during the restart, with no marker: 103 is recorded for data up to 105.\<close>

lemma rollback_understates: "chooseArchiveHeight (Some 100) (Some 103) None = Some (Some 103)"
  by (simp add: chooseArchiveHeight_def)

end
