(* ===== verification/RepublishLedger.thy ===== *)
theory RepublishLedger
  imports JsPretty JsDate Naming
begin

text \<open>
  \<open>services/bootstrap_republish_ledger.js\<close>: which published archives predate the last reindex
  of their store. The file is its text; the instants are the texts of \<open>toISOString\<close>, and \<open>other\<close>
  is what \<open>Date.parse\<close> makes of any other text.
\<close>

section \<open>Combos\<close>

definition BOOTSTRAPPED_SERVICES :: "string list" where
  "BOOTSTRAPPED_SERVICES = [XCHAIN_UTXO_TRACKER, XCHAIN_DECODER, XCHAIN_INDEXER]"

definition LEDGER_VERSION :: jsnum where "LEDGER_VERSION = Fin 1"

definition comboKey :: "string \<Rightarrow> string \<Rightarrow> string \<Rightarrow> string" where
  "comboKey module' coin network = module' @ CHR '':'' # coin @ CHR '':'' # network"

definition parseComboKey :: "string \<Rightarrow> (string \<times> string \<times> string) option" where
  "parseComboKey key = (case split_on (CHR '':'') key of
     [m, c, n] \<Rightarrow> if m \<notin> set BOOTSTRAPPED_SERVICES then None
                  else if CoinTickerSymbol c = None then None
                  else if n \<notin> set Networks then None
                  else Some (m, c, n)
   | _ \<Rightarrow> None)"

definition valid_key :: "string \<Rightarrow> bool" where
  "valid_key key = (parseComboKey key \<noteq> None)"

section \<open>The ledger and its file\<close>

record entry =
  reindexedAt :: "string option"
  publishedAt :: "string option"
  reason :: "string option"

type_synonym ledger = "(string \<times> entry) list"

definition parseInstant :: "(string \<Rightarrow> int option) \<Rightarrow> string option \<Rightarrow> int option" where
  "parseInstant other value = (case value of None \<Rightarrow> None | Some s \<Rightarrow> if s = [] then None else Date_parse other s)"

fun text_field :: "json option \<Rightarrow> string option" where
  "text_field (Some (JStr s)) = Some s"
| "text_field _ = None"

definition read_entry :: "json \<Rightarrow> entry" where
  "read_entry v = \<lparr>reindexedAt = text_field (field v ''reindexedAt''), publishedAt = text_field (field v ''publishedAt''),
     reason = text_field (field v ''reason'')\<rparr>"

definition readReindexLedger :: "string option \<Rightarrow> ledger" where
  "readReindexLedger file = (case Option.bind file json_parse of
     None \<Rightarrow> []
   | Some parsed \<Rightarrow>
       if \<not> truthy parsed \<or> \<not> is_object parsed then []
       else (case field parsed ''combos'' of
          None \<Rightarrow> []
        | Some combos \<Rightarrow>
            map (\<lambda>kv. (fst kv, read_entry (snd kv)))
              (filter (\<lambda>kv. valid_key (fst kv) \<and> is_object (snd kv)) (JsPrelude.fields combos))))"

definition text_json :: "string option \<Rightarrow> json" where
  "text_json v = (case v of None \<Rightarrow> JNull | Some s \<Rightarrow> JStr s)"

definition entry_json :: "entry \<Rightarrow> json" where
  "entry_json e = JObj [(''reindexedAt'', text_json (reindexedAt e)), (''publishedAt'', text_json (publishedAt e)),
     (''reason'', text_json (reason e))]"

definition ledger_json :: "ledger \<Rightarrow> json" where
  "ledger_json l = JObj [(''version'', JNum LEDGER_VERSION), (''combos'', JObj (map (\<lambda>ke. (fst ke, entry_json (snd ke))) l))]"

text \<open>The file after the write; a failed one leaves the old file, since the text is renamed over it.\<close>

definition writeReindexLedger :: "bool \<Rightarrow> ledger \<Rightarrow> string option \<Rightarrow> bool \<times> string option" where
  "writeReindexLedger ok l file = (if ok then (True, Some (pretty 0 (ledger_json l) @ newline 0)) else (False, file))"

section \<open>Operations\<close>

definition reindexAffectedModules :: "bool \<Rightarrow> bool \<Rightarrow> bool \<Rightarrow> bool \<Rightarrow> string list" where
  "reindexAffectedModules node utxoTracker decoder indexer =
     (if utxoTracker then [XCHAIN_UTXO_TRACKER] else []) @ (if decoder then [XCHAIN_DECODER] else [])
     @ (if indexer then [XCHAIN_INDEXER] else [])"

definition nonempty :: "string option \<Rightarrow> string option" where
  "nonempty v = (case v of Some s \<Rightarrow> if s = [] then None else Some s | None \<Rightarrow> None)"

definition prev_entry :: "ledger \<Rightarrow> string \<Rightarrow> entry" where
  "prev_entry l key = (case map_of l key of Some e \<Rightarrow> e | None \<Rightarrow> \<lparr>reindexedAt = None, publishedAt = None, reason = None\<rparr>)"

definition mark_reindexed :: "int \<Rightarrow> string option \<Rightarrow> string \<Rightarrow> ledger \<Rightarrow> ledger" where
  "mark_reindexed at' why key l = (let prev = prev_entry l key in
     AList.update key \<lparr>reindexedAt = Some (toISOString at'), publishedAt = nonempty (publishedAt prev),
       reason = (case nonempty why of Some r \<Rightarrow> Some r | None \<Rightarrow> nonempty (reason prev))\<rparr> l)"

text \<open>The keys marked, and the file.\<close>

definition recordReindex ::
  "bool \<Rightarrow> string list \<Rightarrow> string \<Rightarrow> string \<Rightarrow> int \<Rightarrow> string option \<Rightarrow> string option \<Rightarrow> string list \<times> string option" where
  "recordReindex ok modules coin network at' why file =
     (let marked = filter (\<lambda>key. valid_key key) (map (\<lambda>m. comboKey m coin network) modules);
          l = fold (mark_reindexed at' why) marked (readReindexLedger file)
      in if marked = [] then ([], file)
         else let (written, file') = writeReindexLedger ok l file in (if written then marked else [], file'))"

definition recordBootstrapPublished ::
  "bool \<Rightarrow> string \<Rightarrow> string \<Rightarrow> string \<Rightarrow> int \<Rightarrow> string option \<Rightarrow> bool \<times> string option" where
  "recordBootstrapPublished ok module' coin network at' file =
     (let key = comboKey module' coin network; l = readReindexLedger file in
      if \<not> valid_key key then (False, file)
      else case map_of l key of
          None \<Rightarrow> (True, file)
        | Some prev \<Rightarrow>
            writeReindexLedger ok (AList.update key \<lparr>reindexedAt = nonempty (reindexedAt prev),
              publishedAt = Some (toISOString at'), reason = nonempty (reason prev)\<rparr> l) file)"

definition isRepublishDue :: "(string \<Rightarrow> int option) \<Rightarrow> entry \<Rightarrow> bool" where
  "isRepublishDue other e = (case parseInstant other (reindexedAt e) of
     None \<Rightarrow> False
   | Some r \<Rightarrow> (case parseInstant other (publishedAt e) of None \<Rightarrow> True | Some p \<Rightarrow> p < r))"

definition listRepublishDue :: "(string \<Rightarrow> int option) \<Rightarrow> ledger \<Rightarrow> (string \<times> entry) list" where
  "listRepublishDue other l =
     sort_key fst (filter (\<lambda>ke. valid_key (fst ke) \<and> isRepublishDue other (snd ke)) l)"

section \<open>What the file keeps\<close>

definition well_formed :: "ledger \<Rightarrow> bool" where
  "well_formed l = (distinct (map fst l) \<and> list_all (\<lambda>ke. valid_key (fst ke)) l)"

lemma read_entry_json [simp]: "read_entry (entry_json e) = e"
  by (cases e) (auto simp: read_entry_def entry_json_def field_def JsPrelude.fields_def text_json_def split: option.splits)

lemma ledger_plain: "well_formed l \<Longrightarrow> plain (ledger_json l)"
  by (auto simp: well_formed_def ledger_json_def LEDGER_VERSION_def entry_json_def text_json_def list_all_iff comp_def split: option.splits)

lemma read_written:
  assumes "well_formed l"
  shows "readReindexLedger (Some (pretty 0 (ledger_json l) @ newline 0)) = l"
proof -
  have "json_parse (pretty 0 (ledger_json l) @ newline 0) = Some (ledger_json l)"
    by (rule json_parse_pretty [OF ledger_plain [OF assms] blank_newline])
  moreover have "filter (\<lambda>kv. valid_key (fst kv) \<and> is_object (snd kv)) (map (\<lambda>ke. (fst ke, entry_json (snd ke))) l)
      = map (\<lambda>ke. (fst ke, entry_json (snd ke))) l"
    using assms by (auto simp: filter_id_conv well_formed_def list_all_iff entry_json_def)
  ultimately show ?thesis
    by (simp add: readReindexLedger_def ledger_json_def field_def JsPrelude.fields_def comp_def del: pretty.simps)
qed

section \<open>The ledger as a map of instants\<close>

text \<open>
  What the ledger is for, without texts or files: the last reindex of every combo, and the last
  publish recorded after the first one.
\<close>

type_synonym lineages = "string \<rightharpoonup> int \<times> int option"

definition spec_reindex :: "string list \<Rightarrow> int \<Rightarrow> lineages \<Rightarrow> lineages" where
  "spec_reindex keys at' a = (\<lambda>k. if k \<in> set keys then Some (at', Option.bind (a k) snd) else a k)"

definition spec_publish :: "string \<Rightarrow> int \<Rightarrow> lineages \<Rightarrow> lineages" where
  "spec_publish key at' a = (case a key of None \<Rightarrow> a | Some (r, p) \<Rightarrow> a(key \<mapsto> (r, Some at')))"

definition spec_due :: "lineages \<Rightarrow> string set" where
  "spec_due a = {k. \<exists>r p. a k = Some (r, p) \<and> (case p of None \<Rightarrow> True | Some q \<Rightarrow> q < r)}"

text \<open>An operation of one of the commands, with its clock and whether its write went through.\<close>

datatype op = Reindex "string list" string string int "string option" bool | Published string string string int bool

fun op_time :: "op \<Rightarrow> int" where
  "op_time (Reindex ms c n t r ok) = t"
| "op_time (Published m c n t ok) = t"

fun run_op :: "op \<Rightarrow> string option \<Rightarrow> string option" where
  "run_op (Reindex ms c n t r ok) file = snd (recordReindex ok ms c n t r file)"
| "run_op (Published m c n t ok) file = snd (recordBootstrapPublished ok m c n t file)"

fun spec_op :: "op \<Rightarrow> lineages \<Rightarrow> lineages" where
  "spec_op (Reindex ms c n t r ok) a =
     (if ok then spec_reindex (filter (\<lambda>k. valid_key k) (map (\<lambda>m. comboKey m c n) ms)) t a else a)"
| "spec_op (Published m c n t ok) a = (if ok \<and> valid_key (comboKey m c n) then spec_publish (comboKey m c n) t a else a)"

text \<open>An entry of the file stands for the two instants it names.\<close>

definition entry_instants :: "entry \<Rightarrow> int \<Rightarrow> int option \<Rightarrow> bool" where
  "entry_instants e r p = (four_digit_instant r \<and> reindexedAt e = Some (toISOString r) \<and>
     (case p of None \<Rightarrow> publishedAt e = None | Some q \<Rightarrow> four_digit_instant q \<and> publishedAt e = Some (toISOString q)))"

definition refines :: "ledger \<Rightarrow> lineages \<Rightarrow> bool" where
  "refines l a = (well_formed l \<and> (\<forall>k. rel_option (\<lambda>e (r, p). entry_instants e r p) (map_of l k) (a k)))"

lemma toISOString_not_Nil [simp]: "toISOString t \<noteq> []"
  by (simp add: toISOString_def)

lemma map_of_ledger_update: "map_of (AList.update k v l) = (map_of l)(k \<mapsto> v)"
  by (simp add: update_conv')

lemma keys_update: "valid_key k \<Longrightarrow> well_formed l \<Longrightarrow> well_formed (AList.update k v l)"
proof -
  assume k: "valid_key k" and l: "well_formed l"
  have "fst ke \<in> insert k (fst ` set l)" if "ke \<in> set (AList.update k v l)" for ke
    using that dom_update [of k v l] by (metis image_eqI insert_is_Un)
  then show ?thesis using k l by (fastforce simp: well_formed_def distinct_update list_all_iff)
qed

text \<open>Updating one key on both sides keeps the refinement.\<close>

lemma refines_update:
  assumes "refines l a" "valid_key k" "entry_instants e r p"
  shows "refines (AList.update k e l) (a(k \<mapsto> (r, p)))"
  using assms keys_update [OF assms(2)] by (simp add: refines_def map_of_ledger_update)

lemma refines_entry:
  assumes "refines l a"
  obtains (none) "map_of l k = None" "a k = None"
    | (both) e r p where "map_of l k = Some e" "a k = Some (r, p)" "entry_instants e r p"
proof -
  have "rel_option (\<lambda>e (r, p). entry_instants e r p) (map_of l k) (a k)" using assms by (simp add: refines_def)
  then show thesis using that by (cases "map_of l k"; cases "a k") auto
qed

lemma nonempty_published: "entry_instants e r p \<Longrightarrow> nonempty (publishedAt e) = publishedAt e \<and> nonempty (reindexedAt e) = reindexedAt e"
  by (auto simp: entry_instants_def nonempty_def split: option.splits)

lemma refines_mark:
  assumes "refines l a" "valid_key k" "four_digit_instant t"
  shows "refines (mark_reindexed t why k l) (spec_reindex [k] t a)"
proof -
  have "entry_instants \<lparr>reindexedAt = Some (toISOString t), publishedAt = nonempty (publishedAt (prev_entry l k)), reason = z\<rparr>
      t (Option.bind (a k) snd)" for z
    using assms(3) nonempty_published
    by (cases rule: refines_entry [OF assms(1), of k])
      (auto simp: entry_instants_def prev_entry_def nonempty_def split: option.splits)
  moreover have "spec_reindex [k] t a = a(k \<mapsto> (t, Option.bind (a k) snd))"
    by (auto simp: spec_reindex_def)
  ultimately show ?thesis
    using refines_update [OF assms(1,2)] by (simp add: mark_reindexed_def Let_def)
qed

lemma spec_reindex_Cons: "spec_reindex ks t (spec_reindex [k] t a) = spec_reindex (k # ks) t a"
  by (auto simp: spec_reindex_def fun_eq_iff Option.bind_eq_Some_conv split: option.splits)

lemma refines_marks:
  "refines l a \<Longrightarrow> list_all (\<lambda>k. valid_key k) ks \<Longrightarrow> four_digit_instant t \<Longrightarrow>
   refines (fold (mark_reindexed t why) ks l) (spec_reindex ks t a)"
proof (induction ks arbitrary: l a)
  case Nil
  have "spec_reindex [] t a = a" by (simp add: spec_reindex_def)
  then show ?case using Nil by simp
next
  case (Cons k ks)
  then have "refines (fold (mark_reindexed t why) ks (mark_reindexed t why k l)) (spec_reindex ks t (spec_reindex [k] t a))"
    by (intro Cons.IH refines_mark) auto
  then show ?case by (simp add: spec_reindex_Cons)
qed

lemma refines_published:
  assumes "refines l a" "valid_key k" "four_digit_instant t" "map_of l k = Some prev"
  shows "refines (AList.update k \<lparr>reindexedAt = nonempty (reindexedAt prev), publishedAt = Some (toISOString t),
            reason = nonempty (reason prev)\<rparr> l) (spec_publish k t a)"
proof -
  obtain r p where a: "a k = Some (r, p)" "entry_instants prev r p"
    using assms(4) by (cases rule: refines_entry [OF assms(1), of k]) auto
  then show ?thesis
    using refines_update [OF assms(1,2)] nonempty_published [OF a(2)] assms(3)
    by (simp add: spec_publish_def entry_instants_def)
qed

lemma run_op_refines:
  assumes "refines (readReindexLedger file) a" "four_digit_instant (op_time x)"
  shows "refines (readReindexLedger (run_op x file)) (spec_op x a)"
proof (cases x)
  case (Reindex ms c n t why ok)
  let ?ks = "filter (\<lambda>k. valid_key k) (map (\<lambda>m. comboKey m c n) ms)"
  have "list_all (\<lambda>k. valid_key k) ?ks" by (simp add: list_all_iff)
  then have marks: "refines (fold (mark_reindexed t why) ?ks (readReindexLedger file)) (spec_reindex ?ks t a)"
    using refines_marks [OF assms(1)] assms(2) Reindex by simp
  then have "well_formed (fold (mark_reindexed t why) ?ks (readReindexLedger file))" by (simp add: refines_def)
  moreover have "spec_reindex [] t a = a" by (simp add: spec_reindex_def)
  ultimately show ?thesis
    using assms(1) marks Reindex by (auto simp: recordReindex_def writeReindexLedger_def Let_def read_written)
next
  case (Published m c n t ok)
  show ?thesis
  proof (cases "\<not> valid_key (comboKey m c n)")
    case True
    then show ?thesis using assms(1) Published by (simp add: recordBootstrapPublished_def)
  next
    case valid: False
    show ?thesis
    proof (cases "map_of (readReindexLedger file) (comboKey m c n)")
      case None
      then have "spec_publish (comboKey m c n) t a = a"
        by (cases rule: refines_entry [OF assms(1), of "comboKey m c n"]) (simp_all add: spec_publish_def)
      then show ?thesis using assms(1) Published valid None by (auto simp: recordBootstrapPublished_def)
    next
      case (Some prev)
      note upd = refines_published [OF assms(1) _ _ Some, of t]
      then show ?thesis
        using assms Published valid Some
        by (auto simp: recordBootstrapPublished_def writeReindexLedger_def Let_def refines_def [of "AList.update _ _ _"] read_written)
    qed
  qed
qed

lemma due_refines:
  assumes "refines l a"
  shows "set (map fst (listRepublishDue other l)) = spec_due a"
proof -
  have wf: "well_formed l" using assms by (simp add: refines_def)
  have due: "isRepublishDue other e = (case p of None \<Rightarrow> True | Some q \<Rightarrow> q < r)" if "entry_instants e r p" for e r p
    using that by (cases p) (auto simp: isRepublishDue_def entry_instants_def parseInstant_def)
  have "k \<in> set (map fst (listRepublishDue other l)) \<longleftrightarrow> (\<exists>e. map_of l k = Some e \<and> isRepublishDue other e)" for k
    using wf by (force simp: listRepublishDue_def well_formed_def list_all_iff)
  also have "(\<exists>e. map_of l k = Some e \<and> isRepublishDue other e) \<longleftrightarrow> k \<in> spec_due a" for k
    by (cases rule: refines_entry [OF assms, of k]) (auto simp: spec_due_def due)
  finally show ?thesis by blast
qed

lemma refines_empty: "refines (readReindexLedger None) Map.empty"
  by (simp add: refines_def readReindexLedger_def well_formed_def)

lemma run_ops_refine:
  "refines (readReindexLedger file) a \<Longrightarrow> list_all (\<lambda>x. four_digit_instant (op_time x)) xs \<Longrightarrow>
   refines (readReindexLedger (fold run_op xs file)) (fold spec_op xs a)"
proof (induction xs arbitrary: "file" a)
  case (Cons x xs)
  then have "refines (readReindexLedger (run_op x file)) (spec_op x a)" by (intro run_op_refines) auto
  then show ?case using Cons by simp
qed simp

text \<open>
  C28. After any sequence of resets and publishes, through the file and its texts, the combos
  listed as due are exactly those whose last recorded reindex is newer than their last publish.
\<close>

theorem ledger_lists_exactly_the_stale_lineages:
  assumes "list_all (\<lambda>x. four_digit_instant (op_time x)) xs"
  shows "set (map fst (listRepublishDue other (readReindexLedger (fold run_op xs None)))) = spec_due (fold spec_op xs Map.empty)"
  by (rule due_refines [OF run_ops_refine [OF refines_empty assms]])

theorem ledger_lists_exactly_the_stale_lineages_witness:
  "comboKey XCHAIN_DECODER ''bitcoin'' ''mainnet'' \<in> set (map fst (listRepublishDue (\<lambda>_. None) (readReindexLedger (fold run_op
     [Reindex [XCHAIN_DECODER] ''bitcoin'' ''mainnet'' 1000 None True,
      Published XCHAIN_DECODER ''bitcoin'' ''mainnet'' 2000 True,
      Reindex [XCHAIN_DECODER] ''bitcoin'' ''mainnet'' 3000 (Some ''reset'') True] None))))"
proof -
  have "valid_key (comboKey XCHAIN_DECODER ''bitcoin'' ''mainnet'')" by code_simp
  then show ?thesis
    by (subst ledger_lists_exactly_the_stale_lineages)
      (simp_all add: four_digit_instant_def spec_due_def spec_reindex_def spec_publish_def)
qed

end
