(* ===== verification/ArchiveNames.thy ===== *)
theory ArchiveNames
  imports RepublishLedger "HOL-Library.Sublist"
begin

text \<open>
  The names of published archives: the UTC stamp of \<open>workspace.js\<close>, the age \<open>download.js\<close> reads
  back from it, the listing for a restore, and the combos \<open>bootstrap_service.js\<close> publishes.
\<close>

section \<open>The stamp and the age\<close>

definition buildDateTimeString :: "int \<Rightarrow> string" where
  "buildDateTimeString now =
     show_nat (nat (getUTCFullYear now)) @ int_pad 2 (getUTCMonth now + 1) @ int_pad 2 (getUTCDate now) @ ''_''
     @ int_pad 2 (getUTCHours now) @ int_pad 2 (getUTCMinutes now) @ int_pad 2 (getUTCSeconds now)"

definition archiveName :: "string \<Rightarrow> string \<Rightarrow> int \<Rightarrow> string" where
  "archiveName network md now = network @ SEP @ md @ SEP @ buildDateTimeString now @ ''.tar.gz''"

text \<open>The fields of the first match of the stamp's pattern.\<close>

definition stamp_at :: "string \<Rightarrow> (int \<times> int \<times> int \<times> int \<times> int \<times> int) option" where
  "stamp_at s = Option.bind (digits_then 4 [] s) (\<lambda>(y, s1).
     Option.bind (digits_then 2 [] s1) (\<lambda>(mo, s2).
     Option.bind (digits_then 2 ''_'' s2) (\<lambda>(d, s3).
     Option.bind (digits_then 2 [] s3) (\<lambda>(h, s4).
     Option.bind (digits_then 2 [] s4) (\<lambda>(mi, s5).
     Option.bind (digits_then 2 [] s5) (\<lambda>(sec, s6). Some (y, mo, d, h, mi, sec)))))))"

primrec find_stamp :: "string \<Rightarrow> (int \<times> int \<times> int \<times> int \<times> int \<times> int) option" where
  "find_stamp [] = None"
| "find_stamp (c # cs) = (case stamp_at (c # cs) of Some f \<Rightarrow> Some f | None \<Rightarrow> find_stamp cs)"

definition url_basename :: "string \<Rightarrow> string" where
  "url_basename url = rev (takeWhile (\<lambda>c. c \<noteq> CHR 0x2F) (dropWhile (\<lambda>c. c = CHR 0x2F) (rev url)))"

definition bootstrapArchiveAgeDays :: "string \<Rightarrow> int \<Rightarrow> int option" where
  "bootstrapArchiveAgeDays archiveUrl now = (case find_stamp (url_basename archiveUrl) of
     None \<Rightarrow> None
   | Some (y, mo, d, h, mi, s) \<Rightarrow>
       let days = (now - Date_UTC y (mo - 1) d h mi s) div 86400000 in if 0 \<le> days then Some days else None)"

definition BOOTSTRAP_STALE_AFTER_DAYS :: int where "BOOTSTRAP_STALE_AFTER_DAYS = 10"

definition reportBootstrapAge :: "string \<Rightarrow> int \<Rightarrow> int option" where
  "reportBootstrapAge finalUrl now = (case bootstrapArchiveAgeDays finalUrl now of
     None \<Rightarrow> None | Some ageDays \<Rightarrow> if ageDays < BOOTSTRAP_STALE_AFTER_DAYS then None else Some ageDays)"

text \<open>A number of at least \<open>k + 1\<close> digits is not padded to \<open>k + 1\<close>.\<close>

lemma int_pad_year:
  assumes "1000 \<le> y" "y \<le> 9999"
  shows "int_pad 4 y = show_nat (nat y)"
proof -
  have lt: "nat y < 10 ^ length (show_nat (nat y))"
    using decimal_nat_less [OF show_nat_digits, of "nat y"] by simp
  have "\<not> length (show_nat (nat y)) \<le> 3"
  proof
    assume "length (show_nat (nat y)) \<le> 3"
    then have "10 ^ length (show_nat (nat y)) \<le> (10 :: nat) ^ 3" by (rule power_increasing) simp
    then have "nat y < 10 ^ 3" by (rule order_less_le_trans [OF lt])
    then show False using assms by simp
  qed
  then show ?thesis by (simp add: int_pad_def pad_def pad_start_def)
qed

lemma stamp_fields:
  assumes "four_digit_instant t"
  shows "buildDateTimeString t = int_pad 4 (getUTCFullYear t) @ int_pad 2 (getUTCMonth t + 1) @ int_pad 2 (getUTCDate t) @ ''_''
     @ int_pad 2 (getUTCHours t) @ int_pad 2 (getUTCMinutes t) @ int_pad 2 (getUTCSeconds t)"
  using field_bounds(1) [of t] four_digit_year [OF assms] assms
  by (simp add: buildDateTimeString_def int_pad_year four_digit_instant_def)

lemma stamp_at_stamp:
  assumes "four_digit_instant t"
  shows "stamp_at (buildDateTimeString t @ r) =
    Some (getUTCFullYear t, getUTCMonth t + 1, getUTCDate t, getUTCHours t, getUTCMinutes t, getUTCSeconds t)"
proof -
  have t: "0 \<le> t" using assms by (simp add: four_digit_instant_def)
  note b = field_bounds [OF t] four_digit_year [OF assms]
  have "buildDateTimeString t @ r = int_pad 4 (getUTCFullYear t) @ [] @ int_pad 2 (getUTCMonth t + 1) @ [] @ int_pad 2 (getUTCDate t) @ ''_''
     @ int_pad 2 (getUTCHours t) @ [] @ int_pad 2 (getUTCMinutes t) @ [] @ int_pad 2 (getUTCSeconds t) @ [] @ r"
    by (simp add: stamp_fields [OF assms])
  then show ?thesis unfolding stamp_at_def
    by (simp only:) (use b in \<open>simp add: digits_then_pad del: append.simps append_Cons append_Nil\<close>)
qed

lemma stamp_at_other: "\<not> is_digit c \<Longrightarrow> stamp_at (c # cs) = None"
  by (simp add: stamp_at_def digits_then_def Let_def)

lemma find_stamp_prefix: "list_all (\<lambda>c. \<not> is_digit c) p \<Longrightarrow> find_stamp (p @ s) = find_stamp s"
  by (induction p) (simp_all add: stamp_at_other)

lemma find_stamp_here: "stamp_at s = Some f \<Longrightarrow> s \<noteq> [] \<Longrightarrow> find_stamp s = Some f"
  by (cases s) simp_all

lemma Date_UTC_fields:
  assumes "0 \<le> t"
  shows "Date_UTC (getUTCFullYear t) (getUTCMonth t + 1 - 1) (getUTCDate t) (getUTCHours t) (getUTCMinutes t) (getUTCSeconds t) = t - t mod 1000"
proof -
  have "\<not> getUTCFullYear t \<le> 99" using field_bounds(1) [OF assms] by simp
  then show ?thesis using instant_fields [OF assms] unfolding MakeTime_def getUTCMilliseconds_def
    by (simp add: Date_UTC_def MakeTime_def Let_def)
qed

section \<open>Names sort by time\<close>

lemma decimal_nat_Cons: "decimal_nat (x # xs) = digit_val x * 10 ^ length xs + decimal_nat xs"
  using decimal_nat_append [of "[x]" xs] decimal_nat_snoc [of "[]" x] by simp

lemma digits_less:
  "length xs = length ys \<Longrightarrow> list_all is_digit xs \<Longrightarrow> list_all is_digit ys \<Longrightarrow> xs < ys \<longleftrightarrow> decimal_nat xs < decimal_nat ys"
proof (induction xs ys rule: list_induct2)
  case (Cons x xs y ys)
  have d: "is_digit x" "is_digit y" using Cons.prems by simp_all
  have lt: "decimal_nat xs < 10 ^ length ys" "decimal_nat ys < 10 ^ length ys"
    using decimal_nat_less [of xs] decimal_nat_less [of ys] Cons by simp_all
  have "x < y \<longleftrightarrow> digit_val x < digit_val y" "x = y \<longleftrightarrow> digit_val x = digit_val y"
    using d by (auto simp: is_digit_def digit_val_def char_code_def less_char_def le_diff_iff eq_diff_iff dest: eq_diff_iff)
  moreover have "digit_val x < digit_val y \<Longrightarrow> digit_val x * 10 ^ length ys + decimal_nat xs < digit_val y * 10 ^ length ys + decimal_nat ys"
  proof -
    assume "digit_val x < digit_val y"
    then have "(digit_val x + 1) * 10 ^ length ys \<le> digit_val y * 10 ^ length ys" by (intro mult_le_mono1) simp
    then show ?thesis using lt by (simp add: algebra_simps)
  qed
  moreover have "digit_val y < digit_val x \<Longrightarrow> digit_val y * 10 ^ length ys + decimal_nat ys < digit_val x * 10 ^ length ys + decimal_nat xs"
  proof -
    assume "digit_val y < digit_val x"
    then have "(digit_val y + 1) * 10 ^ length ys \<le> digit_val x * 10 ^ length ys" by (intro mult_le_mono1) simp
    then show ?thesis using lt by (simp add: algebra_simps)
  qed
  ultimately show ?case using Cons by (cases "digit_val x" "digit_val y" rule: linorder_cases) (auto simp: decimal_nat_Cons)
qed simp

text \<open>The stamp read as one number, and its order.\<close>

definition day_value :: "int \<Rightarrow> int" where
  "day_value d = (YearOfDay d * 100 + (MonthOfDay d + 1)) * 100 + DateOfDay d"

definition second_value :: "int \<Rightarrow> int" where
  "second_value t = (getUTCHours t * 100 + getUTCMinutes t) * 100 + getUTCSeconds t"

lemma filter_length_mono: "(\<And>x. P x \<Longrightarrow> Q x) \<Longrightarrow> length (filter P xs) \<le> length (filter Q xs)"
  by (induction xs) (auto simp: le_SucI)

lemma month_count_mono: "k \<le> k' \<Longrightarrow> month_count l k \<le> month_count l k'"
  unfolding month_count_def of_nat_le_iff by (rule filter_length_mono) (rule order_trans)

lemma day_value_mono:
  assumes "0 \<le> d" "d < e"
  shows "day_value d < day_value e"
proof -
  have e: "0 \<le> e" using assms by simp
  note b = month_date_bounds [OF assms(1)] month_date_bounds [OF e]
  have "\<not> YearOfDay e + 1 \<le> YearOfDay d"
    using DayFromYear_mono [of "YearOfDay e + 1" "YearOfDay d"] YearOfDay_bounds [OF assms(1)] YearOfDay_bounds [OF e] assms(2) by linarith
  then consider "YearOfDay d < YearOfDay e" | "YearOfDay d = YearOfDay e" by linarith
  then show ?thesis
  proof cases
    case 1 then show ?thesis using b by (simp add: day_value_def)
  next
    case 2
    have m: "MonthOfDay d \<le> MonthOfDay e"
      unfolding MonthOfDay_def DayInYear_def 2 using assms(2) by (intro month_count_mono) simp
    show ?thesis
    proof (cases "MonthOfDay d = MonthOfDay e")
      case True
      then have "DateOfDay d < DateOfDay e" using 2 assms(2) by (simp add: DateOfDay_def DayInYear_def)
      then show ?thesis using True 2 by (simp add: day_value_def)
    next
      case False then show ?thesis using m 2 b by (simp add: day_value_def)
    qed
  qed
qed

definition stamp_value :: "int \<Rightarrow> int" where
  "stamp_value t = day_value (DayOf t) * 1000000 + second_value t"

lemma second_value_bounds: "0 \<le> second_value t" "second_value t < 1000000"
  unfolding second_value_def getUTCHours_def getUTCMinutes_def getUTCSeconds_def by simp_all

lemma digit_order:
  fixes x y k :: int
  assumes "0 < k" "x < y"
  shows "x div k < y div k \<or> x div k = y div k \<and> x mod k < y mod k"
proof (cases "x div k = y div k")
  case True
  have "x div k * k + x mod k = x" "x div k * k + y mod k = y"
    using div_mult_mod_eq [of x k] div_mult_mod_eq [of y k] True by simp_all
  then show ?thesis using True assms(2) by linarith
next
  case False then show ?thesis using zdiv_mono1 [of x y k] assms by linarith
qed

lemma fields_less:
  fixes h m s h' m' s' :: int
  assumes "h < h' \<or> h = h' \<and> (m < m' \<or> m = m' \<and> s < s')" "0 \<le> m" "m < 60" "0 \<le> s" "s < 60" "0 \<le> m'" "m' < 60" "0 \<le> s'" "s' < 60"
  shows "(h * 100 + m) * 100 + s < (h' * 100 + m') * 100 + s'"
  using assms by auto

lemma stamp_value_mono:
  assumes "0 \<le> t" "t div 1000 < u div 1000"
  shows "stamp_value t < stamp_value u"
proof (cases "DayOf t = DayOf u")
  case True
  define a b where "a = t div 1000" "b = u div 1000"
  have f: "t div 3600000 = a div 60 div 60" "t div 60000 = a div 60" "u div 3600000 = b div 60 div 60" "u div 60000 = b div 60"
    "DayOf t = a div 60 div 60 div 24" "DayOf u = b div 60 div 60 div 24"
    unfolding a_b_def DayOf_def msPerDay_def by (simp_all add: zdiv_zmult2_eq [symmetric])
  define A B where "A = a div 60" "B = b div 60"
  define H K where "H = A div 60" "K = B div 60"
  have "a < b" using assms(2) unfolding a_b_def .
  have day: "H div 24 = K div 24" using True unfolding f(5,6) A_B_def H_K_def .
  have o1: "A < B \<or> A = B \<and> a mod 60 < b mod 60"
    using digit_order [OF zero_less_numeral \<open>a < b\<close>] unfolding A_B_def .
  have o2: "A < B \<Longrightarrow> H < K \<or> H = K \<and> A mod 60 < B mod 60"
    unfolding H_K_def by (rule digit_order [OF zero_less_numeral])
  have o3: "H < K \<Longrightarrow> H mod 24 < K mod 24" using digit_order [of 24 H K] day by simp
  have "(H mod 24 * 100 + A mod 60) * 100 + a mod 60 < (K mod 24 * 100 + B mod 60) * 100 + b mod 60"
  proof (rule fields_less)
    show "H mod 24 < K mod 24 \<or> H mod 24 = K mod 24 \<and> (A mod 60 < B mod 60 \<or> A mod 60 = B mod 60 \<and> a mod 60 < b mod 60)"
      using o1 o2 o3 H_K_def by metis
  qed simp_all
  then show ?thesis using True unfolding stamp_value_def second_value_def getUTCHours_def getUTCMinutes_def getUTCSeconds_def f(1-4) A_B_def H_K_def a_b_def by simp
next
  case False
  have "t div 1000 div 86400 \<le> u div 1000 div 86400" using assms(2) by (intro zdiv_mono1) simp_all
  then have "DayOf t \<le> DayOf u" unfolding DayOf_def msPerDay_def by (simp add: zdiv_zmult2_eq [symmetric])
  then have "day_value (DayOf t) + 1 \<le> day_value (DayOf u)"
    using day_value_mono [of "DayOf t" "DayOf u"] False assms(1) by (simp add: DayOf_def msPerDay_def pos_imp_zdiv_nonneg_iff)
  then show ?thesis using second_value_bounds [of t] second_value_bounds [of u] unfolding stamp_value_def by linarith
qed

lemma append_less: "length xs = length ys \<Longrightarrow> xs @ zs < ys @ ws \<longleftrightarrow> xs < ys \<or> xs = ys \<and> zs < ws" for xs ys zs ws :: string
  by (induction xs ys rule: list_induct2) auto

lemma digits_eq: "length xs = length ys \<Longrightarrow> list_all is_digit xs \<Longrightarrow> list_all is_digit ys \<Longrightarrow> decimal_nat xs = decimal_nat ys \<Longrightarrow> xs = ys"
  using digits_less [of xs ys] digits_less [of ys xs] by (metis linorder_less_linear less_irrefl)

lemma int_pad_facts:
  assumes "0 \<le> n" "n < 10 ^ k" "0 < k"
  shows "length (int_pad k n) = k" "list_all is_digit (int_pad k n)" "int (decimal_nat (int_pad k n)) = n"
proof -
  have "nat n < 10 ^ k" using assms by (simp add: nat_less_iff)
  then show "length (int_pad k n) = k" "list_all is_digit (int_pad k n)" "int (decimal_nat (int_pad k n)) = n"
    using pad_facts [of "nat n" k] assms by (simp_all add: int_pad_def)
qed

definition stamp_day :: "int \<Rightarrow> string" where
  "stamp_day t = int_pad 4 (getUTCFullYear t) @ int_pad 2 (getUTCMonth t + 1) @ int_pad 2 (getUTCDate t)"

definition stamp_time :: "int \<Rightarrow> string" where
  "stamp_time t = int_pad 2 (getUTCHours t) @ int_pad 2 (getUTCMinutes t) @ int_pad 2 (getUTCSeconds t)"

lemma stamp_day_time: "four_digit_instant t \<Longrightarrow> buildDateTimeString t = stamp_day t @ ''_'' @ stamp_time t"
  by (simp add: stamp_fields stamp_day_def stamp_time_def)

lemma stamp_parts:
  assumes "four_digit_instant t"
  shows "length (stamp_day t) = 8" "list_all is_digit (stamp_day t)" "int (decimal_nat (stamp_day t)) = day_value (DayOf t)"
    "length (stamp_time t) = 6" "list_all is_digit (stamp_time t)" "int (decimal_nat (stamp_time t)) = second_value t"
proof -
  have t: "0 \<le> t" using assms by (simp add: four_digit_instant_def)
  have y: "0 \<le> getUTCFullYear t" "getUTCFullYear t < 10 ^ 4" using field_bounds(1) [OF t] four_digit_year [OF assms] by simp_all
  have r: "0 \<le> getUTCMonth t + 1" "getUTCMonth t + 1 < 10 ^ 2" "0 \<le> getUTCDate t" "getUTCDate t < 10 ^ 2" "0 \<le> getUTCHours t" "getUTCHours t < 10 ^ 2"
    "0 \<le> getUTCMinutes t" "getUTCMinutes t < 10 ^ 2" "0 \<le> getUTCSeconds t" "getUTCSeconds t < 10 ^ 2"
    using field_bounds [OF t] by simp_all
  note f = int_pad_facts [OF y] int_pad_facts [OF r(1,2)] int_pad_facts [OF r(3,4)] int_pad_facts [OF r(5,6)] int_pad_facts [OF r(7,8)]
    int_pad_facts [OF r(9,10)]
  show "length (stamp_day t) = 8" "list_all is_digit (stamp_day t)" "length (stamp_time t) = 6" "list_all is_digit (stamp_time t)"
    using f by (simp_all add: stamp_day_def stamp_time_def)
  show "int (decimal_nat (stamp_day t)) = day_value (DayOf t)" "int (decimal_nat (stamp_time t)) = second_value t"
    using f by (simp_all add: stamp_day_def stamp_time_def decimal_nat_append day_value_def second_value_def getUTCFullYear_def
        getUTCMonth_def getUTCDate_def)
qed

lemma stamp_less:
  assumes "four_digit_instant t" "four_digit_instant u" "t div 1000 < u div 1000"
  shows "buildDateTimeString t @ r < buildDateTimeString u @ r"
proof -
  note p = stamp_parts [OF assms(1)] stamp_parts [OF assms(2)]
  have "0 \<le> t" using assms(1) by (simp add: four_digit_instant_def)
  then have "stamp_value t < stamp_value u" using stamp_value_mono assms(3) by blast
  then have "day_value (DayOf t) < day_value (DayOf u) \<or> day_value (DayOf t) = day_value (DayOf u) \<and> second_value t < second_value u"
    using second_value_bounds [of t] second_value_bounds [of u] unfolding stamp_value_def by linarith
  then have "decimal_nat (stamp_day t) < decimal_nat (stamp_day u)
      \<or> decimal_nat (stamp_day t) = decimal_nat (stamp_day u) \<and> decimal_nat (stamp_time t) < decimal_nat (stamp_time u)"
    unfolding p(3,6,9,12) [symmetric] by simp
  then have "stamp_day t < stamp_day u \<or> stamp_day t = stamp_day u \<and> stamp_time t < stamp_time u"
    using digits_less [of "stamp_day t" "stamp_day u"] digits_eq [of "stamp_day t" "stamp_day u"] digits_less [of "stamp_time t" "stamp_time u"] p
    by auto
  then show ?thesis
    using p by (auto simp: stamp_day_time [OF assms(1)] stamp_day_time [OF assms(2)] append_less)
qed

lemma common_prefix_less: "p @ xs < p @ ys \<longleftrightarrow> xs < ys" for p xs ys :: string
  by (induction p) auto

section \<open>Listing and planning\<close>

record dir_entry =
  de_name :: string
  de_is_file :: bool
  de_mtime :: rat

definition isBootstrapArchiveName :: "string \<Rightarrow> bool" where
  "isBootstrapArchiveName fileName = (suffix ''.tar.gz'' fileName \<or> suffix ''.tgz'' fileName)"

text \<open>\<open>collate a b\<close>: \<open>a.localeCompare(b) < 0\<close>.\<close>

definition listed_before :: "(string \<Rightarrow> string \<Rightarrow> bool) \<Rightarrow> dir_entry \<Rightarrow> dir_entry \<Rightarrow> bool" where
  "listed_before collate a b = (de_mtime b < de_mtime a \<or> de_mtime a = de_mtime b \<and> collate (de_name b) (de_name a))"

fun insert_by :: "('a \<Rightarrow> 'a \<Rightarrow> bool) \<Rightarrow> 'a \<Rightarrow> 'a list \<Rightarrow> 'a list" where
  "insert_by before x [] = [x]"
| "insert_by before x (y # ys) = (if before y x then y # insert_by before x ys else x # y # ys)"

definition getBootstrapFilesList :: "(string \<Rightarrow> string \<Rightarrow> bool) \<Rightarrow> dir_entry list \<Rightarrow> string list" where
  "getBootstrapFilesList collate entries =
     map de_name (foldr (insert_by (listed_before collate)) (filter (\<lambda>e. de_is_file e \<and> isBootstrapArchiveName (de_name e)) entries) [])"

definition BOOTSTRAPPABLE_SERVICES :: "string list" where
  "BOOTSTRAPPABLE_SERVICES = [XCHAIN_DECODER, XCHAIN_INDEXER, XCHAIN_UTXO_TRACKER]"

definition listServedBootstrapCombos :: "(string \<times> string \<times> string) list \<Rightarrow> string list" where
  "listServedBootstrapCombos rows = sort (remdups (map (\<lambda>(m, c, n). comboKey m c n)
     (filter (\<lambda>(m, c, n). m \<in> set BOOTSTRAPPABLE_SERVICES \<and> c \<noteq> [] \<and> n \<noteq> [] \<and> n \<noteq> ''regtest'') rows)))"

lemma set_insert_by [simp]: "set (insert_by before x ys) = insert x (set ys)"
  by (induction ys) auto

lemma set_insert_all [simp]: "set (foldr (insert_by before) xs []) = set xs"
  by (induction xs) auto

lemma sorted_insert_by:
  assumes "sorted_wrt (\<lambda>a b. \<not> de_mtime a < de_mtime b) ys"
  shows "sorted_wrt (\<lambda>a b. \<not> de_mtime a < de_mtime b) (insert_by (listed_before collate) x ys)"
  using assms by (induction ys) (auto simp: listed_before_def)

lemma listing_newest_first:
  "\<exists>es. getBootstrapFilesList collate entries = map de_name es \<and> sorted_wrt (\<lambda>a b. \<not> de_mtime a < de_mtime b) es
     \<and> set es = {e \<in> set entries. de_is_file e \<and> isBootstrapArchiveName (de_name e)}"
proof -
  have "sorted_wrt (\<lambda>a b. \<not> de_mtime a < de_mtime b) (foldr (insert_by (listed_before collate)) xs [])" for xs
    by (induction xs) (auto intro: sorted_insert_by)
  then show ?thesis unfolding getBootstrapFilesList_def
    by (intro exI [of _ "foldr (insert_by (listed_before collate)) (filter (\<lambda>e. de_is_file e \<and> isBootstrapArchiveName (de_name e)) entries) []"]) auto
qed

section \<open>The name of an archive dates it\<close>

lemma url_basename_last:
  assumes "CHR 0x2F \<notin> set b" "b \<noteq> []"
  shows "url_basename (a @ CHR 0x2F # b) = b"
proof -
  obtain c cs where rb: "rev b = c # cs" using assms(2) by (cases "rev b") auto
  have nr: "\<forall>x\<in>set (rev b). x \<noteq> CHR 0x2F" using assms(1) by auto
  then have "dropWhile (\<lambda>c. c = CHR 0x2F) (rev b @ CHR 0x2F # rev a) = rev b @ CHR 0x2F # rev a"
    by (simp add: rb)
  then have "url_basename (a @ CHR 0x2F # b) = rev (takeWhile (\<lambda>c. c \<noteq> CHR 0x2F) (rev b @ CHR 0x2F # rev a))"
    by (simp add: url_basename_def)
  also have "\<dots> = b" using nr by (subst takeWhile_append2) auto
  finally show ?thesis .
qed

text \<open>The networks and services archives are named after: no digit and no slash.\<close>

lemma slot_prefix:
  assumes "network \<in> set Networks" "md \<in> set BOOTSTRAPPED_SERVICES"
  shows "list_all (\<lambda>c. \<not> is_digit c \<and> c \<noteq> CHR 0x2F) (network @ SEP @ md @ SEP)"
proof -
  have "list_all (\<lambda>n. list_all (\<lambda>m. list_all (\<lambda>c. \<not> is_digit c \<and> c \<noteq> CHR 0x2F) (n @ SEP @ m @ SEP)) BOOTSTRAPPED_SERVICES) Networks"
    by code_simp
  then show ?thesis using assms by (simp add: list_all_iff)
qed

lemma stamp_no_slash: "four_digit_instant t \<Longrightarrow> CHR 0x2F \<notin> set (buildDateTimeString t)"
  using stamp_parts(2,5) [of t] by (auto simp: stamp_day_time list_all_iff is_digit_def char_code_def)

lemma named_archive_age:
  assumes "network \<in> set Networks" "md \<in> set BOOTSTRAPPED_SERVICES" "four_digit_instant t"
  shows "bootstrapArchiveAgeDays (base @ CHR 0x2F # archiveName network md t) now
    = (let days = (now - t div 1000 * 1000) div 86400000 in if 0 \<le> days then Some days else None)"
proof -
  have pre: "list_all (\<lambda>c. \<not> is_digit c) (network @ SEP @ md @ SEP)" "CHR 0x2F \<notin> set (network @ SEP @ md @ SEP)"
    using slot_prefix [OF assms(1,2)] by (auto simp: list_all_iff)
  have split: "archiveName network md t = (network @ SEP @ md @ SEP) @ buildDateTimeString t @ ''.tar.gz''"
    by (simp add: archiveName_def)
  have "url_basename (base @ CHR 0x2F # archiveName network md t) = archiveName network md t"
    by (rule url_basename_last) (use pre(2) stamp_no_slash [OF assms(3)] in \<open>auto simp: split\<close>)
  moreover have "find_stamp (archiveName network md t) = find_stamp (buildDateTimeString t @ ''.tar.gz'')"
    unfolding split by (rule find_stamp_prefix [OF pre(1)])
  moreover have "buildDateTimeString t @ ''.tar.gz'' \<noteq> []" by simp
  note find_stamp_here [OF stamp_at_stamp [OF assms(3)] this]
  moreover have "t - t mod 1000 = t div 1000 * 1000" by (simp add: minus_mod_eq_div_mult)
  ultimately show ?thesis using Date_UTC_fields [of t] assms(3)
    by (simp add: bootstrapArchiveAgeDays_def four_digit_instant_def del: find_stamp.simps)
qed

text \<open>
  C29. The name of an archive dates it. Until the year 10000, of two archives of one slot built in
  different seconds the later one's name comes later in the lexical order the publisher and the
  server pick the newest by, whatever daylight saving or time zone the hosts have; and the age
  the restore reads back from the name under any URL is the number of whole days since the
  second the archive was built, or none for a build in the future.
\<close>

theorem archive_name_dates_it:
  assumes "network \<in> set Networks" "md \<in> set BOOTSTRAPPED_SERVICES"
    and "four_digit_instant t" "four_digit_instant u" "t div 1000 < u div 1000"
  shows "archiveName network md t < archiveName network md u
    \<and> bootstrapArchiveAgeDays (base @ CHR 0x2F # archiveName network md t) now
        = (let days = (now - t div 1000 * 1000) div 86400000 in if 0 \<le> days then Some days else None)"
  using stamp_less [OF assms(3-5)] named_archive_age [OF assms(1-3)] by (simp add: archiveName_def common_prefix_less)

theorem archive_name_dates_it_witness:
  "bootstrapArchiveAgeDays (''https://b.example'' @ CHR 0x2F # archiveName ''mainnet'' XCHAIN_INDEXER 1785542399999) 1786752000000 = Some 14"
  using archive_name_dates_it [of "''mainnet''" XCHAIN_INDEXER 1785542399999 1785542400000 "''https://b.example''" 1786752000000]
  by (simp add: Networks_def BOOTSTRAPPED_SERVICES_def four_digit_instant_def)

end
