(* ===== verification/Freshness.thy ===== *)
theory Freshness
  imports BootstrapRestore Naming
begin

text \<open>
  Whether a service's store is empty before its container starts, and the restore this decides:
  \<open>services/bootstrap_service/freshness.js\<close>, the presence probe of \<open>docker_service.js\<close>, the
  statements of \<open>db/information_schema.js\<close> and \<open>db/blocks.js\<close>, and the install paths of
  \<open>module_service.js\<close> and \<open>node_service.js\<close> that restore a bootstrap.
\<close>

section \<open>Answers of docker\<close>

text \<open>A rejected call with the text of its error, or the output of one that succeeded.\<close>

type_synonym exec_result = "string + string"

primrec contains :: "string \<Rightarrow> string \<Rightarrow> bool" where
  "contains sub [] = (sub = [])"
| "contains sub (c # cs) = (prefix sub (c # cs) \<or> contains sub cs)"

datatype freshness = FRESHNESS_EMPTY | FRESHNESS_POPULATED | FRESHNESS_UNKNOWN

definition no_such_volume :: "string \<Rightarrow> bool" where
  "no_such_volume text = contains ''no such volume'' (to_lower text)"

text \<open>What the listing command prints for the entries of the volume, or for a failed \<open>ls\<close>.\<close>

fun join_lines :: "string list \<Rightarrow> string" where
  "join_lines [] = []"
| "join_lines [e] = e"
| "join_lines (e # es) = e @ CHR 0x0A # join_lines es"

definition UTXO_TRACKER_LISTING_COMMAND :: "string list option \<Rightarrow> exec_result" where
  "UTXO_TRACKER_LISTING_COMMAND ls = (case ls of
     None \<Rightarrow> Inl ''ls failed''
   | Some entries \<Rightarrow> Inr (takeWhile (\<lambda>c. c \<noteq> CHR 0x0A) (join_lines entries)))"

definition utxoTrackerVolumeFreshness :: "exec_result \<Rightarrow> exec_result \<Rightarrow> freshness" where
  "utxoTrackerVolumeFreshness inspect listing = (case inspect of
     Inl text \<Rightarrow> if no_such_volume text then FRESHNESS_EMPTY else FRESHNESS_UNKNOWN
   | Inr _ \<Rightarrow> (case listing of
       Inl _ \<Rightarrow> FRESHNESS_UNKNOWN
     | Inr out \<Rightarrow> if trim out \<noteq> [] then FRESHNESS_POPULATED else FRESHNESS_EMPTY))"

datatype presence = Exists | Gone | Unknown_presence

definition probeContainerPresenceByName :: "exec_result \<Rightarrow> presence" where
  "probeContainerPresenceByName r = (case r of
     Inl text \<Rightarrow> if contains ''no such object'' (to_lower text) \<or> contains ''no such container'' (to_lower text)
                 then Gone else Unknown_presence
   | Inr out \<Rightarrow> if length (trim out) = 64 \<and> list_all is_hex (trim out) then Exists else Unknown_presence)"

section \<open>A MariaDB store\<close>

definition tableCountSql :: "string \<Rightarrow> string" where
  "tableCountSql databaseLiteral = ''SELECT COUNT(*) FROM information_schema.TABLES WHERE TABLE_SCHEMA = '' @ databaseLiteral"

definition tableExistsSql :: "string \<Rightarrow> string \<Rightarrow> string" where
  "tableExistsSql databaseLiteral tableLiteral = tableCountSql databaseLiteral @ '' AND TABLE_NAME = '' @ tableLiteral"

definition rowCountSql :: "string \<Rightarrow> string" where
  "rowCountSql dbName = ''SELECT COUNT(*) FROM `'' @ dbName @ ''`.blocks''"

definition countOf :: "string \<Rightarrow> int option" where
  "countOf out = parseInt10 (trim out)"

text \<open>
  \<open>me_config\<close> is \<open>None\<close> when reading it throws; \<open>me_container_id\<close> and the others likewise;
  \<open>me_run\<close> runs a statement on the native connection or in the container.
\<close>

record maria_env =
  me_external :: bool
  me_config :: "(string \<rightharpoonup> string) option"
  me_external_config :: bool
  me_inspect :: exec_result
  me_container_id :: "string option option"
  me_password :: bool
  me_run :: "string \<Rightarrow> string option"

definition freshnessDatabaseName :: "maria_env \<Rightarrow> string \<Rightarrow> string \<Rightarrow> string option" where
  "freshnessDatabaseName env md defaultName = (case me_config env of
     None \<Rightarrow> None | Some cfg \<Rightarrow> configuredDatabaseName md cfg defaultName)"

text \<open>The two queries, the same over either connection; \<open>None\<close> is an error.\<close>

definition quote :: "string \<Rightarrow> string" where "quote s = [CHR 0x27] @ s @ [CHR 0x27]"

definition inspect_blocks :: "(string \<Rightarrow> string option) \<Rightarrow> string \<Rightarrow> freshness option" where
  "inspect_blocks run dbName = (case Option.bind (run (tableExistsSql (quote dbName) (quote ''blocks''))) countOf of
     None \<Rightarrow> None
   | Some tables \<Rightarrow> if tables = 0 then Some FRESHNESS_EMPTY
       else map_option (\<lambda>rows. if rows > 0 then FRESHNESS_POPULATED else FRESHNESS_EMPTY)
              (Option.bind (run (rowCountSql dbName)) countOf))"

definition or_unknown :: "freshness option \<Rightarrow> freshness" where
  "or_unknown f = (case f of None \<Rightarrow> FRESHNESS_UNKNOWN | Some x \<Rightarrow> x)"

definition externalMariaFreshness :: "maria_env \<Rightarrow> string \<Rightarrow> freshness" where
  "externalMariaFreshness env dbName =
     or_unknown (if me_external_config env then inspect_blocks (me_run env) dbName else None)"

definition inspectLocalMariaFreshness :: "maria_env \<Rightarrow> string \<Rightarrow> freshness" where
  "inspectLocalMariaFreshness env dbName = or_unknown (inspect_blocks (me_run env) dbName)"

text \<open>\<open>None\<close> when there is a container to ask.\<close>

definition prepareLocalMariaFreshness :: "maria_env \<Rightarrow> freshness option" where
  "prepareLocalMariaFreshness env = (case probeContainerPresenceByName (me_inspect env) of
     Unknown_presence \<Rightarrow> Some FRESHNESS_UNKNOWN
   | Gone \<Rightarrow> Some FRESHNESS_EMPTY
   | Exists \<Rightarrow> (case me_container_id env of
       None \<Rightarrow> Some FRESHNESS_UNKNOWN
     | Some cid \<Rightarrow> if truthy_text cid = None \<or> \<not> me_password env then Some FRESHNESS_UNKNOWN else None))"

definition mariaDbModuleFreshness :: "maria_env \<Rightarrow> string \<Rightarrow> string \<Rightarrow> freshness" where
  "mariaDbModuleFreshness env md defaultName = (case freshnessDatabaseName env md defaultName of
     None \<Rightarrow> FRESHNESS_UNKNOWN
   | Some dbName \<Rightarrow>
       if me_external env then externalMariaFreshness env dbName
       else (case prepareLocalMariaFreshness env of Some f \<Rightarrow> f | None \<Rightarrow> inspectLocalMariaFreshness env dbName))"

section \<open>The install paths\<close>

definition forceBootstrapRequested :: "string option \<Rightarrow> bool" where
  "forceBootstrapRequested v = (v \<noteq> None \<and> v \<noteq> Some [] \<and> v \<noteq> Some ''0'')"

definition BOOTSTRAP_RESTORED_MODULES :: "string list" where
  "BOOTSTRAP_RESTORED_MODULES = [XCHAIN_UTXO_TRACKER, XCHAIN_DECODER, XCHAIN_INDEXER]"

datatype install_call =
    RegistryRead | CredentialCheck | Checkout | BuildAndUp | DatabaseParameters | StatusUpdate
  | Clone string | BuildOther string

datatype install_error = CallThrew install_call | PresenceUnknown | RowMissing

text \<open>
  \<open>is_presence\<close> is docker's answer for the service's own container, \<open>is_row\<close> the registry's
  container id, \<open>is_up_after_failed_build\<close> whether the service runs after a build that failed.
\<close>

record install_env =
  is_ok :: "install_call \<Rightarrow> bool"
  is_presence :: exec_result
  is_force :: "string option"
  is_row :: "string option"
  is_up_after_failed_build :: bool
  is_volume :: "exec_result \<times> exec_result"
  is_maria :: maria_env
  is_default_name :: string
  is_restore :: restore_env

record install_context =
  ic_target :: target
  ic_update :: bool
  ic_overwrite :: "string option"
  ic_only_execution :: bool

type_synonym 'a install = "(install_error, 'a, world) run_result"

definition icall :: "install_env \<Rightarrow> install_call \<Rightarrow> world \<Rightarrow> unit install" where
  "icall env c w = (if is_ok env c then Inr () else Inl (CallThrew c), w)"

definition forcedBootstrapReinstall :: "install_env \<Rightarrow> string \<Rightarrow> presence \<Rightarrow> bool \<Rightarrow> bool" where
  "forcedBootstrapReinstall env md presence remoteUpdate =
     (if presence \<noteq> Exists \<or> remoteUpdate then False
      else md \<in> set BOOTSTRAP_RESTORED_MODULES \<and> forceBootstrapRequested (is_force env))"

definition forcedBootstrapContext :: "install_env \<Rightarrow> install_context \<Rightarrow> world \<Rightarrow> install_context option install" where
  "forcedBootstrapContext env c w =
     (if truthy_text (ic_overwrite c) \<noteq> None then (Inr (Some c), w)
      else attempt (icall env RegistryRead w) (\<lambda>_ w.
        case truthy_text (is_row env) of
          None \<Rightarrow> (Inl RowMissing, w)
        | Some cid \<Rightarrow> (Inr (Some (c\<lparr>ic_overwrite := Some cid\<rparr>)), w)))"

text \<open>\<open>None\<close> when the module is installed and nothing is to be done.\<close>

definition guardIdempotentInstall :: "install_env \<Rightarrow> install_context \<Rightarrow> world \<Rightarrow> install_context option install" where
  "guardIdempotentInstall env c w =
     (if ic_update c \<or> truthy_text (ic_overwrite c) \<noteq> None then (Inr (Some c), w)
      else let presence = probeContainerPresenceByName (is_presence env) in
        if forcedBootstrapReinstall env (sl_module (ic_target c)) presence (ic_update c) then forcedBootstrapContext env c w
        else case presence of
          Exists \<Rightarrow> (Inr None, w)
        | Unknown_presence \<Rightarrow> (Inl PresenceUnknown, w)
        | Gone \<Rightarrow> (Inr (Some c), w))"

text \<open>\<open>utxoWasFresh\<close> and \<open>mariaWasFresh\<close>.\<close>

definition tracker_was_fresh :: "install_env \<Rightarrow> bool" where
  "tracker_was_fresh env = ((case is_volume env of (inspect, listing) \<Rightarrow> utxoTrackerVolumeFreshness inspect listing) = FRESHNESS_EMPTY
     \<or> forceBootstrapRequested (is_force env))"

definition sampleBootstrapFreshness :: "install_env \<Rightarrow> string \<Rightarrow> bool \<Rightarrow> bool \<times> bool" where
  "sampleBootstrapFreshness env md onlyExecution =
     (md = XCHAIN_UTXO_TRACKER \<and> \<not> onlyExecution \<and> tracker_was_fresh env,
      (md = XCHAIN_DECODER \<or> md = XCHAIN_INDEXER) \<and> \<not> onlyExecution \<and>
        (mariaDbModuleFreshness (is_maria env) md (is_default_name env) = FRESHNESS_EMPTY \<or> forceBootstrapRequested (is_force env)))"

definition buildAndUp :: "install_env \<Rightarrow> world \<Rightarrow> unit install" where
  "buildAndUp env w =
     (if is_ok env BuildAndUp then (Inr (), w\<lparr>running := True\<rparr>)
      else (Inl (CallThrew BuildAndUp), w\<lparr>running := running w \<and> is_up_after_failed_build env\<rparr>))"

definition finishServiceInstall :: "install_env \<Rightarrow> install_context \<Rightarrow> bool \<times> bool \<Rightarrow> world \<Rightarrow> bool install" where
  "finishServiceInstall env c freshness w =
     (let t = ic_target c in
      attempt (buildAndUp env w) (\<lambda>_ w.
      attempt (if sl_module t \<in> {XCHAIN_DECODER, XCHAIN_INDEXER, HUB_MODULE_NAME} then icall env DatabaseParameters w else (Inr (), w)) (\<lambda>_ w.
      let w = (if fst freshness then snd (ensureBootstrapUtxoTracker (is_restore env) (sl_coin t) (sl_network t) w) else w);
          w = (if snd freshness then snd (ensureBootstrapMariaDb (is_restore env) (sl_coin t) (sl_network t) (sl_module t) w) else w) in
      attempt (if ic_only_execution c then (Inr (), w) else icall env StatusUpdate w) (\<lambda>_ w. (Inr True, w)))))"

definition installServiceModule :: "install_env \<Rightarrow> install_context \<Rightarrow> world \<Rightarrow> bool install" where
  "installServiceModule env c w =
     attempt (guardIdempotentInstall env c w) (\<lambda>g w. case g of
       None \<Rightarrow> (Inr False, w)
     | Some c \<Rightarrow>
         attempt (icall env CredentialCheck w) (\<lambda>_ w.
         attempt (icall env Checkout w) (\<lambda>_ w.
         finishServiceInstall env c (sampleBootstrapFreshness env (sl_module (ic_target c)) (ic_only_execution c)) w)))"

text \<open>The services of a node; only the tracker's restore touches a store.\<close>

definition clone_and_build :: "install_env \<Rightarrow> string \<Rightarrow> world \<Rightarrow> unit install" where
  "clone_and_build env md w = attempt (icall env (Clone md) w) (\<lambda>_ w. icall env (BuildOther md) w)"

definition installDependentServices :: "install_env \<Rightarrow> string \<Rightarrow> string \<Rightarrow> world \<Rightarrow> unit install" where
  "installDependentServices env coin network w =
     attempt (clone_and_build env XCHAIN_ENCODER w) (\<lambda>_ w.
     attempt (clone_and_build env XCHAIN_DECODER w) (\<lambda>_ w.
     attempt (icall env (Clone XCHAIN_UTXO_TRACKER) w) (\<lambda>_ w.
     let utxoWasFresh = tracker_was_fresh env in
     attempt (buildAndUp env w) (\<lambda>_ w.
     let w = (if utxoWasFresh then snd (ensureBootstrapUtxoTracker (is_restore env) coin network w) else w) in
     attempt (if network = ''regtest'' then clone_and_build env XCHAIN_REGTEST_MINER w else (Inr (), w)) (\<lambda>_ w.
     clone_and_build env XCHAIN_INDEXER w)))))"

section \<open>What a freshness reading says\<close>

text \<open>
  The tracker's volume with its entries, if there is one, and docker's answers about it: it says
  there is no such volume only when there is none, and a listing that succeeded is one.
\<close>

definition volume_answers :: "string list option \<Rightarrow> exec_result \<times> exec_result \<Rightarrow> bool" where
  "volume_answers vol answers = (
     (\<forall>text. fst answers = Inl text \<and> no_such_volume text \<longrightarrow> vol = None)
   \<and> (\<forall>out. snd answers = Inr out \<longrightarrow>
        UTXO_TRACKER_LISTING_COMMAND (Some (case vol of None \<Rightarrow> [] | Some entries \<Rightarrow> entries)) = Inr out)
   \<and> (\<forall>entries. vol = Some entries \<longrightarrow> list_all (\<lambda>e. trim (takeWhile (\<lambda>c. c \<noteq> CHR 0x0A) e) \<noteq> []) entries))"

text \<open>
  The rows of the \<open>blocks\<close> table per database, if it exists, and what the server answers; docker
  says there is no database container only when there are no databases.
\<close>

definition maria_answers :: "(string \<Rightarrow> nat option) \<Rightarrow> maria_env \<Rightarrow> bool" where
  "maria_answers rows env = (
     (\<not> me_external env \<and> probeContainerPresenceByName (me_inspect env) = Gone \<longrightarrow> (\<forall>d. rows d = None))
   \<and> (\<forall>d out. me_run env (tableExistsSql (quote d) (quote ''blocks'')) = Some out \<longrightarrow>
        out = show_nat (if rows d = None then 0 else 1) @ [CHR 0x0A])
   \<and> (\<forall>d out. me_run env (rowCountSql d) = Some out \<longrightarrow> (\<exists>n. rows d = Some n \<and> out = show_nat n @ [CHR 0x0A])))"

definition holds_data :: "install_env \<Rightarrow> string list option \<Rightarrow> (string \<Rightarrow> nat option) \<Rightarrow> string \<Rightarrow> bool" where
  "holds_data env vol rows md =
     (if md = XCHAIN_UTXO_TRACKER then (\<exists>e es. vol = Some (e # es))
      else (case freshnessDatabaseName (is_maria env) md (is_default_name env) of
              None \<Rightarrow> False | Some d \<Rightarrow> (case rows d of None \<Rightarrow> False | Some n \<Rightarrow> 0 < n)))"

lemma takeWhile_join_lines:
  "takeWhile (\<lambda>c. c \<noteq> CHR 0x0A) (join_lines (e # es)) = takeWhile (\<lambda>c. c \<noteq> CHR 0x0A) e"
  by (cases es) (auto simp: takeWhile_append takeWhile_eq_all_conv [THEN iffD2])

lemma volume_freshness:
  assumes "volume_answers vol (inspect, listing)"
  shows "utxoTrackerVolumeFreshness inspect listing = FRESHNESS_EMPTY \<Longrightarrow> vol = None \<or> vol = Some []"
    "utxoTrackerVolumeFreshness inspect listing = FRESHNESS_POPULATED \<Longrightarrow> \<exists>e es. vol = Some (e # es)"
proof -
  have listed: "trim out = [] \<longleftrightarrow> vol = None \<or> vol = Some []" if "listing = Inr out" for out
  proof (cases vol)
    case None then show ?thesis using that assms by (simp add: volume_answers_def UTXO_TRACKER_LISTING_COMMAND_def trim_def)
  next
    case (Some entries)
    then show ?thesis using that assms
      by (cases entries) (auto simp: volume_answers_def UTXO_TRACKER_LISTING_COMMAND_def takeWhile_join_lines simp del: join_lines.simps(3), simp add: trim_def)
  qed
  show "utxoTrackerVolumeFreshness inspect listing = FRESHNESS_EMPTY \<Longrightarrow> vol = None \<or> vol = Some []"
    using assms listed by (auto simp: utxoTrackerVolumeFreshness_def volume_answers_def split: sum.splits if_splits)
  show "utxoTrackerVolumeFreshness inspect listing = FRESHNESS_POPULATED \<Longrightarrow> \<exists>e es. vol = Some (e # es)"
    using listed by (cases vol; cases "the vol") (auto simp: utxoTrackerVolumeFreshness_def split: sum.splits if_splits)
qed

lemma countOf_number [simp]: "countOf (show_nat n @ [CHR 0x0A]) = Some (int n)"
  by (simp add: countOf_def parseInt_digits show_nat_digits)

lemma inspect_blocks_reading:
  assumes "maria_answers rows env" "inspect_blocks (me_run env) d = Some f"
  shows "f \<noteq> FRESHNESS_UNKNOWN" "f = FRESHNESS_POPULATED \<longleftrightarrow> (\<exists>n. rows d = Some n \<and> 0 < n)"
proof -
  obtain out where out: "me_run env (tableExistsSql (quote d) (quote ''blocks'')) = Some out"
    using assms(2) by (auto simp: inspect_blocks_def bind_eq_Some_conv split: option.splits)
  then have "out = show_nat (if rows d = None then 0 else 1) @ [CHR 0x0A]"
    using assms(1) by (simp add: maria_answers_def del: show_nat.simps)
  then have "countOf out = Some (int (if rows d = None then 0 else 1))" by (simp only: countOf_number)
  then have t: "countOf out = Some (if rows d = None then 0 else 1)" by (simp split: if_splits)
  show "f \<noteq> FRESHNESS_UNKNOWN" using assms(2) out t by (auto simp: inspect_blocks_def split: if_splits)
  show "f = FRESHNESS_POPULATED \<longleftrightarrow> (\<exists>n. rows d = Some n \<and> 0 < n)"
  proof (cases "rows d")
    case None then show ?thesis using assms(2) out t by (auto simp: inspect_blocks_def)
  next
    case (Some n)
    then obtain out2 where "me_run env (rowCountSql d) = Some out2"
      using assms(2) out t by (auto simp: inspect_blocks_def bind_eq_Some_conv)
    moreover from this have "\<exists>m. rows d = Some m \<and> out2 = show_nat m @ [CHR 0x0A]"
      using assms(1) unfolding maria_answers_def by blast
    then have "out2 = show_nat n @ [CHR 0x0A]" using Some by simp
    ultimately show ?thesis using assms(2) out t Some by (auto simp: inspect_blocks_def split: if_splits)
  qed
qed

lemma maria_freshness:
  assumes "maria_answers rows env" "mariaDbModuleFreshness env md dflt = f" "f \<noteq> FRESHNESS_UNKNOWN"
  obtains d where "freshnessDatabaseName env md dflt = Some d"
    "f = FRESHNESS_POPULATED \<longleftrightarrow> (\<exists>n. rows d = Some n \<and> 0 < n)"
proof -
  obtain d where d: "freshnessDatabaseName env md dflt = Some d"
    using assms(2,3) by (auto simp: mariaDbModuleFreshness_def split: option.splits)
  have "f = FRESHNESS_POPULATED \<longleftrightarrow> (\<exists>n. rows d = Some n \<and> 0 < n)"
    using assms d inspect_blocks_reading [OF assms(1), of d]
    by (auto simp: mariaDbModuleFreshness_def externalMariaFreshness_def inspectLocalMariaFreshness_def or_unknown_def
        prepareLocalMariaFreshness_def maria_answers_def split: if_splits option.splits presence.splits)
  then show ?thesis using that d by blast
qed

section \<open>Which stores an install may replace\<close>

lemma sampled_fresh:
  assumes "volume_answers vol (is_volume env)" "maria_answers rows (is_maria env)" "\<not> forceBootstrapRequested (is_force env)"
    and "sampleBootstrapFreshness env md onlyExecution = (u, m)" "u \<or> m"
  shows "\<not> onlyExecution" "md \<in> set BOOTSTRAP_RESTORED_MODULES" "\<not> holds_data env vol rows md"
proof -
  show "\<not> onlyExecution" "md \<in> set BOOTSTRAP_RESTORED_MODULES"
    using assms(4,5) by (auto simp: sampleBootstrapFreshness_def BOOTSTRAP_RESTORED_MODULES_def)
  obtain i l where v: "is_volume env = (i, l)" by fastforce
  show "\<not> holds_data env vol rows md"
  proof (cases "md = XCHAIN_UTXO_TRACKER")
    case True
    then have "utxoTrackerVolumeFreshness i l = FRESHNESS_EMPTY"
      using assms(3-5) v by (auto simp: sampleBootstrapFreshness_def tracker_was_fresh_def module_name_defs)
    then show ?thesis using volume_freshness(1) assms(1) v True by (auto simp: holds_data_def)
  next
    case False
    then have e: "mariaDbModuleFreshness (is_maria env) md (is_default_name env) = FRESHNESS_EMPTY"
      using assms(3-5) by (auto simp: sampleBootstrapFreshness_def)
    obtain d where "freshnessDatabaseName (is_maria env) md (is_default_name env) = Some d" "\<not> (\<exists>n. rows d = Some n \<and> 0 < n)"
      by (rule maria_freshness [OF assms(2) e]) auto
    then show ?thesis using False by (auto simp: holds_data_def split: option.splits)
  qed
qed

abbreviation keeps_store :: "world \<Rightarrow> world \<Rightarrow> bool" where
  "keeps_store w w' \<equiv> store w' = store w \<and> outcomes w' = outcomes w"

lemma icall_ensures [simp]: "ensures (icall env c w) (\<lambda>x w'. w' = w)"
  by (simp add: icall_def)

lemma keeps_attempt:
  assumes "ensures r (\<lambda>_. keeps_store w)" "\<And>y w1. keeps_store w w1 \<Longrightarrow> ensures (k y w1) (\<lambda>_. keeps_store w)"
  shows "ensures (attempt r k) (\<lambda>_. keeps_store w)"
  by (rule ensures_attempt [OF assms(1)]) (use assms(2) in auto)

lemma keeps_calls:
  assumes "keeps_store w w1"
  shows "ensures (icall env c w1) (\<lambda>_. keeps_store w)" "ensures (buildAndUp env w1) (\<lambda>_. keeps_store w)"
  using assms by (auto simp: icall_def buildAndUp_def)

lemma finish_keeps:
  assumes "\<not> fst fr" "\<not> snd fr"
  shows "ensures (finishServiceInstall env c fr w) (\<lambda>_. keeps_store w)"
  using assms by (auto simp: finishServiceInstall_def attempt_def buildAndUp_def icall_def Let_def)

lemma guard_ensures:
  "ensures (guardIdempotentInstall env c w) (\<lambda>x w'. w' = w \<and> (\<forall>c'. x = Inr (Some c') \<longrightarrow> ic_target c' = ic_target c \<and> ic_only_execution c' = ic_only_execution c))"
  by (auto simp: guardIdempotentInstall_def forcedBootstrapContext_def attempt_def icall_def Let_def split: option.splits presence.splits)

lemma service_install_keeps:
  assumes "sampleBootstrapFreshness env (sl_module (ic_target c)) (ic_only_execution c) = (False, False)"
  shows "ensures (installServiceModule env c w) (\<lambda>_. keeps_store w)"
  unfolding installServiceModule_def
proof (rule ensures_attempt [OF guard_ensures], goal_cases)
  case (2 g w1)
  show ?case
  proof (cases g)
    case (Some c')
    have fin: "ensures (finishServiceInstall env c' (sampleBootstrapFreshness env (sl_module (ic_target c')) (ic_only_execution c')) w2) (\<lambda>_. keeps_store w)"
      if "keeps_store w w2" for w2
    proof -
      have "sampleBootstrapFreshness env (sl_module (ic_target c')) (ic_only_execution c') = (False, False)"
        using 2 assms Some by simp
      then show ?thesis using finish_keeps [of "(False, False)" env c' w2] that by simp
    qed
    have "keeps_store w w1" using 2 by simp
    then show ?thesis unfolding Some option.case by (intro keeps_attempt keeps_calls fin)
  qed (use 2 in simp)
qed simp

lemma dependent_install_keeps:
  assumes "\<not> tracker_was_fresh env"
  shows "ensures (installDependentServices env coin network w) (\<lambda>_. keeps_store w)"
  unfolding installDependentServices_def clone_and_build_def Let_def using assms
  by (intro keeps_attempt keeps_calls) (auto intro!: keeps_attempt keeps_calls)

datatype install_path = ServiceInstall install_context | NodeServices string string

fun path_module :: "install_path \<Rightarrow> string" where
  "path_module (ServiceInstall c) = sl_module (ic_target c)"
| "path_module (NodeServices coin network) = XCHAIN_UTXO_TRACKER"

fun install_end :: "install_env \<Rightarrow> install_path \<Rightarrow> world \<Rightarrow> world" where
  "install_end env (ServiceInstall c) w = snd (installServiceModule env c w)"
| "install_end env (NodeServices coin network) w = snd (installDependentServices env coin network w)"

text \<open>
  C35. An install replaces only stores that hold nothing, unless the operator forces it. When a
  run of either install path leaves a service's store or its recorded outcomes other than they
  were, then the service is one a bootstrap restores, and XCHAIN_NODE_FORCE_BOOTSTRAP was set
  or the store held nothing, as long as docker says that a volume or the database container is
  absent only when it is and the database client prints what the server holds. A probe that
  fails, answers something unreadable or cannot name the database never counts as empty.
\<close>

theorem install_replaces_only_empty_or_forced_stores:
  assumes "volume_answers vol (is_volume env)" "maria_answers rows (is_maria env)"
    and "w' = install_end env path w" "store w' \<noteq> store w \<or> outcomes w' \<noteq> outcomes w"
  shows "path_module path \<in> set BOOTSTRAP_RESTORED_MODULES
     \<and> (forceBootstrapRequested (is_force env) \<or> \<not> holds_data env vol rows (path_module path))"
proof (cases path)
  case (ServiceInstall c)
  obtain u m where um: "sampleBootstrapFreshness env (sl_module (ic_target c)) (ic_only_execution c) = (u, m)" by fastforce
  have "u \<or> m" using service_install_keeps [of env c w] um assms(3,4) ServiceInstall by (auto simp: ensures_def)
  then show ?thesis using sampled_fresh [OF assms(1,2) _ um] ServiceInstall um
    by (auto simp: sampleBootstrapFreshness_def BOOTSTRAP_RESTORED_MODULES_def)
next
  case (NodeServices coin network)
  have f: "tracker_was_fresh env"
    using dependent_install_keeps [of env coin network w] assms(3,4) NodeServices by (auto simp: ensures_def)
  then have "sampleBootstrapFreshness env XCHAIN_UTXO_TRACKER False = (True, False)"
    by (simp add: sampleBootstrapFreshness_def module_name_defs)
  then show ?thesis using sampled_fresh [OF assms(1,2)] NodeServices by (auto simp: BOOTSTRAP_RESTORED_MODULES_def)
qed

definition demo_maria :: maria_env where
  "demo_maria = \<lparr>me_external = True, me_config = Some Map.empty, me_external_config = True, me_inspect = Inl ''timeout'',
     me_container_id = None, me_password = False,
     me_run = (\<lambda>q. if prefix ''SELECT COUNT(*) FROM information_schema'' q then Some (show_nat 0 @ [CHR 0x0A]) else None)\<rparr>"

lemma demo_maria_run:
  "me_run demo_maria (tableExistsSql d t) = Some (show_nat 0 @ [CHR 0x0A])" "me_run demo_maria (rowCountSql d) = None"
  by (simp_all add: demo_maria_def tableExistsSql_def tableCountSql_def rowCountSql_def del: show_nat.simps)

lemma demo_maria_answers: "maria_answers (\<lambda>_. None) demo_maria"
  by (simp add: maria_answers_def demo_maria_run del: show_nat.simps)

lemma demo_maria_fresh: "mariaDbModuleFreshness demo_maria XCHAIN_DECODER ''XChain_BTC_Mainnet_Decoder'' = FRESHNESS_EMPTY"
proof -
  have "freshnessDatabaseName demo_maria XCHAIN_DECODER ''XChain_BTC_Mainnet_Decoder'' = Some ''XChain_BTC_Mainnet_Decoder''"
    by code_simp
  moreover have "me_external demo_maria" "me_external_config demo_maria" by (simp_all add: demo_maria_def)
  ultimately show ?thesis
    by (simp add: mariaDbModuleFreshness_def externalMariaFreshness_def or_unknown_def inspect_blocks_def demo_maria_run del: show_nat.simps)
qed

definition demo_install :: install_env where
  "demo_install = \<lparr>is_ok = (\<lambda>_. True), is_presence = Inl ''Error: No such container: x'', is_force = Some ''0'', is_row = None,
     is_up_after_failed_build = False, is_volume = (Inl ''timeout'', Inl ''timeout''), is_maria = demo_maria,
     is_default_name = ''XChain_BTC_Mainnet_Decoder'', is_restore = demo_restore (\<lambda>_. True)\<rparr>"

abbreviation demo_install_path :: install_path where
  "demo_install_path \<equiv> ServiceInstall \<lparr>ic_target = demo_decoder, ic_update = False, ic_overwrite = None, ic_only_execution = False\<rparr>"

lemma demo_presence: "probeContainerPresenceByName (Inl ''Error: No such container: x'') = Gone" "\<not> no_such_volume ''timeout''"
  "\<not> forceBootstrapRequested (Some ''0'')"
  by code_simp+

lemma demo_install_end: "store (install_end demo_install demo_install_path demo_installed) = Imported ''inner''"
proof -
  have run: "demo_installed\<lparr>running := True\<rparr> = demo_installed" by (simp add: demo_installed_def)
  have "sampleBootstrapFreshness demo_install XCHAIN_DECODER False = (False, True)"
    using demo_maria_fresh by (simp add: sampleBootstrapFreshness_def demo_install_def module_name_defs)
  then show ?thesis using demo_restore_run(3) [of "\<lambda>_. True", unfolded demo_decoder_def] demo_presence
    by (simp add: demo_decoder_def installServiceModule_def guardIdempotentInstall_def truthy_text_def forcedBootstrapReinstall_def attempt_def
        icall_def demo_install_def finishServiceInstall_def buildAndUp_def run ensureBootstrapMariaDb_def)
qed

theorem install_replaces_only_empty_or_forced_stores_witness:
  "\<not> holds_data demo_install None (\<lambda>_. None) XCHAIN_DECODER
     \<and> store (install_end demo_install demo_install_path demo_installed) \<noteq> store demo_installed"
proof -
  have v: "volume_answers None (is_volume demo_install)"
    using demo_presence by (simp add: volume_answers_def demo_install_def)
  have m: "maria_answers (\<lambda>_. None) (is_maria demo_install)" using demo_maria_answers by (simp add: demo_install_def)
  have changed: "store (install_end demo_install demo_install_path demo_installed) \<noteq> store demo_installed"
    unfolding demo_install_end by (simp add: demo_installed_def)
  show ?thesis
    using install_replaces_only_empty_or_forced_stores [OF v m refl disjI1 [OF changed]] changed demo_presence
    by (simp add: demo_install_def)
qed

end
