(* ===== verification/Reset.thy ===== *)
theory Reset
  imports JsEffects Freshness RepublishLedger StopBudget
begin

text \<open>
  The destructive \<open>reset\<close> command: \<open>operations/module_operations/reset_modules.js\<close>,
  \<open>reset_wipe_safety.js\<close>, \<open>reset_db_override.js\<close>, the helpers of \<open>repo_refs.js\<close>, the restart passes
  of \<open>module_controls.js\<close> and the drops of \<open>database_service/reset_databases.js\<close>. The world is the
  stack: which services run, the state of every store, and the republish ledger; it keeps a log
  of the wipes, each with whether the service that writes the store ran when it began.
\<close>

section \<open>Request and world\<close>

datatype rstore = NodeData | RelocatedBlocks | RelocatedTxindex | TrackerVolume | Database string

datatype store_state = Intact | Partly | Cleared

record reset_world =
  rw_up :: "string \<Rightarrow> bool"
  rw_store :: "rstore \<Rightarrow> store_state"
  rw_wipes :: "(rstore \<times> bool) list"
  rw_ledger :: "string option"
  rw_fence_cleared :: bool
  rw_hub_purged :: bool

text \<open>The service that writes a store.\<close>

fun owner :: "rstore \<Rightarrow> string" where
  "owner TrackerVolume = XCHAIN_UTXO_TRACKER"
| "owner (Database m) = m"
| "owner _ = NODE_MODULE_NAME"

record reset_request =
  rq_service :: string
  rq_coin :: string
  rq_network :: string
  rq_force :: bool
  rq_with_indexer :: bool
  rq_db_container :: "string option"
  rq_check :: bool

text \<open>\<open>Inr ()\<close> is a completed reset; \<open>AbortedUntouched\<close> is reported with "No data was touched" and
  the services still down, \<open>AbortedPartly\<close> by \<open>reportPartialWipe\<close>.\<close>

datatype reset_error = UnknownArgument | NotInteractive | RestartsFailed "string list" | StatusThrew

datatype reset_end = AbortedUntouched "string list" | AbortedPartly | CheckPassed | Threw reset_error

type_synonym 'a reset_run = "(reset_end, 'a, reset_world) run_result"

datatype stop_reply = Stops | NoSuchContainer | StopFails bool

datatype phase = Pairing | Stopping | PuttingBack | Starting | Bouncing

text \<open>
  What the run asks. A lookup is \<open>None\<close> when it throws and \<open>Some None\<close> when it finds nothing;
  \<open>StopFails b\<close> tells whether the service still runs; starts and bounces carry their attempt.
\<close>

record reset_env =
  rs_external :: bool
  rs_find :: "phase \<Rightarrow> string \<Rightarrow> string option option"
  rs_node_row :: "string option option"
  rs_mounts :: "(string \<times> string) list"
  rs_configured :: string
  rs_exists :: "string \<Rightarrow> bool"
  rs_blocks_dir :: "string option"
  rs_tty :: bool
  rs_answer :: string
  rs_named_target :: bool
  rs_ping :: bool
  rs_db_container_id :: "string option"
  rs_root_password :: bool
  rs_image :: bool
  rs_pull :: bool
  rs_stop :: "string \<Rightarrow> stop_reply"
  rs_start :: "phase \<Rightarrow> nat \<Rightarrow> string \<Rightarrow> bool"
  rs_bounce_stop :: "nat \<Rightarrow> string \<Rightarrow> stop_reply"
  rs_volume :: exec_result
  rs_wipe :: "rstore \<Rightarrow> bool"
  rs_drop_targets :: bool
  rs_fence :: bool
  rs_purge :: bool
  rs_ledger_write :: bool
  rs_now :: int
  rs_status :: bool

section \<open>Which stores and services\<close>

definition RESETTABLE_SERVICES :: "string list" where
  "RESETTABLE_SERVICES = [''all'', NODE_MODULE_NAME, XCHAIN_UTXO_TRACKER, XCHAIN_DECODER, XCHAIN_INDEXER]"

definition resetAll :: "reset_request \<Rightarrow> bool" where
  "resetAll rq = (rq_service rq = ''all'')"

definition resetNode :: "reset_request \<Rightarrow> bool" where
  "resetNode rq = (resetAll rq \<or> rq_service rq = NODE_MODULE_NAME)"

definition resetUtxoTracker :: "reset_request \<Rightarrow> bool" where
  "resetUtxoTracker rq = (resetAll rq \<or> rq_service rq = XCHAIN_UTXO_TRACKER)"

definition resetDecoder :: "reset_request \<Rightarrow> bool" where
  "resetDecoder rq = (resetAll rq \<or> rq_service rq = XCHAIN_DECODER)"

definition resetIndexer :: "reset_request \<Rightarrow> bool" where
  "resetIndexer rq = (resetAll rq \<or> rq_service rq = XCHAIN_INDEXER \<or> rq_with_indexer rq \<and> resetDecoder rq)"

definition dbContainer :: "reset_request \<Rightarrow> string option" where
  "dbContainer rq = truthy_text (rq_db_container rq)"

definition check :: "reset_request \<Rightarrow> bool" where
  "check rq = (dbContainer rq \<noteq> None \<and> rq_check rq)"

definition dbOverrideRefusal :: "reset_env \<Rightarrow> string \<Rightarrow> bool" where
  "dbOverrideRefusal env service =
     (rs_external env \<or> service = ''all'' \<or> service = NODE_MODULE_NAME \<or> service \<noteq> XCHAIN_DECODER \<and> service \<noteq> XCHAIN_INDEXER)"

definition modulesToStop :: "reset_request \<Rightarrow> string list" where
  "modulesToStop rq =
     (if resetNode rq then [NODE_MODULE_NAME] else []) @ (if resetUtxoTracker rq then [XCHAIN_UTXO_TRACKER] else [])
     @ (if resetDecoder rq then [XCHAIN_DECODER] else []) @ (if resetIndexer rq then [XCHAIN_INDEXER] else [])
     @ (if resetAll rq then [XCHAIN_REGTEST_MINER] else [])"

definition dbModulesFor :: "reset_request \<Rightarrow> string list" where
  "dbModulesFor rq = (if resetDecoder rq then [XCHAIN_DECODER] else []) @ (if resetIndexer rq then [XCHAIN_INDEXER] else [])"

text \<open>A lookup that found a container.\<close>

definition found :: "string option option \<Rightarrow> bool" where
  "found row = (case row of None \<Rightarrow> False | Some cid \<Rightarrow> truthy_text cid \<noteq> None)"

lemma found_ex: "found row = (\<exists>cid. row = Some cid \<and> truthy_text cid \<noteq> None)"
  by (simp add: found_def split: option.splits)

text \<open>A lookup that answered and found none.\<close>

definition missed :: "string option option \<Rightarrow> bool" where
  "missed row = (case row of None \<Rightarrow> False | Some cid \<Rightarrow> truthy_text cid = None)"

lemma lookup_cases: "row = None \<or> found row \<or> missed row" "found row \<Longrightarrow> \<not> missed row"
  by (auto simp: found_ex missed_def split: option.splits)

section \<open>Refusals before anything stops\<close>

definition untouched :: "reset_world \<Rightarrow> 'a reset_run" where
  "untouched w = (Inl (AbortedUntouched []), w)"

definition validateDecoderPair :: "reset_env \<Rightarrow> reset_request \<Rightarrow> reset_world \<Rightarrow> unit reset_run" where
  "validateDecoderPair env rq w =
     (if resetDecoder rq \<and> \<not> resetIndexer rq \<and> (rs_find env Pairing XCHAIN_INDEXER = None \<or> found (rs_find env Pairing XCHAIN_INDEXER))
      then untouched w else (Inr (), w))"

text \<open>The datadir from the container's own mounts, else the configured one when it exists.\<close>

definition resolveNodeDataPath :: "reset_env \<Rightarrow> string \<Rightarrow> string option" where
  "resolveNodeDataPath env coin = (case find (\<lambda>(d, s). d = ''/root/.'' @ coin \<and> s \<noteq> []) (rs_mounts env) of
     Some (d, s) \<Rightarrow> Some s
   | None \<Rightarrow> if rs_exists env (rs_configured env) then Some (rs_configured env) else None)"

definition blocksHostPath :: "reset_env \<Rightarrow> reset_request \<Rightarrow> string option" where
  "blocksHostPath env rq = map_option (\<lambda>d. d @ ''/'' @ rq_coin rq @ ''/'' @ rq_network rq) (truthy_text (rs_blocks_dir env))"

definition txindexHostPath :: "reset_env \<Rightarrow> reset_request \<Rightarrow> string option" where
  "txindexHostPath env rq = map_option (\<lambda>p. p @ ''-txindex'') (blocksHostPath env rq)"

text \<open>The node datadir to clear, if any.\<close>

definition resolveResetPaths :: "reset_env \<Rightarrow> reset_request \<Rightarrow> reset_world \<Rightarrow> string option reset_run" where
  "resolveResetPaths env rq w =
     (if \<not> resetNode rq then (Inr None, w)
      else case resolveNodeDataPath env (rq_coin rq) of
          Some p \<Rightarrow> (Inr (Some p), w)
        | None \<Rightarrow> if missed (rs_node_row env) then (Inr None, w) else untouched w)"

definition confirmDestructiveReset :: "reset_env \<Rightarrow> reset_world \<Rightarrow> bool reset_run" where
  "confirmDestructiveReset env w =
     (if \<not> rs_tty env then (Inl (Threw NotInteractive), w) else (Inr (to_lower (trim (rs_answer env)) = ''yes''), w))"

definition confirmReset :: "reset_env \<Rightarrow> reset_request \<Rightarrow> reset_world \<Rightarrow> unit reset_run" where
  "confirmReset env rq w =
     (if rq_force rq \<or> check rq then (Inr (), w)
      else attempt (confirmDestructiveReset env w) (\<lambda>confirmed w. if confirmed then (Inr (), w) else untouched w))"

definition ensureWipeImage :: "reset_env \<Rightarrow> bool" where
  "ensureWipeImage env = (rs_image env \<or> rs_pull env)"

definition checkResetDatabase :: "reset_env \<Rightarrow> reset_request \<Rightarrow> string option \<Rightarrow> reset_world \<Rightarrow> unit reset_run" where
  "checkResetDatabase env rq nodeDataPath w =
     attempt (if resetDecoder rq \<or> resetIndexer rq
              then (if dbContainer rq \<noteq> None
                    then (if \<not> rs_named_target env then untouched w else if check rq then (Inl CheckPassed, w) else (Inr (), w))
                    else if rs_external env then (if rs_ping env then (Inr (), w) else untouched w)
                    else if truthy_text (rs_db_container_id env) \<noteq> None \<and> rs_root_password env then (Inr (), w)
                    else untouched w)
              else (Inr (), w)) (\<lambda>_ w.
     let wipesData = resetNode rq \<and> (nodeDataPath \<noteq> None \<or> blocksHostPath env rq \<noteq> None) \<or> resetUtxoTracker rq
     in if wipesData \<and> \<not> ensureWipeImage env then untouched w else (Inr (), w))"

section \<open>Stopping\<close>

definition set_up :: "string \<Rightarrow> bool \<Rightarrow> reset_world \<Rightarrow> reset_world" where
  "set_up m b w = w\<lparr>rw_up := (rw_up w)(m := b)\<rparr>"

text \<open>The services that could not be started again.\<close>

fun restartStoppedModules :: "reset_env \<Rightarrow> string list \<Rightarrow> reset_world \<Rightarrow> string list \<times> reset_world" where
  "restartStoppedModules env [] w = ([], w)"
| "restartStoppedModules env (m # ms) w =
     (if missed (rs_find env PuttingBack m) then restartStoppedModules env ms w
      else if found (rs_find env PuttingBack m) \<and> rs_start env PuttingBack 0 m then restartStoppedModules env ms (set_up m True w)
      else let (failed, w') = restartStoppedModules env ms w in (m # failed, w'))"

definition abortBeforeAnyWipe :: "reset_env \<Rightarrow> string list \<Rightarrow> reset_world \<Rightarrow> 'a reset_run" where
  "abortBeforeAnyWipe env stopped w =
     (let (failed, w') = restartStoppedModules env stopped w in (Inl (AbortedUntouched failed), w'))"

fun stopResetModules :: "reset_env \<Rightarrow> string list \<Rightarrow> string list \<Rightarrow> reset_world \<Rightarrow> string list reset_run" where
  "stopResetModules env stopped [] w = (Inr stopped, w)"
| "stopResetModules env stopped (m # ms) w =
     (if rs_find env Stopping m = None then abortBeforeAnyWipe env stopped w
      else if missed (rs_find env Stopping m) then stopResetModules env stopped ms w
      else case rs_stop env m of
          Stops \<Rightarrow> stopResetModules env (stopped @ [m]) ms (set_up m False w)
        | NoSuchContainer \<Rightarrow> stopResetModules env stopped ms w
        | StopFails still \<Rightarrow> abortBeforeAnyWipe env stopped (set_up m (rw_up w m \<and> still) w))"

text \<open>Whether the tracker's volume is there to be cleared.\<close>

definition classifyResetVolume :: "reset_env \<Rightarrow> reset_request \<Rightarrow> string list \<Rightarrow> reset_world \<Rightarrow> bool reset_run" where
  "classifyResetVolume env rq stopped w =
     (if \<not> resetUtxoTracker rq then (Inr False, w)
      else case rs_volume env of
          Inr _ \<Rightarrow> (Inr True, w)
        | Inl text \<Rightarrow> if no_such_volume text then (Inr False, w) else abortBeforeAnyWipe env stopped w)"

section \<open>Wiping\<close>

definition wipe :: "reset_env \<Rightarrow> rstore \<Rightarrow> reset_world \<Rightarrow> unit reset_run" where
  "wipe env s w =
     (let w' = w\<lparr>rw_wipes := rw_wipes w @ [(s, rw_up w (owner s))]\<rparr> in
      if rs_wipe env s then (Inr (), w'\<lparr>rw_store := (rw_store w)(s := Cleared)\<rparr>)
      else (Inl AbortedPartly, w'\<lparr>rw_store := (rw_store w)(s := Partly)\<rparr>))"

fun wipe_all :: "reset_env \<Rightarrow> rstore list \<Rightarrow> reset_world \<Rightarrow> unit reset_run" where
  "wipe_all env [] w = (Inr (), w)"
| "wipe_all env (s # ss) w = attempt (wipe env s w) (\<lambda>_ w. wipe_all env ss w)"

definition existing :: "reset_env \<Rightarrow> string option \<Rightarrow> bool" where
  "existing env p = (case p of None \<Rightarrow> False | Some path \<Rightarrow> rs_exists env path)"

definition node_stores :: "reset_env \<Rightarrow> reset_request \<Rightarrow> string option \<Rightarrow> rstore list" where
  "node_stores env rq nodeDataPath =
     (if \<not> resetNode rq then []
      else (if nodeDataPath \<noteq> None then [NodeData] else [])
         @ (if existing env (blocksHostPath env rq) then [RelocatedBlocks] else [])
         @ (if existing env (txindexHostPath env rq) then [RelocatedTxindex] else []))"

text \<open>The targets are resolved, and the server asked for again, before the first DROP.\<close>

definition resetDatabases :: "reset_env \<Rightarrow> string list \<Rightarrow> reset_world \<Rightarrow> unit reset_run" where
  "resetDatabases env ms w = (if \<not> rs_drop_targets env then (Inl AbortedPartly, w) else wipe_all env (map Database ms) w)"

definition wipeResetStores :: "reset_env \<Rightarrow> reset_request \<Rightarrow> string option \<Rightarrow> bool \<Rightarrow> reset_world \<Rightarrow> unit reset_run" where
  "wipeResetStores env rq nodeDataPath utxoVolumePresent w =
     attempt (wipe_all env (node_stores env rq nodeDataPath) w) (\<lambda>_ w.
     attempt (wipe_all env (if resetUtxoTracker rq \<and> utxoVolumePresent then [TrackerVolume] else []) w) (\<lambda>_ w.
     if dbModulesFor rq = [] then (Inr (), w) else resetDatabases env (dbModulesFor rq) w))"

section \<open>After the wipes\<close>

text \<open>Each of these may fail without stopping the run.\<close>

definition cleanResetMetadata :: "reset_env \<Rightarrow> reset_request \<Rightarrow> reset_world \<Rightarrow> reset_world" where
  "cleanResetMetadata env rq w =
     w\<lparr>rw_fence_cleared := rw_fence_cleared w \<or> resetIndexer rq \<and> rs_fence env,
       rw_hub_purged := rw_hub_purged w \<or> resetNode rq \<and> rq_network rq = ''regtest'' \<and> rs_purge env\<rparr>"

definition recordResetReindex :: "reset_env \<Rightarrow> reset_request \<Rightarrow> reset_world \<Rightarrow> reset_world" where
  "recordResetReindex env rq w =
     (let ms = reindexAffectedModules (resetNode rq) (resetUtxoTracker rq) (resetDecoder rq) (resetIndexer rq) in
      if ms = [] then w
      else w\<lparr>rw_ledger := snd (recordReindex (rs_ledger_write env) ms (rq_coin rq) (rq_network rq) (rs_now env)
               (Some (''reset '' @ rq_service rq)) (rw_ledger w))\<rparr>)"

fun start_pass :: "reset_env \<Rightarrow> string list \<Rightarrow> reset_world \<Rightarrow> string list \<times> reset_world" where
  "start_pass env [] w = ([], w)"
| "start_pass env (m # ms) w =
     (if missed (rs_find env Starting m) then start_pass env ms w
      else if found (rs_find env Starting m) \<and> (rs_start env Starting 0 m \<or> rs_start env Starting 1 m)
      then start_pass env ms (set_up m True w)
      else let (failed, w') = start_pass env ms w in (m # failed, w'))"

text \<open>One try of a bounce: a stop and a start; the service is down after a start that failed.\<close>

definition bounce :: "reset_env \<Rightarrow> nat \<Rightarrow> string \<Rightarrow> reset_world \<Rightarrow> bool \<times> reset_world" where
  "bounce env n m w =
     (case rs_bounce_stop env n m of
        NoSuchContainer \<Rightarrow> (False, set_up m False w)
      | StopFails still \<Rightarrow> (False, set_up m (rw_up w m \<and> still) w)
      | Stops \<Rightarrow> if rs_start env Bouncing n m then (True, set_up m True w) else (False, set_up m False w))"

fun bounce_pass :: "reset_env \<Rightarrow> string list \<Rightarrow> string list \<Rightarrow> reset_world \<Rightarrow> string list \<times> reset_world" where
  "bounce_pass env failures [] w = (failures, w)"
| "bounce_pass env failures (m # ms) w =
     (if m \<in> set failures then bounce_pass env failures ms w
      else if rs_find env Bouncing m = None then bounce_pass env (failures @ [m]) ms w
      else if missed (rs_find env Bouncing m) then bounce_pass env failures ms w
      else let (ok, w1) = bounce env 0 m w in
        if ok then bounce_pass env failures ms w1
        else let (ok2, w2) = bounce env 1 m w1 in
          bounce_pass env (if ok2 then failures else failures @ [m]) ms w2)"

definition bounceResetModules :: "reset_env \<Rightarrow> reset_request \<Rightarrow> string list \<Rightarrow> reset_world \<Rightarrow> unit reset_run" where
  "bounceResetModules env rq startFailures w =
     (let (failures, w) = bounce_pass env startFailures (filter (\<lambda>m. m \<in> set (modulesToStop rq)) [XCHAIN_DECODER, XCHAIN_INDEXER]) w in
      if dbContainer rq = None \<and> \<not> rs_status env then (Inl (Threw StatusThrew), w)
      else if failures \<noteq> [] then (Inl (Threw (RestartsFailed failures)), w) else (Inr (), w))"

definition restartResetModules :: "reset_env \<Rightarrow> reset_request \<Rightarrow> reset_world \<Rightarrow> unit reset_run" where
  "restartResetModules env rq w =
     (let (failures, w) = start_pass env (modulesToStop rq) w in bounceResetModules env rq failures w)"

section \<open>The command\<close>

definition resetModules :: "reset_env \<Rightarrow> reset_request \<Rightarrow> reset_world \<Rightarrow> unit reset_run" where
  "resetModules env rq w =
     (if rq_service rq \<notin> set RESETTABLE_SERVICES \<or> CoinTickerSymbol (rq_coin rq) = None \<or> rq_network rq \<notin> set Networks
      then (Inl (Threw UnknownArgument), w)
      else if dbContainer rq \<noteq> None \<and> dbOverrideRefusal env (rq_service rq) then untouched w
      else
      attempt (validateDecoderPair env rq w) (\<lambda>_ w.
      attempt (resolveResetPaths env rq w) (\<lambda>nodeDataPath w.
      attempt (confirmReset env rq w) (\<lambda>_ w.
      attempt (checkResetDatabase env rq nodeDataPath w) (\<lambda>_ w.
      attempt (stopResetModules env [] (modulesToStop rq) w) (\<lambda>stopped w.
      attempt (classifyResetVolume env rq stopped w) (\<lambda>volumePresent w.
      attempt (wipeResetStores env rq nodeDataPath volumePresent w) (\<lambda>_ w.
      restartResetModules env rq (recordResetReindex env rq (cleanResetMetadata env rq w))))))))))"

section \<open>What a reset leaves\<close>

text \<open>
  The lookups and docker tell the truth about absence: a service that is not found, or whose
  container docker says is gone, does not run, and a service found before the stop is not lost
  from the registry during the run (a later lookup may fail, not miss).
\<close>

definition honest_stack :: "reset_env \<Rightarrow> reset_world \<Rightarrow> bool" where
  "honest_stack env w = (
     (\<forall>m. missed (rs_find env Stopping m) \<longrightarrow> \<not> rw_up w m)
   \<and> (\<forall>m. rs_stop env m = NoSuchContainer \<longrightarrow> \<not> rw_up w m)
   \<and> (\<forall>m ph. found (rs_find env Stopping m) \<longrightarrow> \<not> missed (rs_find env ph m)))"

definition same_disk :: "reset_world \<Rightarrow> reset_world \<Rightarrow> bool" where
  "same_disk w w' = (rw_store w' = rw_store w \<and> rw_wipes w' = rw_wipes w \<and> rw_ledger w' = rw_ledger w
     \<and> rw_fence_cleared w' = rw_fence_cleared w \<and> rw_hub_purged w' = rw_hub_purged w)"

lemma same_disk_simps [simp]: "same_disk w w" "same_disk w (set_up m b w') = same_disk w w'" "rw_up (set_up m b w) = (rw_up w)(m := b)"
  by (simp_all add: same_disk_def set_up_def)

definition stop_failed :: "reset_env \<Rightarrow> string \<Rightarrow> bool" where
  "stop_failed env m = (\<exists>b. rs_stop env m = StopFails b)"

lemma put_back:
  "restartStoppedModules env ms w = (failed, w') \<Longrightarrow> same_disk w w' \<and> (\<forall>m. rw_up w m \<longrightarrow> rw_up w' m)
     \<and> (\<forall>m\<in>set ms. \<not> missed (rs_find env PuttingBack m) \<longrightarrow> rw_up w' m \<or> m \<in> set failed)"
proof (induction ms arbitrary: w failed)
  case (Cons m ms)
  consider "missed (rs_find env PuttingBack m)" | "\<not> missed (rs_find env PuttingBack m)" "found (rs_find env PuttingBack m) \<and> rs_start env PuttingBack 0 m"
    | "\<not> missed (rs_find env PuttingBack m)" "\<not> (found (rs_find env PuttingBack m) \<and> rs_start env PuttingBack 0 m)" by blast
  then show ?case
  proof cases
    case 1 then show ?thesis using Cons by auto
  next
    case 2
    then have "restartStoppedModules env ms (set_up m True w) = (failed, w')" using Cons.prems by auto
    from Cons.IH [OF this] show ?thesis by (auto simp: same_disk_def set_up_def split: if_splits)
  next
    case 3
    obtain f where f: "restartStoppedModules env ms w = (f, w')" "failed = m # f"
      using Cons.prems 3 by (auto split: prod.splits if_splits)
    from Cons.IH [OF f(1)] show ?thesis using f(2) by auto
  qed
qed simp

definition backed_out :: "reset_env \<Rightarrow> reset_world \<Rightarrow> reset_end + 'a \<Rightarrow> reset_world \<Rightarrow> bool" where
  "backed_out env w0 x w' = (\<exists>d. x = Inl (AbortedUntouched d) \<and> same_disk w0 w'
     \<and> (\<forall>m. rw_up w0 m \<longrightarrow> rw_up w' m \<or> m \<in> set d \<or> stop_failed env m))"

definition stop_inv :: "reset_env \<Rightarrow> reset_world \<Rightarrow> string list \<Rightarrow> reset_world \<Rightarrow> bool" where
  "stop_inv env w0 stopped w = (same_disk w0 w \<and> (\<forall>m. rw_up w m \<longrightarrow> rw_up w0 m)
     \<and> (\<forall>m. rw_up w0 m \<and> \<not> rw_up w m \<longrightarrow> m \<in> set stopped) \<and> (\<forall>m\<in>set stopped. found (rs_find env Stopping m)))"

lemma abort_ensures:
  assumes "honest_stack env w0" "same_disk w0 w" "\<forall>m\<in>set stopped. found (rs_find env Stopping m)"
    "\<And>m. rw_up w0 m \<Longrightarrow> \<not> rw_up w m \<Longrightarrow> m \<in> set stopped \<or> stop_failed env m"
  shows "ensures (abortBeforeAnyWipe env stopped w) (backed_out env w0)"
proof -
  obtain d w' where r: "restartStoppedModules env stopped w = (d, w')" by fastforce
  note p = put_back [OF r]
  have "rw_up w' m \<or> m \<in> set d \<or> stop_failed env m" if "rw_up w0 m" for m
    using p assms(1,3) assms(4) [OF that] unfolding honest_stack_def by blast
  moreover have "same_disk w0 w'" using p assms(2) by (simp add: same_disk_def)
  ultimately show ?thesis by (auto simp: abortBeforeAnyWipe_def r backed_out_def)
qed

lemma stop_ensures:
  assumes "honest_stack env w0"
  shows "stop_inv env w0 stopped w \<Longrightarrow> ensures (stopResetModules env stopped ms w)
    (\<lambda>x w'. case x of Inl e \<Rightarrow> backed_out env w0 x w'
      | Inr st \<Rightarrow> stop_inv env w0 st w' \<and> (\<forall>m. rw_up w' m \<longrightarrow> rw_up w m \<and> m \<notin> set ms) \<and> set st \<subseteq> set stopped \<union> set ms)"
proof (induction ms arbitrary: stopped w)
  case Nil then show ?case by simp
next
  case (Cons m ms)
  let ?Q = "\<lambda>x w'. case x of Inl e \<Rightarrow> backed_out env w0 x w'
      | Inr st \<Rightarrow> stop_inv env w0 st w' \<and> (\<forall>m'. rw_up w' m' \<longrightarrow> rw_up w m' \<and> m' \<notin> set (m # ms)) \<and> set st \<subseteq> set stopped \<union> set (m # ms)"
  have abort: "ensures (abortBeforeAnyWipe env stopped w1) ?Q"
    if "w1 = w \<or> stop_failed env m \<and> (\<exists>b. w1 = set_up m (rw_up w m \<and> b) w)" for w1
  proof -
    have "ensures (abortBeforeAnyWipe env stopped w1) (backed_out env w0)"
      using Cons.prems that by (intro abort_ensures [OF assms]) (auto simp: stop_inv_def split: if_splits)
    then show ?thesis by (rule ensures_weaken) (auto simp: backed_out_def)
  qed
  have skip: "ensures (stopResetModules env stopped ms w) ?Q" if "\<not> rw_up w0 m"
    using Cons.IH [OF Cons.prems] by (rule ensures_weaken) (use that Cons.prems in \<open>auto simp: stop_inv_def split: sum.splits\<close>)
  consider "rs_find env Stopping m = None" | "missed (rs_find env Stopping m)" | "found (rs_find env Stopping m)"
    using lookup_cases(1) [of "rs_find env Stopping m"] by (elim disjE)
  then show ?case
  proof cases
    case 1 then show ?thesis using abort [of w] by simp
  next
    case 2 then show ?thesis using skip assms by (auto simp: honest_stack_def missed_def)
  next
    case 3
    then have code: "stopResetModules env stopped (m # ms) w = (case rs_stop env m of
          Stops \<Rightarrow> stopResetModules env (stopped @ [m]) ms (set_up m False w)
        | NoSuchContainer \<Rightarrow> stopResetModules env stopped ms w
        | StopFails still \<Rightarrow> abortBeforeAnyWipe env stopped (set_up m (rw_up w m \<and> still) w))"
      using lookup_cases(2) by (auto simp: found_ex)
    show ?thesis
    proof (cases "rs_stop env m")
      case Stops
      have "stop_inv env w0 (stopped @ [m]) (set_up m False w)" using Cons.prems 3 by (auto simp: stop_inv_def)
      from Cons.IH [OF this] show ?thesis unfolding code Stops stop_reply.case
        by (rule ensures_weaken) (auto split: sum.splits if_splits)
    next
      case NoSuchContainer
      then show ?thesis using skip assms unfolding code by (simp add: honest_stack_def)
    next
      case (StopFails b)
      then show ?thesis using abort [of "set_up m (rw_up w m \<and> b) w"] unfolding code by (auto simp: stop_failed_def)
    qed
  qed
qed

lemma wipe_all_ensures:
  "\<forall>s\<in>set ss. \<not> rw_up w (owner s) \<Longrightarrow> ensures (wipe_all env ss w) (\<lambda>x w'. rw_up w' = rw_up w \<and> rw_ledger w' = rw_ledger w
     \<and> (\<forall>s. s \<notin> set ss \<longrightarrow> rw_store w' s = rw_store w s)
     \<and> (\<exists>ws. rw_wipes w' = rw_wipes w @ ws \<and> (\<forall>(s, b)\<in>set ws. s \<in> set ss \<and> \<not> b))
     \<and> (case x of Inl e \<Rightarrow> e = AbortedPartly | Inr _ \<Rightarrow> \<forall>s\<in>set ss. rw_store w' s = Cleared))"
proof (induction ss arbitrary: w)
  case (Cons s ss)
  define w1 where "w1 = w\<lparr>rw_wipes := rw_wipes w @ [(s, False)], rw_store := (rw_store w)(s := Cleared)\<rparr>"
  have up: "\<not> rw_up w (owner s)" using Cons.prems by simp
  show ?case
  proof (cases "rs_wipe env s")
    case True
    have run: "wipe_all env (s # ss) w = wipe_all env ss w1"
      using True up by (simp add: wipe_def attempt_def w1_def)
    have down: "\<forall>s\<in>set ss. \<not> rw_up w1 (owner s)" using Cons.prems by (simp add: w1_def)
    obtain x w' where r: "wipe_all env ss w1 = (x, w')" by fastforce
    note ih = Cons.IH [OF down, unfolded r ensures_result]
    obtain ws where "rw_wipes w' = rw_wipes w1 @ ws" "\<forall>(s, b)\<in>set ws. s \<in> set ss \<and> \<not> b" using ih by blast
    then have "rw_wipes w' = rw_wipes w @ (s, False) # ws \<and> (\<forall>(t, b)\<in>set ((s, False) # ws). t \<in> set (s # ss) \<and> \<not> b)"
      by (auto simp: w1_def)
    moreover have "rw_store w' s = Cleared" if "x = Inr ()" using ih that by (cases "s \<in> set ss") (auto simp: w1_def)
    ultimately show ?thesis unfolding run r ensures_result using ih by (auto simp: w1_def split: sum.splits)
  next
    case False
    then have "wipe_all env (s # ss) w = (Inl AbortedPartly, w\<lparr>rw_wipes := rw_wipes w @ [(s, False)], rw_store := (rw_store w)(s := Partly)\<rparr>)"
      using up by (simp add: wipe_def attempt_def)
    then show ?thesis by simp
  qed
qed simp

lemma start_pass_facts:
  "start_pass env ms w = (fl, w') \<Longrightarrow> rw_store w' = rw_store w \<and> rw_wipes w' = rw_wipes w \<and> rw_ledger w' = rw_ledger w \<and> (\<forall>m. rw_up w m \<longrightarrow> rw_up w' m)
     \<and> (\<forall>m\<in>set ms. \<not> missed (rs_find env Starting m) \<longrightarrow> rw_up w' m \<or> m \<in> set fl)"
proof (induction ms arbitrary: w fl)
  case (Cons m ms)
  consider "missed (rs_find env Starting m)"
    | "\<not> missed (rs_find env Starting m)" "found (rs_find env Starting m) \<and> (rs_start env Starting 0 m \<or> rs_start env Starting 1 m)"
    | "\<not> missed (rs_find env Starting m)" "\<not> (found (rs_find env Starting m) \<and> (rs_start env Starting 0 m \<or> rs_start env Starting 1 m))" by blast
  then show ?case
  proof cases
    case 1 then show ?thesis using Cons by auto
  next
    case 2
    then have "start_pass env ms (set_up m True w) = (fl, w')" using Cons.prems by auto
    from Cons.IH [OF this] show ?thesis by (auto simp: set_up_def split: if_splits)
  next
    case 3
    obtain f where f: "start_pass env ms w = (f, w')" "fl = m # f"
      using Cons.prems 3 by (auto split: prod.splits if_splits)
    from Cons.IH [OF f(1)] show ?thesis using f(2) by auto
  qed
qed simp

lemma bounce_facts:
  "bounce env n m w = (ok, w') \<Longrightarrow> rw_store w' = rw_store w \<and> rw_wipes w' = rw_wipes w \<and> rw_ledger w' = rw_ledger w \<and> (\<forall>m'. m' \<noteq> m \<longrightarrow> rw_up w' m' = rw_up w m') \<and> (ok \<longrightarrow> rw_up w' m)"
  by (auto simp: bounce_def set_up_def split: if_splits stop_reply.splits)

lemma bounce_pass_facts:
  "bounce_pass env fl ms w = (fl', w') \<Longrightarrow> rw_store w' = rw_store w \<and> rw_wipes w' = rw_wipes w \<and> rw_ledger w' = rw_ledger w \<and> set fl \<subseteq> set fl'
     \<and> (\<forall>m. rw_up w m \<longrightarrow> rw_up w' m \<or> m \<in> set fl')"
proof (induction ms arbitrary: fl w)
  case (Cons m ms)
  obtain ok w1 ok2 w2 where b: "bounce env 0 m w = (ok, w1)" "bounce env 1 m w1 = (ok2, w2)" by fastforce
  note f = bounce_facts [OF b(1)] bounce_facts [OF b(2)]
  consider "bounce_pass env fl ms w = (fl', w')" | "bounce_pass env (fl @ [m]) ms w = (fl', w')"
    | "ok" "bounce_pass env fl ms w1 = (fl', w')" | "\<not> ok" "bounce_pass env (if ok2 then fl else fl @ [m]) ms w2 = (fl', w')"
    using Cons.prems b by (auto split: if_splits)
  then show ?case
  proof cases
    case 1 then show ?thesis by (rule Cons.IH)
  next
    case 2 then show ?thesis using Cons.IH by fastforce
  next
    case 3 show ?thesis using Cons.IH [OF 3(2)] f(1) 3(1) by metis
  next
    case 4
    have "set fl \<subseteq> set fl'" "\<not> ok2 \<longrightarrow> m \<in> set fl'" using Cons.IH [OF 4(2)] by (auto split: if_splits)
    then show ?thesis using Cons.IH [OF 4(2)] f by metis
  qed
qed simp

lemma restarted_reset_ensures:
  "ensures (restartResetModules env rq w) (\<lambda>x w'. rw_store w' = rw_store w \<and> rw_wipes w' = rw_wipes w \<and> rw_ledger w' = rw_ledger w
     \<and> (case x of Inl e \<Rightarrow> \<exists>e'. e = Threw e' \<and> (\<forall>fl. e' = RestartsFailed fl \<longrightarrow> (\<forall>m. rw_up w m \<or> m \<in> set (modulesToStop rq) \<and> \<not> missed (rs_find env Starting m)
          \<longrightarrow> rw_up w' m \<or> m \<in> set fl)) \<and> (e' = StatusThrew \<or> (\<exists>fl. e' = RestartsFailed fl))
        | Inr _ \<Rightarrow> \<forall>m. rw_up w m \<or> m \<in> set (modulesToStop rq) \<and> \<not> missed (rs_find env Starting m) \<longrightarrow> rw_up w' m))"
proof -
  obtain fl w1 where s: "start_pass env (modulesToStop rq) w = (fl, w1)" by fastforce
  obtain fl' w2 where b: "bounce_pass env fl (filter (\<lambda>m. m \<in> set (modulesToStop rq)) [XCHAIN_DECODER, XCHAIN_INDEXER]) w1 = (fl', w2)" by fastforce
  have "rw_up w2 m \<or> m \<in> set fl'" if "rw_up w m \<or> m \<in> set (modulesToStop rq) \<and> \<not> missed (rs_find env Starting m)" for m
    using that start_pass_facts [OF s] bounce_pass_facts [OF b] by blast
  moreover have "rw_store w2 = rw_store w \<and> rw_wipes w2 = rw_wipes w \<and> rw_ledger w2 = rw_ledger w"
    using start_pass_facts [OF s] bounce_pass_facts [OF b] by simp
  ultimately show ?thesis
    unfolding restartResetModules_def s prod.case Let_def bounceResetModules_def b by auto
qed

text \<open>The stores a request is to clear, as far as they are there.\<close>

fun must_clear :: "reset_env \<Rightarrow> reset_request \<Rightarrow> rstore \<Rightarrow> bool" where
  "must_clear env rq NodeData = (resetNode rq \<and> resolveNodeDataPath env (rq_coin rq) \<noteq> None)"
| "must_clear env rq RelocatedBlocks = (resetNode rq \<and> existing env (blocksHostPath env rq))"
| "must_clear env rq RelocatedTxindex = (resetNode rq \<and> existing env (txindexHostPath env rq))"
| "must_clear env rq TrackerVolume = (resetUtxoTracker rq \<and> (\<exists>out. rs_volume env = Inr out))"
| "must_clear env rq (Database m) = (m \<in> set (dbModulesFor rq))"

definition services_back :: "reset_world \<Rightarrow> reset_world \<Rightarrow> string list \<Rightarrow> bool" where
  "services_back w w' failed = (\<forall>m. rw_up w m \<longrightarrow> rw_up w' m \<or> m \<in> set failed)"

text \<open>
  What each end of a reset says about the stack, with \<open>w\<close> the world before: an abort that claims
  no data was touched, a wipe that failed, a check, an error, a completed reset.
\<close>

definition end_matches :: "reset_env \<Rightarrow> reset_request \<Rightarrow> reset_world \<Rightarrow> reset_end + unit \<Rightarrow> reset_world \<Rightarrow> bool" where
  "end_matches env rq w x w' = (case x of
     Inr _ \<Rightarrow> (\<forall>s. must_clear env rq s \<longrightarrow> rw_store w' s = Cleared) \<and> services_back w w' []
        \<and> rw_ledger w' = rw_ledger (recordResetReindex env rq w)
   | Inl end' \<Rightarrow> (case end' of
        AbortedUntouched down \<Rightarrow> same_disk w w' \<and> (\<forall>m. rw_up w m \<longrightarrow> rw_up w' m \<or> m \<in> set down \<or> stop_failed env m)
      | AbortedPartly \<Rightarrow> (\<forall>m\<in>set (modulesToStop rq). \<not> rw_up w' m) \<and> (\<forall>m. m \<notin> set (modulesToStop rq) \<longrightarrow> rw_up w' m = rw_up w m)
      | CheckPassed \<Rightarrow> w' = w
      | Threw e \<Rightarrow> w' = w \<or> (\<forall>s. must_clear env rq s \<longrightarrow> rw_store w' s = Cleared)
           \<and> (\<forall>fl. e = RestartsFailed fl \<longrightarrow> services_back w w' fl)))"

definition wipes_safe :: "reset_env \<Rightarrow> reset_request \<Rightarrow> reset_world \<Rightarrow> reset_world \<Rightarrow> bool" where
  "wipes_safe env rq w w' = (
     (\<forall>s. rw_store w' s \<noteq> rw_store w s \<longrightarrow> must_clear env rq s)
   \<and> (\<exists>ws. rw_wipes w' = rw_wipes w @ ws \<and> (\<forall>(s, b)\<in>set ws. must_clear env rq s \<and> \<not> b
        \<and> (s = Database XCHAIN_DECODER \<longrightarrow> resetIndexer rq \<or> missed (rs_find env Pairing XCHAIN_INDEXER)))))"

lemma untouched_ends [simp]: "ensures (untouched w) Q = Q (Inl (AbortedUntouched [])) w"
  by (simp add: untouched_def)

definition quiet_end :: "reset_end + 'a \<Rightarrow> bool" where
  "quiet_end x = (case x of Inr _ \<Rightarrow> True | Inl e \<Rightarrow> e = AbortedUntouched [] \<or> e = CheckPassed \<or> (\<exists>e'. e = Threw e'))"

lemma quiet_ends [simp]: "quiet_end (Inr y)" "quiet_end (Inl (AbortedUntouched []))" "quiet_end (Inl CheckPassed)" "quiet_end (Inl (Threw e))"
  by (simp_all add: quiet_end_def)

lemma refusals_ensure:
  "ensures (validateDecoderPair env rq w) (\<lambda>x w'. w' = w \<and> quiet_end x
     \<and> (x = Inr () \<longrightarrow> resetDecoder rq \<longrightarrow> resetIndexer rq \<or> missed (rs_find env Pairing XCHAIN_INDEXER)))"
  "ensures (resolveResetPaths env rq w) (\<lambda>x w'. w' = w \<and> quiet_end x
     \<and> (\<forall>p. x = Inr p \<longrightarrow> p = (if resetNode rq then resolveNodeDataPath env (rq_coin rq) else None)))"
  "ensures (confirmReset env rq w) (\<lambda>x w'. w' = w \<and> quiet_end x)"
  "ensures (checkResetDatabase env rq p w) (\<lambda>x w'. w' = w \<and> quiet_end x)"
  using lookup_cases(1) [of "rs_find env Pairing XCHAIN_INDEXER"]
  by (auto simp: validateDecoderPair_def resolveResetPaths_def confirmReset_def confirmDestructiveReset_def checkResetDatabase_def
      attempt_def untouched_def Let_def split: option.splits)

lemma quiet_matches: "quiet_end x \<Longrightarrow> x = Inl e \<Longrightarrow> end_matches env rq w (Inl e) w \<and> wipes_safe env rq w w"
  by (auto simp: quiet_end_def end_matches_def wipes_safe_def)

lemma wipes_safe_trans: "wipes_safe env rq w w1 \<Longrightarrow> wipes_safe env rq w1 w2 \<Longrightarrow> wipes_safe env rq w w2"
  unfolding wipes_safe_def by (elim conjE exE, intro conjI) (metis, rule exI [of _ "_ @ _"], auto)

lemma must_clear_owner: "must_clear env rq s \<Longrightarrow> owner s \<in> set (modulesToStop rq)"
  by (cases s) (auto simp: modulesToStop_def dbModulesFor_def split: if_splits)

definition wiping :: "reset_env \<Rightarrow> reset_request \<Rightarrow> rstore list \<Rightarrow> reset_world \<Rightarrow> reset_end + unit \<Rightarrow> reset_world \<Rightarrow> bool" where
  "wiping env rq ss w x w' = (rw_up w' = rw_up w \<and> rw_ledger w' = rw_ledger w \<and> wipes_safe env rq w w'
     \<and> (\<forall>s. rw_store w s = Cleared \<and> s \<notin> set ss \<longrightarrow> rw_store w' s = Cleared)
     \<and> (case x of Inl e \<Rightarrow> e = AbortedPartly | Inr _ \<Rightarrow> \<forall>s\<in>set ss. rw_store w' s = Cleared))"

lemma wipe_all_wiping:
  assumes "\<forall>s\<in>set ss. must_clear env rq s" "\<forall>m\<in>set (modulesToStop rq). \<not> rw_up w m"
    "resetDecoder rq \<longrightarrow> resetIndexer rq \<or> missed (rs_find env Pairing XCHAIN_INDEXER)"
  shows "ensures (wipe_all env ss w) (wiping env rq ss w)"
proof (rule ensures_weaken [OF wipe_all_ensures])
  show "\<forall>s\<in>set ss. \<not> rw_up w (owner s)" using assms(1,2) must_clear_owner by blast
  fix x :: "reset_end + unit" and w' :: reset_world
  assume f: "rw_up w' = rw_up w \<and> rw_ledger w' = rw_ledger w \<and> (\<forall>s. s \<notin> set ss \<longrightarrow> rw_store w' s = rw_store w s)
     \<and> (\<exists>ws. rw_wipes w' = rw_wipes w @ ws \<and> (\<forall>(s, b)\<in>set ws. s \<in> set ss \<and> \<not> b))
     \<and> (case x of Inl e \<Rightarrow> e = AbortedPartly | Inr _ \<Rightarrow> \<forall>s\<in>set ss. rw_store w' s = Cleared)"
  have dec: "resetDecoder rq" if "must_clear env rq (Database XCHAIN_DECODER)"
    using that by (auto simp: dbModulesFor_def module_name_defs split: if_splits)
  obtain ws where ws: "rw_wipes w' = rw_wipes w @ ws" "\<forall>(s, b)\<in>set ws. s \<in> set ss \<and> \<not> b" using f by blast
  have "\<forall>(s, b)\<in>set ws. must_clear env rq s \<and> \<not> b \<and> (s = Database XCHAIN_DECODER \<longrightarrow> resetIndexer rq \<or> missed (rs_find env Pairing XCHAIN_INDEXER))"
    using ws(2) assms(1,3) dec by blast
  moreover have "must_clear env rq s" if "rw_store w' s \<noteq> rw_store w s" for s
    using f that assms(1) by (cases "s \<in> set ss") simp_all
  ultimately have "wipes_safe env rq w w'" using ws(1) unfolding wipes_safe_def by blast
  then show "wiping env rq ss w x w'" using f by (simp add: wiping_def)
qed

lemma wiping_seq:
  assumes "ensures r (wiping env rq ss w)" "\<And>w1. rw_up w1 = rw_up w \<Longrightarrow> ensures (k w1) (wiping env rq ts w1)" "set ss \<inter> set ts = {}"
  shows "ensures (attempt r (\<lambda>_. k)) (wiping env rq (ss @ ts) w)"
proof (rule ensures_attempt [OF assms(1)], goal_cases)
  case (1 e w1)
  then show ?case using assms(3) by (auto simp: wiping_def)
next
  case (2 u w1)
  then have "ensures (k w1) (wiping env rq ts w1)" using assms(2) by (simp add: wiping_def)
  then show ?case
    by (rule ensures_weaken) (use 2 assms(3) in \<open>auto simp: wiping_def intro: wipes_safe_trans split: sum.splits\<close>)
qed

definition cleared_stores :: "reset_env \<Rightarrow> reset_request \<Rightarrow> rstore list" where
  "cleared_stores env rq =
     node_stores env rq (if resetNode rq then resolveNodeDataPath env (rq_coin rq) else None)
     @ (if must_clear env rq TrackerVolume then [TrackerVolume] else []) @ map Database (dbModulesFor rq)"

lemma cleared_stores_set: "s \<in> set (cleared_stores env rq) \<longleftrightarrow> must_clear env rq s"
  by (cases s) (auto simp: cleared_stores_def node_stores_def)

lemma wipe_stores_ensures:
  assumes "\<forall>m\<in>set (modulesToStop rq). \<not> rw_up w m"
    "resetDecoder rq \<longrightarrow> resetIndexer rq \<or> missed (rs_find env Pairing XCHAIN_INDEXER)"
    "p = (if resetNode rq then resolveNodeDataPath env (rq_coin rq) else None)" "resetUtxoTracker rq \<and> vp \<longleftrightarrow> must_clear env rq TrackerVolume"
  shows "ensures (wipeResetStores env rq p vp w) (wiping env rq (cleared_stores env rq) w)"
proof -
  let ?n = "node_stores env rq p" and ?t = "if resetUtxoTracker rq \<and> vp then [TrackerVolume] else []" and ?d = "map Database (dbModulesFor rq)"
  have sub: "\<forall>s\<in>set ?n. must_clear env rq s" "\<forall>s\<in>set ?t. must_clear env rq s" "\<forall>s\<in>set ?d. must_clear env rq s"
    using assms(3,4) by (auto simp: node_stores_def)
  have dis: "set ?n \<inter> set (?t @ ?d) = {}" "set ?t \<inter> set ?d = {}" by (auto simp: node_stores_def split: if_splits)
  have d: "ensures (if dbModulesFor rq = [] then (Inr (), w1) else resetDatabases env (dbModulesFor rq) w1) (wiping env rq ?d w1)"
    if "rw_up w1 = rw_up w" for w1
    using wipe_all_wiping [OF sub(3) _ assms(2), of w1] assms(1) that
    by (auto simp: resetDatabases_def wiping_def wipes_safe_def)
  have t: "ensures (attempt (wipe_all env ?t w1) (\<lambda>_ w. if dbModulesFor rq = [] then (Inr (), w) else resetDatabases env (dbModulesFor rq) w))
      (wiping env rq (?t @ ?d) w1)" if "rw_up w1 = rw_up w" for w1
    by (rule wiping_seq [OF wipe_all_wiping [OF sub(2) _ assms(2)]]) (use that assms(1) d dis(2) in auto)
  have "ensures (attempt (wipe_all env ?n w) (\<lambda>_ w. attempt (wipe_all env ?t w) (\<lambda>_ w. if dbModulesFor rq = [] then (Inr (), w) else resetDatabases env (dbModulesFor rq) w)))
      (wiping env rq (?n @ ?t @ ?d) w)"
    by (rule wiping_seq [OF wipe_all_wiping [OF sub(1) _ assms(2)] t dis(1)]) (use assms(1) in auto)
  moreover have "?n @ ?t @ ?d = cleared_stores env rq" using assms(3,4) by (simp add: cleared_stores_def)
  ultimately show ?thesis unfolding wipeResetStores_def by simp
qed

lemma classify_ensures:
  assumes "honest_stack env w0" "stop_inv env w0 st w"
  shows "ensures (classifyResetVolume env rq st w) (\<lambda>x w'. case x of
      Inl e \<Rightarrow> backed_out env w0 x w'
    | Inr vp \<Rightarrow> w' = w \<and> (resetUtxoTracker rq \<and> vp \<longleftrightarrow> must_clear env rq TrackerVolume))"
proof -
  have "ensures (abortBeforeAnyWipe env st w) (backed_out env w0)"
    using assms(2) by (intro abort_ensures [OF assms(1)]) (auto simp: stop_inv_def)
  then have a: "ensures (abortBeforeAnyWipe env st w) (\<lambda>x w'. case x of Inl e \<Rightarrow> backed_out env w0 x w'
     | Inr vp \<Rightarrow> w' = w \<and> (resetUtxoTracker rq \<and> vp \<longleftrightarrow> must_clear env rq TrackerVolume))"
    by (rule ensures_weaken) (auto simp: backed_out_def)
  show ?thesis
  proof (cases "resetUtxoTracker rq \<and> (\<exists>text. rs_volume env = Inl text \<and> \<not> no_such_volume text)")
    case True then show ?thesis using a by (auto simp: classifyResetVolume_def)
  next
    case False then show ?thesis by (auto simp: classifyResetVolume_def split: sum.splits)
  qed
qed

lemma backed_out_matches:
  assumes "backed_out env w (Inl e) w'"
  shows "end_matches env rq w (Inl e) w' \<and> wipes_safe env rq w w'"
  using assms by (auto simp: backed_out_def end_matches_def wipes_safe_def same_disk_def)

lemma metadata_facts:
  "rw_up (recordResetReindex env rq (cleanResetMetadata env rq w)) = rw_up w"
  "rw_store (recordResetReindex env rq (cleanResetMetadata env rq w)) = rw_store w"
  "rw_wipes (recordResetReindex env rq (cleanResetMetadata env rq w)) = rw_wipes w"
  "rw_ledger w1 = rw_ledger w \<Longrightarrow> rw_ledger (recordResetReindex env rq (cleanResetMetadata env rq w1)) = rw_ledger (recordResetReindex env rq w)"
  by (simp_all add: recordResetReindex_def cleanResetMetadata_def Let_def)

lemma after_stop_ensures:
  assumes honest: "honest_stack env w0" and st: "stop_inv env w0 st w" "set st \<subseteq> set (modulesToStop rq)"
    and down: "\<forall>m\<in>set (modulesToStop rq). \<not> rw_up w m"
    and dec: "resetDecoder rq \<longrightarrow> resetIndexer rq \<or> missed (rs_find env Pairing XCHAIN_INDEXER)"
    and p: "p = (if resetNode rq then resolveNodeDataPath env (rq_coin rq) else None)"
  shows "ensures (attempt (classifyResetVolume env rq st w) (\<lambda>volumePresent w.
      attempt (wipeResetStores env rq p volumePresent w) (\<lambda>_ w.
      restartResetModules env rq (recordResetReindex env rq (cleanResetMetadata env rq w)))))
    (\<lambda>x w'. end_matches env rq w0 x w' \<and> wipes_safe env rq w0 w')"
proof (rule ensures_attempt [OF classify_ensures [OF honest st(1)]], goal_cases)
  case (1 e w1) then show ?case using backed_out_matches [of env w0 e w1 rq] by (simp add: backed_out_def)
next
  case (2 vp w1)
  then have w1: "w1 = w" and vp: "resetUtxoTracker rq \<and> vp \<longleftrightarrow> must_clear env rq TrackerVolume" by simp_all
  have disk: "same_disk w0 w" using st(1) by (simp add: stop_inv_def)
  have safe0: "wipes_safe env rq w0 w2" if "wipes_safe env rq w w2" for w2
    using that disk by (simp add: wipes_safe_def same_disk_def)
  show ?case unfolding w1
  proof (rule ensures_attempt [OF wipe_stores_ensures [OF down dec p vp]], goal_cases)
    case (1 e w2)
    have others: "rw_up w m = rw_up w0 m" if "m \<notin> set (modulesToStop rq)" for m
      using st that unfolding stop_inv_def by blast
    show ?case using 1 safe0 down others by (simp add: wiping_def end_matches_def)
  next
    case (2 u w2)
    have s: "\<forall>s. must_clear env rq s \<longrightarrow> rw_store w2 s = Cleared" "wipes_safe env rq w0 w2"
      using 2 safe0 cleared_stores_set by (auto simp: wiping_def)
    have ledg: "rw_ledger w2 = rw_ledger w0" using 2 disk by (simp add: wiping_def same_disk_def)
    have kept: "rw_up w2 m \<or> m \<in> set (modulesToStop rq) \<and> \<not> missed (rs_find env Starting m)" if "rw_up w0 m" for m
    proof -
      have "rw_up w2 = rw_up w" using 2 by (simp add: wiping_def)
      moreover have "rw_up w m \<or> m \<in> set st" using that st(1) unfolding stop_inv_def by blast
      moreover have "\<not> missed (rs_find env Starting m)" if "m \<in> set st"
        using that st(1) honest unfolding stop_inv_def honest_stack_def by blast
      ultimately show ?thesis using st(2) by auto
    qed
    show ?case
    proof (rule ensures_weaken [OF restarted_reset_ensures], goal_cases)
      case (1 x w3)
      then have eq: "rw_store w3 = rw_store w2" "rw_wipes w3 = rw_wipes w2" "rw_ledger w3 = rw_ledger (recordResetReindex env rq w0)"
        using metadata_facts(4) [OF ledg] by (simp_all add: metadata_facts(1-3))
      have "wipes_safe env rq w0 w3" using s(2) eq by (simp add: wipes_safe_def)
      moreover have "rw_up w3 m \<or> m \<in> set fl" if "rw_up w0 m" "x = Inl (Threw (RestartsFailed fl))" for m fl
        using 1 kept [OF that(1)] that(2) by (auto simp: metadata_facts(1))
      moreover have "rw_up w3 m" if "rw_up w0 m" "x = Inr ()" for m
        using 1 kept [OF that(1)] that(2) by (auto simp: metadata_facts(1))
      ultimately show ?case using 1 eq s(1)
        by (cases x) (auto simp: end_matches_def services_back_def)
    qed
  qed
qed

lemma reset_ensures:
  assumes "honest_stack env w"
  shows "ensures (resetModules env rq w) (\<lambda>x w'. end_matches env rq w x w' \<and> wipes_safe env rq w w')" (is "ensures _ ?Q")
proof -
  have quiet: "?Q (Inl e) w" if "quiet_end (Inl e :: reset_end + 'z)" for e
    using that quiet_matches [of "Inl e :: reset_end + 'z" e env rq w] by simp
  have "ensures (
      attempt (validateDecoderPair env rq w) (\<lambda>_ w.
      attempt (resolveResetPaths env rq w) (\<lambda>nodeDataPath w.
      attempt (confirmReset env rq w) (\<lambda>_ w.
      attempt (checkResetDatabase env rq nodeDataPath w) (\<lambda>_ w.
      attempt (stopResetModules env [] (modulesToStop rq) w) (\<lambda>stopped w.
      attempt (classifyResetVolume env rq stopped w) (\<lambda>volumePresent w.
      attempt (wipeResetStores env rq nodeDataPath volumePresent w) (\<lambda>_ w.
      restartResetModules env rq (recordResetReindex env rq (cleanResetMetadata env rq w)))))))))) ?Q"
  proof (rule ensures_attempt [OF refusals_ensure(1)], goal_cases)
    case 1 then show ?case using quiet by auto
  next
    case (2 u1 w1)
    then have dec: "resetDecoder rq \<longrightarrow> resetIndexer rq \<or> missed (rs_find env Pairing XCHAIN_INDEXER)" and w1: "w1 = w" by simp_all
    show ?case unfolding w1
    proof (rule ensures_attempt [OF refusals_ensure(2)], goal_cases)
      case 1 then show ?case using quiet by auto
    next
      case (2 p w2)
      then have p: "p = (if resetNode rq then resolveNodeDataPath env (rq_coin rq) else None)" and w2: "w2 = w" by simp_all
      show ?case unfolding w2
      proof (rule ensures_attempt [OF refusals_ensure(3)], goal_cases)
        case 1 then show ?case using quiet by auto
      next
        case (2 u3 w3)
        then have w3: "w3 = w" by simp
        show ?case unfolding w3
        proof (rule ensures_attempt [OF refusals_ensure(4)], goal_cases)
          case 1 then show ?case using quiet by auto
        next
          case (2 u4 w4)
          then have w4: "w4 = w" by simp
          have inv: "stop_inv env w [] w" by (simp add: stop_inv_def)
          show ?case unfolding w4
          proof (rule ensures_attempt [OF stop_ensures [OF assms inv]], goal_cases)
            case (1 e w5) then show ?case using backed_out_matches [of env w e w5 rq] by (simp add: backed_out_def)
          next
            case (2 st w5) then show ?case by (intro after_stop_ensures [OF assms _ _ _ dec p]) auto
          qed
        qed
      qed
    qed
  qed
  then show ?thesis using quiet [of "Threw UnknownArgument"] quiet [of "AbortedUntouched []"]
    by (auto simp: resetModules_def)
qed


text \<open>
  C21. Whatever fails, a reset ends as it reports: after an abort with "No data was touched" every
  store and the ledger are as they were and each service that ran runs, is named still down or is
  one whose stop itself failed; after a partial wipe the services of the request stay down; after a
  completed reset every store it is for is cleared, the reindex is recorded and every service is
  back, and one that is not is named. No store outside the request is changed, none is wiped while
  the service that writes it runs, and the decoder's database is dropped only along with the
  indexer's or when no indexer is installed.\<close>

theorem reset_ends_as_reported:
  assumes "honest_stack env w"
    and "resetModules env rq w = (x, w')"
  shows "end_matches env rq w x w' \<and> wipes_safe env rq w w'"
  using reset_ensures [OF assms(1), of rq] assms(2) by simp

definition demo_reset_env :: reset_env where
  "demo_reset_env = \<lparr>rs_external = False,
     rs_find = (\<lambda>_ m. if m = XCHAIN_DECODER \<or> m = XCHAIN_INDEXER then Some (Some ''c1'') else Some None),
     rs_node_row = Some None, rs_mounts = [], rs_configured = ''/d'', rs_exists = (\<lambda>_. False), rs_blocks_dir = None,
     rs_tty = True, rs_answer = ''yes'', rs_named_target = True, rs_ping = True, rs_db_container_id = Some ''db'',
     rs_root_password = True, rs_image = True, rs_pull = False, rs_stop = (\<lambda>_. Stops),
     rs_start = (\<lambda>_ n _. n = 1), rs_bounce_stop = (\<lambda>_ _. Stops), rs_volume = Inr '''', rs_wipe = (\<lambda>_. True),
     rs_drop_targets = True, rs_fence = True, rs_purge = True, rs_ledger_write = False, rs_now = 0, rs_status = True\<rparr>"

definition demo_reset_request :: reset_request where
  "demo_reset_request = \<lparr>rq_service = XCHAIN_DECODER, rq_coin = ''bitcoin'', rq_network = ''regtest'', rq_force = False,
     rq_with_indexer = True, rq_db_container = None, rq_check = False\<rparr>"

definition demo_reset_world :: reset_world where
  "demo_reset_world = \<lparr>rw_up = (\<lambda>m. m = XCHAIN_DECODER \<or> m = XCHAIN_INDEXER), rw_store = (\<lambda>_. Intact), rw_wipes = [],
     rw_ledger = None, rw_fence_cleared = False, rw_hub_purged = False\<rparr>"

lemma demo_reset_honest: "honest_stack demo_reset_env demo_reset_world"
  by (auto simp: honest_stack_def demo_reset_env_def demo_reset_world_def missed_def found_def truthy_text_def split: option.splits if_splits)

lemma demo_reset_run:
  "fst (resetModules demo_reset_env demo_reset_request demo_reset_world) = Inr ()
   \<and> map fst (rw_wipes (snd (resetModules demo_reset_env demo_reset_request demo_reset_world))) = [Database XCHAIN_DECODER, Database XCHAIN_INDEXER]"
  by code_simp

lemma reset_ends_as_reported_witness:
  "\<exists>w'. resetModules demo_reset_env demo_reset_request demo_reset_world = (Inr (), w')
     \<and> end_matches demo_reset_env demo_reset_request demo_reset_world (Inr ()) w'
     \<and> wipes_safe demo_reset_env demo_reset_request demo_reset_world w'"
  using reset_ends_as_reported [OF demo_reset_honest, of demo_reset_request "Inr ()"
      "snd (resetModules demo_reset_env demo_reset_request demo_reset_world)"] demo_reset_run
  by (simp add: prod_eq_iff)

end
