(* ===== verification/Releases.thy ===== *)
theory Releases
  imports JsEffects Coins ArchiveSigning TipGuard
begin

text \<open>
  What an install checks out: \<open>services/release_manifest_service.js\<close>,
  \<open>services/release_signature_service.js\<close> and its directory, the downgrade guard of
  \<open>services/self_update_service.js\<close>, and the clone with its commit check from
  \<open>services/module_service/clone_and_refs.js\<close>, \<open>git_checkout.js\<close> and \<open>checkoutModule\<close> of
  \<open>services/module_service.js\<close>. The answers of GitHub, gpg and git, the hash and the settings
  are the fields of an environment record.
\<close>

section \<open>Refs and versions\<close>

definition digits_rest :: "string \<Rightarrow> string option" where
  "digits_rest s = (if takeWhile is_digit s = [] then None else Some (dropWhile is_digit s))"

definition dot_rest :: "string \<Rightarrow> string option" where
  "dot_rest s = (case s of c # cs \<Rightarrow> if c = CHR ''.'' then Some cs else None | [] \<Rightarrow> None)"

definition is_alpha :: "char \<Rightarrow> bool" where
  "is_alpha c = (let n = char_code c in 65 \<le> n \<and> n \<le> 90 \<or> 97 \<le> n \<and> n \<le> 122)"

definition suffix_char :: "char \<Rightarrow> bool" where
  "suffix_char c = (is_digit c \<or> is_alpha c \<or> c = CHR ''.'' \<or> c = CHR ''-'')"

definition release_suffix :: "string \<Rightarrow> bool" where
  "release_suffix s = (case s of [] \<Rightarrow> True
     | c # cs \<Rightarrow> (c = CHR ''-'' \<or> c = CHR ''+'') \<and> cs \<noteq> [] \<and> list_all suffix_char cs)"

text \<open>\<open>RELEASE_REF\<close>: \<open>vMAJOR.MINOR.PATCH\<close> and an optional suffix; a digit run is never
  followed by a digit, so the greedy match is the only one.\<close>

definition release_ref :: "string \<Rightarrow> bool" where
  "release_ref s = (case s of [] \<Rightarrow> False
     | c # r \<Rightarrow> c = CHR ''v'' \<and> (case Option.bind (Option.bind (Option.bind (Option.bind (digits_rest r) dot_rest) digits_rest) dot_rest) digits_rest of
          None \<Rightarrow> False | Some e \<Rightarrow> release_suffix e))"

definition isReleaseRef :: "string option \<Rightarrow> bool" where
  "isReleaseRef ref = (case ref of None \<Rightarrow> False | Some s \<Rightarrow> release_ref (trim s))"

text \<open>Majors are exact below \<open>2 ^ 53\<close>.\<close>

definition drop_v :: "string \<Rightarrow> string" where
  "drop_v s = (case s of c # r \<Rightarrow> if c = CHR ''v'' then r else s | [] \<Rightarrow> [])"

definition versionMajor :: "string \<Rightarrow> nat option" where
  "versionMajor version =
     (let s = drop_v (trim version); ds = takeWhile is_digit s; r = dropWhile is_digit s
      in if ds \<noteq> [] \<and> (r = [] \<or> hd r = CHR ''.'') then Some (decimal_nat ds) else None)"

definition setting_in :: "string list \<Rightarrow> string \<Rightarrow> bool" where
  "setting_in vs v = (to_lower v \<in> set vs)"

datatype release_error =
    MajorDowngrade
  | ReleaseIntegrity
  | RateLimited
  | NoManifest
  | EmptyManifest
  | BadJson
  | FetchFailed
  | NoLatest
  | NothingPublished
  | MalformedPin
  | NoUrl
  | BadBranch
  | CloneFailed
  | CommitUnreadable
  | CommitMismatch
  | StaleSource
  | DirExists
  | SwapFailed
  | BranchUnreadable

definition assertMajorDowngradeAllowed :: "string \<Rightarrow> string \<Rightarrow> bool \<Rightarrow> release_error + unit" where
  "assertMajorDowngradeAllowed installedVersion targetVersion allowed =
     (case (versionMajor installedVersion, versionMajor targetVersion) of
        (Some i, Some t) \<Rightarrow> if allowed \<or> i \<le> t then Inr () else Inl MajorDowngrade
      | _ \<Rightarrow> Inr ())"

section \<open>The environment\<close>

datatype import_reply = Imported | ImportFails
datatype 'a reply = Reply 'a | NotFound | Limited | Fails
datatype asset_get = Direct string | Redirect "string option" | GetLimited | GetFails

text \<open>\<open>re_manifest\<close> gives the decoded bytes of the file at a tag, \<open>None\<close> for an answer without
  content; \<open>re_gpg_verify\<close> the status text of \<open>gpg --verify\<close>, \<open>None\<close> when gpg exits non-zero.\<close>

record release_env =
  re_require_signed :: string
  re_allow_downgrade :: string
  re_version :: string
  re_local_manifest :: "string option"
  re_manifest :: "string \<Rightarrow> string option reply"
  re_release :: "string \<Rightarrow> (string \<times> string) list reply"
  re_get :: "string \<Rightarrow> asset_get"
  re_follow :: "string \<Rightarrow> string option"
  re_latest :: "string option reply"
  re_key_exists :: bool
  re_gpg_import :: import_reply
  re_gpg_verify :: "string \<Rightarrow> string \<Rightarrow> string option"
  re_sha256 :: "string \<Rightarrow> string"

section \<open>The digest file\<close>

definition PLATFORM_KEY_FINGERPRINT :: string where
  "PLATFORM_KEY_FINGERPRINT = ''1DA7C4896F56EA22CF491EDF4361611A82F90B70''"

definition SUMS_ASSET :: string where "SUMS_ASSET = ''SHA256SUMS''"
definition SIG_ASSET :: string where "SIG_ASSET = ''SHA256SUMS.asc''"
definition MANIFEST_ASSET :: string where "MANIFEST_ASSET = ''release-manifest.json''"

definition drop_cr :: "string \<Rightarrow> string" where
  "drop_cr l = (if l \<noteq> [] \<and> last l = CHR 0x0D then butlast l else l)"

text \<open>One line \<open><64 hex><space><space or star><name>\<close>; a dot of the pattern takes no CR.\<close>

definition sums_line :: "string \<Rightarrow> (string \<times> string) option" where
  "sums_line l =
     (let h = take 64 l; r = drop 64 l in
      if length h = 64 \<and> list_all is_hex h \<and> 2 < length r \<and> hd r = CHR '' '' \<and> r ! 1 \<in> {CHR '' '', CHR ''*''} \<and> CHR 0x0D \<notin> set (drop 2 r)
      then Some (trim (drop 2 r), to_lower h) else None)"

fun sums_entries :: "string list \<Rightarrow> (string \<times> string) list \<Rightarrow> release_error + (string \<times> string) list" where
  "sums_entries [] entries = Inr entries"
| "sums_entries (raw # ls) entries =
     (if trim (drop_cr raw) = [] then sums_entries ls entries
      else case sums_line (drop_cr raw) of
          None \<Rightarrow> Inl ReleaseIntegrity
        | Some (name, d) \<Rightarrow> if name \<in> fst ` set entries then Inl ReleaseIntegrity else sums_entries ls (entries @ [(name, d)]))"

definition parseSha256sums :: "string \<Rightarrow> release_error + (string \<times> string) list" where
  "parseSha256sums text = (case sums_entries (split_on (CHR 0x0A) text) [] of
     Inl e \<Rightarrow> Inl e | Inr es \<Rightarrow> if es = [] then Inl ReleaseIntegrity else Inr es)"

definition assertDigestMatches :: "release_env \<Rightarrow> string \<Rightarrow> string \<Rightarrow> string \<Rightarrow> release_error + unit" where
  "assertDigestMatches env sumsText bytes name = (case parseSha256sums sumsText of
     Inl e \<Rightarrow> Inl e
   | Inr entries \<Rightarrow> (case map_of entries name of
       None \<Rightarrow> Inl ReleaseIntegrity
     | Some expected \<Rightarrow> if re_sha256 env bytes = expected then Inr () else Inl ReleaseIntegrity))"

section \<open>The signature\<close>

definition upper_text :: "string \<Rightarrow> string" where
  "upper_text s = map upper_char s"

definition normalizeFingerprint :: "string option \<Rightarrow> string" where
  "normalizeFingerprint v = upper_text (filter (\<lambda>c. \<not> is_ws c) (case v of None \<Rightarrow> [] | Some s \<Rightarrow> s))"

definition validateFingerprint :: "string \<Rightarrow> release_error + string" where
  "validateFingerprint fingerprint =
     (let e = normalizeFingerprint (Some fingerprint)
      in if length e = 40 \<and> list_all upper_hex_digit e then Inr e else Inl ReleaseIntegrity)"

definition GNUPG :: string where "GNUPG = ''[GNUPG:] ''"

definition status_flag :: "string list \<Rightarrow> string \<Rightarrow> bool" where
  "status_flag ls name = list_ex (\<lambda>l. prefix (GNUPG @ name) l) ls"

text \<open>\<open>s.split(/\s+/)\<close>: leading white space gives an empty first field.\<close>

definition ws_split :: "string \<Rightarrow> string list" where
  "ws_split s = (if s \<noteq> [] \<and> is_ws (hd s) then [] # tokens s else tokens s)"

definition validsig_fields :: "string list \<Rightarrow> string list option" where
  "validsig_fields ls = map_option (\<lambda>l. ws_split (drop (length (GNUPG @ ''VALIDSIG '')) l)) (find (prefix (GNUPG @ ''VALIDSIG '')) ls)"

definition status_lines :: "string \<Rightarrow> string list" where
  "status_lines status = map trim (split_on (CHR 0x0A) status)"

definition assertStatusIsGood :: "string \<Rightarrow> string \<Rightarrow> release_error + unit" where
  "assertStatusIsGood status expected =
     (let ls = status_lines status in
      if status_flag ls ''REVKEYSIG'' \<or> status_flag ls ''EXPKEYSIG'' then Inl ReleaseIntegrity
      else if status_flag ls ''BADSIG'' \<or> \<not> status_flag ls ''GOODSIG'' then Inl ReleaseIntegrity
      else case validsig_fields ls of
          None \<Rightarrow> Inl ReleaseIntegrity
        | Some fs \<Rightarrow> if normalizeFingerprint (nth_field fs 0) \<noteq> expected \<and> normalizeFingerprint (nth_field fs 9) \<noteq> expected
                     then Inl ReleaseIntegrity else Inr ())"

definition verifyDetachedSignature :: "release_env \<Rightarrow> string \<Rightarrow> string \<Rightarrow> string \<Rightarrow> release_error + string" where
  "verifyDetachedSignature env data signature fingerprint = (case validateFingerprint fingerprint of
     Inl e \<Rightarrow> Inl e
   | Inr expected \<Rightarrow>
       if \<not> re_key_exists env then Inl ReleaseIntegrity
       else if re_gpg_import env = ImportFails then Inl ReleaseIntegrity
       else case re_gpg_verify env data signature of
           None \<Rightarrow> Inl ReleaseIntegrity
         | Some status \<Rightarrow> (case assertStatusIsGood status expected of Inl e \<Rightarrow> Inl e | Inr _ \<Rightarrow> Inr expected))"

definition signatureCheckDisabled :: "release_env \<Rightarrow> bool" where
  "signatureCheckDisabled env = setting_in [''0'', ''false'', ''no''] (re_require_signed env)"

section \<open>Fetching\<close>

text \<open>A redirect is followed by hand; \<open>None\<close> is a release without the asset.\<close>

definition fetchReleaseAsset :: "release_env \<Rightarrow> string \<Rightarrow> string \<Rightarrow> release_error + string option" where
  "fetchReleaseAsset env tag assetName = (case re_release env tag of
     NotFound \<Rightarrow> Inr None
   | Limited \<Rightarrow> Inl RateLimited
   | Fails \<Rightarrow> Inl FetchFailed
   | Reply assets \<Rightarrow> (case find (\<lambda>a. fst a = assetName) assets of
       None \<Rightarrow> Inr None
     | Some (_, url) \<Rightarrow>
         if url = [] then Inr None
         else (case re_get env url of
             GetLimited \<Rightarrow> Inl RateLimited
           | GetFails \<Rightarrow> Inl FetchFailed
           | Direct bytes \<Rightarrow> Inr (Some bytes)
           | Redirect l \<Rightarrow> (case truthy_text l of
               None \<Rightarrow> Inl FetchFailed
             | Some location \<Rightarrow> (case re_follow env location of None \<Rightarrow> Inl FetchFailed | Some bytes \<Rightarrow> Inr (Some bytes))))))"

definition refuse :: "release_env \<Rightarrow> release_error + bool" where
  "refuse env = (if signatureCheckDisabled env then Inr False else Inl ReleaseIntegrity)"

text \<open>Both fetches run; the value tells whether the manifest was verified.\<close>

definition verifyManifestForTag :: "release_env \<Rightarrow> string \<Rightarrow> string \<Rightarrow> release_error + bool" where
  "verifyManifestForTag env tag manifestBytes =
     (case (fetchReleaseAsset env tag SUMS_ASSET, fetchReleaseAsset env tag SIG_ASSET) of
        (Inr (Some body), Inr (Some sig)) \<Rightarrow>
          (case verifyDetachedSignature env body sig PLATFORM_KEY_FINGERPRINT of
             Inl e \<Rightarrow> if signatureCheckDisabled env then refuse env else Inl e
           | Inr _ \<Rightarrow> (case assertDigestMatches env body manifestBytes MANIFEST_ASSET of
               Inl e \<Rightarrow> if signatureCheckDisabled env then refuse env else Inl e
             | Inr _ \<Rightarrow> Inr True))
      | _ \<Rightarrow> refuse env)"

definition readLocalManifest :: "release_env \<Rightarrow> json option" where
  "readLocalManifest env = Option.bind (re_local_manifest env) json_parse"

definition local_manifest_for :: "release_env \<Rightarrow> string \<Rightarrow> json option" where
  "local_manifest_for env tag = (case readLocalManifest env of
     None \<Rightarrow> None
   | Some m \<Rightarrow> if truthy_opt (field m ''platform_version'') \<and> CHR ''v'' # js_String (the (field m ''platform_version'')) = tag then Some m else None)"

definition fetchManifestAtTag :: "release_env \<Rightarrow> string \<Rightarrow> release_error + json" where
  "fetchManifestAtTag env tag = (case local_manifest_for env tag of
     Some m \<Rightarrow> Inr m
   | None \<Rightarrow> (case re_manifest env tag of
       NotFound \<Rightarrow> Inl NoManifest
     | Limited \<Rightarrow> Inl RateLimited
     | Fails \<Rightarrow> Inl FetchFailed
     | Reply None \<Rightarrow> Inl EmptyManifest
     | Reply (Some bytes) \<Rightarrow> (case verifyManifestForTag env tag bytes of
         Inl e \<Rightarrow> Inl e
       | Inr _ \<Rightarrow> (case json_parse bytes of None \<Rightarrow> Inl BadJson | Some m \<Rightarrow> Inr m))))"

definition resolveLatestReleaseTag :: "release_env \<Rightarrow> release_error + string option" where
  "resolveLatestReleaseTag env = (case re_latest env of
     NotFound \<Rightarrow> Inr None | Limited \<Rightarrow> Inl RateLimited | Fails \<Rightarrow> Inl FetchFailed | Reply t \<Rightarrow> Inr (truthy_text t))"

section \<open>The install target and its pins\<close>

datatype install_target = ReleaseTarget string json | BranchTarget string

definition release_target :: "release_env \<Rightarrow> string \<Rightarrow> release_error + install_target" where
  "release_target env tag = (case assertMajorDowngradeAllowed (re_version env) tag (setting_in [''1'', ''true'', ''yes''] (re_allow_downgrade env)) of
     Inl e \<Rightarrow> Inl e
   | Inr _ \<Rightarrow> (case fetchManifestAtTag env tag of Inl e \<Rightarrow> Inl e | Inr m \<Rightarrow> Inr (ReleaseTarget tag m)))"

definition resolveInstallTarget :: "release_env \<Rightarrow> string \<Rightarrow> bool \<Rightarrow> string option \<Rightarrow> release_error + install_target" where
  "resolveInstallTarget env defaultBranch fallbackToBranch ref =
     (if isReleaseRef ref then release_target env (trim (the ref))
      else case truthy_text ref of
          Some b \<Rightarrow> Inr (BranchTarget b)
        | None \<Rightarrow> (case resolveLatestReleaseTag env of
            Inl _ \<Rightarrow> Inl NoLatest
          | Inr None \<Rightarrow> if fallbackToBranch then Inr (BranchTarget defaultBranch) else Inl NothingPublished
          | Inr (Some tag) \<Rightarrow> release_target env tag))"

definition manifestHasPins :: "json \<Rightarrow> bool" where
  "manifestHasPins manifest = (case field manifest ''components'' of
     Some (JObj fs) \<Rightarrow> fs \<noteq> [] | Some (JArr vs) \<Rightarrow> vs \<noteq> [] | Some (JStr s) \<Rightarrow> s \<noteq> [] | _ \<Rightarrow> False)"

definition lower_hex :: "char \<Rightarrow> bool" where
  "lower_hex c = (is_digit c \<or> 97 \<le> char_code c \<and> char_code c \<le> 102)"

definition commit_sha :: "string \<Rightarrow> bool" where
  "commit_sha s = (length s = 40 \<and> list_all lower_hex s)"

text \<open>The pin's tag, if any, and its commit; \<open>None\<close> when the manifest does not carry the component.
  A tag is a string, as the release scripts write it.\<close>

definition getComponentPin :: "json \<Rightarrow> string \<Rightarrow> release_error + (string option \<times> string) option" where
  "getComponentPin manifest component =
     (if \<not> manifestHasPins manifest then Inr None
      else let pin = Option.bind (field manifest ''components'') (\<lambda>c. field c component) in
        if \<not> truthy_opt pin then Inr None
        else let commit = field (the pin) ''commit''; tag = field (the pin) ''tag'' in
          if \<not> truthy_opt commit \<or> \<not> commit_sha (js_String (the commit)) then Inl MalformedPin
          else Inr (Some (case tag of Some (JStr t) \<Rightarrow> truthy_text (Some t) | _ \<Rightarrow> None, js_String (the commit))))"

record component_ref =
  cr_ref :: "string option"
  cr_commit :: "string option"
  cr_pinned :: bool

definition resolveComponentRef :: "install_target option \<Rightarrow> string \<Rightarrow> string option \<Rightarrow> release_error + component_ref" where
  "resolveComponentRef active component fallbackRef =
     (let free = \<lparr>cr_ref = fallbackRef, cr_commit = None, cr_pinned = False\<rparr> in
      case active of
        Some (ReleaseTarget _ manifest) \<Rightarrow> (case getComponentPin manifest component of
            Inl e \<Rightarrow> Inl e
          | Inr None \<Rightarrow> Inr free
          | Inr (Some (tag, commit)) \<Rightarrow> Inr \<lparr>cr_ref = Some (case tag of None \<Rightarrow> commit | Some t \<Rightarrow> t), cr_commit = Some commit, cr_pinned = True\<rparr>)
      | _ \<Rightarrow> Inr free)"

section \<open>Clones\<close>

text \<open>
  A checkout is named by an identity of its content. \<open>ce_clone n\<close> is the reply of the n-th clone
  of a run, \<open>CloneFails\<close> with what it leaves at the destination; \<open>ce_head\<close>, \<open>ce_log\<close> and
  \<open>ce_branch\<close> what \<open>rev-parse HEAD\<close>, \<open>log -1\<close> and \<open>rev-parse --abbrev-ref HEAD\<close> print in a
  checkout, \<open>ce_source_branch\<close> the last one in a local source. Removing a directory succeeds.
\<close>

datatype clone_reply = Cloned string | CloneFails "string option"

record clone_env =
  ce_urls :: "string \<Rightarrow> string option"
  ce_dir :: "string \<Rightarrow> string"
  ce_tmp :: "string \<Rightarrow> string"
  ce_clone :: "nat \<Rightarrow> string \<Rightarrow> string option \<Rightarrow> clone_reply"
  ce_head :: "string \<Rightarrow> string option"
  ce_log :: "string \<Rightarrow> string option"
  ce_branch :: "string \<Rightarrow> string option"
  ce_source_branch :: "string \<Rightarrow> string option"
  ce_ls_remote :: "string \<Rightarrow> string \<Rightarrow> string option"
  ce_rename :: "nat \<Rightarrow> bool"

text \<open>The directories, by path.\<close>

type_synonym clone_world = "string \<Rightarrow> string option"
type_synonym 'a clone_run = "(release_error, 'a, clone_world) run_result"

definition CLONE_STAGING_SUFFIX :: string where "CLONE_STAGING_SUFFIX = ''.xchain-node-staging''"
definition CLONE_PREVIOUS_SUFFIX :: string where "CLONE_PREVIOUS_SUFFIX = ''.xchain-node-previous''"

definition branch_char :: "char \<Rightarrow> bool" where
  "branch_char c = (is_digit c \<or> is_alpha c \<or> c \<in> {CHR ''.'', CHR ''_'', CHR ''-'', CHR ''/''})"

definition validateCloneRequest :: "clone_env \<Rightarrow> string \<Rightarrow> string option \<Rightarrow> release_error + string" where
  "validateCloneRequest env md branch = (case ce_urls env md of
     None \<Rightarrow> Inl NoUrl
   | Some url \<Rightarrow> (case truthy_text branch of
       None \<Rightarrow> Inr url | Some b \<Rightarrow> if list_all branch_char b then Inr url else Inl BadBranch))"

definition isLocalPathSource :: "string \<Rightarrow> bool" where
  "isLocalPathSource url = (prefix ''/'' url \<or> prefix ''./'' url \<or> prefix ''../'' url)"

definition localSourceIsDetached :: "clone_env \<Rightarrow> string \<Rightarrow> bool" where
  "localSourceIsDetached env url = (isLocalPathSource url \<and> (case ce_source_branch env url of None \<Rightarrow> False | Some out \<Rightarrow> trim out = ''HEAD''))"

definition runGitClone :: "clone_env \<Rightarrow> nat \<Rightarrow> string \<Rightarrow> string option \<Rightarrow> string \<Rightarrow> clone_world \<Rightarrow> unit clone_run" where
  "runGitClone env n url branch dest w =
     (let cloneBranch = (if truthy_text branch \<noteq> None \<and> localSourceIsDetached env url then None else truthy_text branch)
      in case ce_clone env n url cloneBranch of
          Cloned t \<Rightarrow> (Inr (), w(dest := Some t))
        | CloneFails left \<Rightarrow> (Inl CloneFailed, w(dest := left)))"

definition tree_head :: "clone_env \<Rightarrow> string option \<Rightarrow> string option" where
  "tree_head env t = map_option trim (Option.bind t (ce_head env))"

definition assertCheckoutCommit :: "clone_env \<Rightarrow> string \<Rightarrow> string option \<Rightarrow> clone_world \<Rightarrow> unit clone_run" where
  "assertCheckoutCommit env dir expectedCommit w = (case truthy_text expectedCommit of
     None \<Rightarrow> (Inr (), w)
   | Some c \<Rightarrow> (case tree_head env (w dir) of
       None \<Rightarrow> (Inl CommitUnreadable, w)
     | Some head \<Rightarrow> if head = c then (Inr (), w) else (Inl CommitMismatch, w)))"

text \<open>The commit of \<open>git log -1 --format=%H%x1f...\<close> when it is one.\<close>

definition readCheckoutIdentity :: "clone_env \<Rightarrow> string option \<Rightarrow> string option" where
  "readCheckoutIdentity env t = (case Option.bind t (ce_log env) of
     None \<Rightarrow> None
   | Some out \<Rightarrow> let c = hd (split_on (CHR 0x1F) (trim out)) in if commit_sha c then Some c else None)"

definition readSourceBranchTip :: "clone_env \<Rightarrow> string \<Rightarrow> string \<Rightarrow> string option" where
  "readSourceBranchTip env url branch = (case ce_ls_remote env url branch of
     None \<Rightarrow> None
   | Some out \<Rightarrow> (case find (\<lambda>l. trim l \<noteq> []) (split_on (CHR 0x0A) out) of
       None \<Rightarrow> None
     | Some line \<Rightarrow> let sha = hd (tokens line) in if commit_sha sha then Some sha else None))"

text \<open>A tree that is not the branch's tip is cloned once more, in place.\<close>

definition verifyDeploySource :: "clone_env \<Rightarrow> string \<Rightarrow> string option \<Rightarrow> string \<Rightarrow> string option \<Rightarrow> clone_world \<Rightarrow> unit clone_run" where
  "verifyDeploySource env url branch dir expectedCommit w =
     (if truthy_text expectedCommit \<noteq> None then (Inr (), w)
      else case truthy_text branch of
          None \<Rightarrow> (Inr (), w)
        | Some b \<Rightarrow>
            if localSourceIsDetached env url then (Inr (), w)
            else case readSourceBranchTip env url b of
                None \<Rightarrow> (Inr (), w)
              | Some tip \<Rightarrow>
                  if readCheckoutIdentity env (w dir) \<in> {None, Some tip} then (Inr (), w)
                  else attempt (runGitClone env 1 url branch dir (w(dir := None))) (\<lambda>_ w.
                    if readCheckoutIdentity env (w dir) = Some tip then (Inr (), w) else (Inl StaleSource, w)))"

text \<open>\<open>try { k } catch { remove the directory; throw }\<close>.\<close>

definition or_remove :: "string \<Rightarrow> 'a clone_run \<Rightarrow> 'a clone_run" where
  "or_remove dir r = (case r of (Inl e, w) \<Rightarrow> (Inl e, w(dir := None)) | ok \<Rightarrow> ok)"

definition cloneTemporaryCheckout :: "clone_env \<Rightarrow> string \<Rightarrow> string \<Rightarrow> string option \<Rightarrow> string option \<Rightarrow> clone_world \<Rightarrow> unit clone_run" where
  "cloneTemporaryCheckout env url md branch expectedCommit w =
     attempt (runGitClone env 0 url branch (ce_tmp env md) (w(ce_tmp env md := None))) (\<lambda>_ w.
       or_remove (ce_tmp env md) (assertCheckoutCommit env (ce_tmp env md) expectedCommit w))"

definition cloneNewCheckout :: "clone_env \<Rightarrow> string \<Rightarrow> string option \<Rightarrow> string option \<Rightarrow> string \<Rightarrow> clone_world \<Rightarrow> unit clone_run" where
  "cloneNewCheckout env url branch expectedCommit destination w =
     attempt (runGitClone env 0 url branch destination w) (\<lambda>_ w.
       or_remove destination (attempt (assertCheckoutCommit env destination expectedCommit w) (\<lambda>_ w.
         verifyDeploySource env url branch destination expectedCommit w)))"

definition stageReplacement :: "clone_env \<Rightarrow> string \<Rightarrow> string option \<Rightarrow> string option \<Rightarrow> string \<Rightarrow> clone_world \<Rightarrow> (string \<times> string) clone_run" where
  "stageReplacement env url branch expectedCommit destination w =
     (let staging = destination @ CLONE_STAGING_SUFFIX; previous = destination @ CLONE_PREVIOUS_SUFFIX in
      attempt (or_remove staging (
        attempt (runGitClone env 0 url branch staging (w(staging := None, previous := None))) (\<lambda>_ w.
        attempt (assertCheckoutCommit env staging expectedCommit w) (\<lambda>_ w.
          verifyDeploySource env url branch staging expectedCommit w)))) (\<lambda>_ w. (Inr (staging, previous), w)))"

text \<open>A rename moves a directory; the second one that failed is undone if the third succeeds.\<close>

definition move :: "string \<Rightarrow> string \<Rightarrow> clone_world \<Rightarrow> clone_world" where
  "move a b w = w(b := w a, a := None)"

definition swapReplacement :: "clone_env \<Rightarrow> string \<Rightarrow> string \<Rightarrow> string \<Rightarrow> clone_world \<Rightarrow> unit clone_run" where
  "swapReplacement env destination staging previous w =
     (if \<not> ce_rename env 0 then (Inl SwapFailed, w(staging := None))
      else let w = move destination previous w in
        if \<not> ce_rename env 1
        then let w = (if ce_rename env 2 then move previous destination w else w) in (Inl SwapFailed, w(staging := None))
        else (Inr (), (move staging destination w)(previous := None)))"

definition cloneGit :: "clone_env \<Rightarrow> string \<Rightarrow> bool \<Rightarrow> bool \<Rightarrow> string option \<Rightarrow> string option \<Rightarrow> clone_world \<Rightarrow> unit clone_run" where
  "cloneGit env md rewrite useTmp branch expectedCommit w = (case validateCloneRequest env md branch of
     Inl e \<Rightarrow> (Inl e, w)
   | Inr url \<Rightarrow>
       if useTmp then cloneTemporaryCheckout env url md branch expectedCommit w
       else if w (ce_dir env md) = None then cloneNewCheckout env url branch expectedCommit (ce_dir env md) w
       else if \<not> rewrite then (Inl DirExists, w)
       else attempt (stageReplacement env url branch expectedCommit (ce_dir env md) w) (\<lambda>(staging, previous) w.
         swapReplacement env (ce_dir env md) staging previous w))"

definition getModuleCommit :: "clone_env \<Rightarrow> string \<Rightarrow> clone_world \<Rightarrow> string option" where
  "getModuleCommit env md w = tree_head env (w (ce_dir env md))"

definition getModuleBranch :: "clone_env \<Rightarrow> string \<Rightarrow> clone_world \<Rightarrow> string clone_run" where
  "getModuleBranch env md w = (case Option.bind (w (ce_dir env md)) (ce_branch env) of
     None \<Rightarrow> (Inl BranchUnreadable, w) | Some out \<Rightarrow> (Inr (trim out), w))"

definition checkoutModule :: "clone_env \<Rightarrow> install_target option \<Rightarrow> string \<Rightarrow> string option \<Rightarrow> bool \<Rightarrow> bool \<Rightarrow> clone_world \<Rightarrow> unit clone_run" where
  "checkoutModule env active md branch remoteUpdate hasLocalVersion w = (case resolveComponentRef active md branch of
     Inl e \<Rightarrow> (Inl e, w)
   | Inr pin \<Rightarrow>
       if remoteUpdate \<or> \<not> hasLocalVersion then cloneGit env md True False (cr_ref pin) (cr_commit pin) w
       else if truthy_text (cr_ref pin) = None \<or> w (ce_dir env md) = None then (Inr (), w)
       else attempt (getModuleBranch env md w) (\<lambda>currentBranch w.
         let alreadyThere = (if cr_pinned pin then getModuleCommit env md w = cr_commit pin else Some currentBranch = cr_ref pin)
         in if alreadyThere then (Inr (), w) else cloneGit env md True False (cr_ref pin) (cr_commit pin) w))"

section \<open>The digest file, read strictly\<close>

definition sums_rows :: "string \<Rightarrow> string list" where
  "sums_rows text = filter (\<lambda>l. trim l \<noteq> []) (map drop_cr (split_on (CHR 0x0A) text))"

lemma sums_entries_iff:
  "sums_entries ls es0 = Inr es \<longleftrightarrow> (\<exists>es1. es = es0 @ es1 \<and> map sums_line (filter (\<lambda>l. trim l \<noteq> []) (map drop_cr ls)) = map Some es1
     \<and> distinct (map fst es1) \<and> fst ` set es0 \<inter> fst ` set es1 = {})"
proof (induction ls arbitrary: es0)
  case (Cons raw ls)
  show ?case
  proof (cases "trim (drop_cr raw) = [] \<or> sums_line (drop_cr raw) = None")
    case True then show ?thesis using Cons.IH [of es0] by (cases "trim (drop_cr raw) = []") auto
  next
    case False
    then obtain n d where l: "sums_line (drop_cr raw) = Some (n, d)" by (cases "sums_line (drop_cr raw)") auto
    have "sums_entries (raw # ls) es0 = Inr es \<longleftrightarrow> n \<notin> fst ` set es0 \<and> sums_entries ls (es0 @ [(n, d)]) = Inr es"
      using False l by simp
    also have "\<dots> \<longleftrightarrow> n \<notin> fst ` set es0 \<and> (\<exists>es1. es = es0 @ (n, d) # es1
        \<and> map sums_line (filter (\<lambda>l. trim l \<noteq> []) (map drop_cr ls)) = map Some es1
        \<and> distinct (map fst es1) \<and> (fst ` set es0 \<union> {n}) \<inter> fst ` set es1 = {})"
      unfolding Cons.IH by simp
    also have "\<dots> \<longleftrightarrow> (\<exists>es1. es = es0 @ es1 \<and> map sums_line (filter (\<lambda>l. trim l \<noteq> []) (map drop_cr (raw # ls))) = map Some es1
        \<and> distinct (map fst es1) \<and> fst ` set es0 \<inter> fst ` set es1 = {})" (is "?L \<longleftrightarrow> ?R")
    proof
      assume ?L
      then obtain es1 where "n \<notin> fst ` set es0" "es = es0 @ (n, d) # es1"
        "map sums_line (filter (\<lambda>l. trim l \<noteq> []) (map drop_cr ls)) = map Some es1"
        "distinct (map fst es1)" "(fst ` set es0 \<union> {n}) \<inter> fst ` set es1 = {}" by blast
      then show ?R using False l by (intro exI [of _ "(n, d) # es1"]) auto
    next
      assume ?R
      then obtain es1 where r: "es = es0 @ es1" "map sums_line (filter (\<lambda>l. trim l \<noteq> []) (map drop_cr (raw # ls))) = map Some es1"
        "distinct (map fst es1)" "fst ` set es0 \<inter> fst ` set es1 = {}" by blast
      then obtain es2 where "es1 = (n, d) # es2" using False l by (cases es1) auto
      then show ?L using r False l by (intro conjI exI [of _ es2]) auto
    qed
    finally show ?thesis .
  qed
qed auto

lemma sums_entries_parse:
  "parseSha256sums text = Inr es \<longleftrightarrow> es \<noteq> [] \<and> map sums_line (sums_rows text) = map Some es \<and> distinct (map fst es)"
  using sums_entries_iff [of "split_on (CHR 0x0A) text" "[]"]
  by (auto simp: parseSha256sums_def sums_rows_def split: sum.splits)

definition sha_digest :: "string \<Rightarrow> bool" where
  "sha_digest d = (length d = 64 \<and> list_all lower_hex d)"

lemma is_hex_lower: "is_hex c \<Longrightarrow> lower_hex (lower_char c)"
  by (auto simp: lower_hex_def is_hex_def hex_val_def lower_char_def is_digit_def char_code_def Let_def split: if_splits)

lemma sums_line_digest: "sums_line l = Some (n, d) \<Longrightarrow> sha_digest d"
  using is_hex_lower by (auto simp: sums_line_def Let_def sha_digest_def to_lower_def list_all_iff split: if_splits)

text \<open>The lines of a digest file that name a file, read one by one.\<close>

definition digests_of :: "string \<Rightarrow> string \<Rightarrow> string list" where
  "digests_of body name = map snd (filter (\<lambda>e. fst e = name) (map the (filter (\<lambda>e. e \<noteq> None) (map sums_line (sums_rows body)))))"

lemma digests_of_entries:
  assumes "map sums_line (sums_rows body) = map Some es" "distinct (map fst es)" "map_of es name = Some d"
  shows "digests_of body name = [d]"
proof -
  have "digests_of body name = map snd (filter (\<lambda>e. fst e = name) es)"
    unfolding digests_of_def assms(1) by (simp add: filter_map comp_def)
  moreover have "map snd (filter (\<lambda>e. fst e = name) es) = [d]"
    using assms(2,3)
  proof (induction es)
    case (Cons e es)
    show ?case
    proof (cases "fst e = name")
      case True
      then have "filter (\<lambda>e. fst e = name) es = []" using Cons.prems(1) by (auto simp: filter_empty_conv image_iff)
      then show ?thesis using True Cons.prems(2) by (cases e) simp
    next
      case False then show ?thesis using Cons by (cases e) simp
    qed
  qed simp
  ultimately show ?thesis by simp
qed

text \<open>
  C24. A digest file is read strictly: it is accepted only when every line that is not blank is a
  digest line and no name occurs twice, its entries are then exactly those lines in order, and
  every digest is 64 lower-case hexadecimal characters.\<close>

theorem sums_file_read_exactly:
  "(parseSha256sums text = Inr es) = (es \<noteq> [] \<and> map sums_line (sums_rows text) = map Some es \<and> distinct (map fst es))
   \<and> (parseSha256sums text = Inr es \<longrightarrow> (\<forall>(name, d)\<in>set es. sha_digest d \<and> digests_of text name = [d]))"
proof -
  have "sha_digest d \<and> digests_of text name = [d]" if p: "parseSha256sums text = Inr es" and e: "(name, d) \<in> set es" for name d
  proof -
    have rows: "map sums_line (sums_rows text) = map Some es" "distinct (map fst es)" using p by (simp_all add: sums_entries_parse)
    have "Some (name, d) \<in> set (map sums_line (sums_rows text))" unfolding rows(1) using e by simp
    then obtain l where "sums_line l = Some (name, d)" unfolding set_map by (metis imageE)
    then have "sha_digest d" by (rule sums_line_digest)
    then show ?thesis using digests_of_entries [OF rows] map_of_is_SomeI [OF rows(2) e] by simp
  qed
  then show ?thesis using sums_entries_parse by blast
qed

definition demo_digest :: string where
  "demo_digest = ''0123456789abcdef0123456789abcdef0123456789abcdef0123456789abcdef''"

definition demo_sums :: string where
  "demo_sums = demo_digest @ ''  release-manifest.json'' @ [CHR 0x0A]"

lemma sums_file_read_exactly_witness:
  "parseSha256sums demo_sums = Inr [(MANIFEST_ASSET, demo_digest)] \<and> sha_digest demo_digest \<and> digests_of demo_sums MANIFEST_ASSET = [demo_digest]"
proof -
  have "parseSha256sums demo_sums = Inr [(MANIFEST_ASSET, demo_digest)]" by code_simp
  then show ?thesis using sums_file_read_exactly [of demo_sums "[(MANIFEST_ASSET, demo_digest)]"] by simp
qed

section \<open>The manifest and its signature\<close>

text \<open>
  Relied on: a VALIDSIG line of \<open>gpg --verify\<close> over a keyring that holds the imported key names
  the key, or its primary key, that signed the data. \<open>signed fp data\<close> says the key with
  fingerprint \<open>fp\<close> signed \<open>data\<close>.
\<close>

definition gpg_truthful :: "release_env \<Rightarrow> (string \<Rightarrow> string \<Rightarrow> bool) \<Rightarrow> bool" where
  "gpg_truthful env signed = (\<forall>data sig status fs n. re_gpg_verify env data sig = Some status \<and> validsig_fields (status_lines status) = Some fs
     \<and> n \<in> {0, 9} \<longrightarrow> signed (normalizeFingerprint (nth_field fs n)) data)"

definition covered_by_key :: "release_env \<Rightarrow> (string \<Rightarrow> string \<Rightarrow> bool) \<Rightarrow> string \<Rightarrow> bool" where
  "covered_by_key env signed bytes = (\<exists>body. signed PLATFORM_KEY_FINGERPRINT body \<and> digests_of body MANIFEST_ASSET = [re_sha256 env bytes])"

lemma pin_normal: "validateFingerprint PLATFORM_KEY_FINGERPRINT = Inr PLATFORM_KEY_FINGERPRINT"
  by code_simp

lemma good_status_signed:
  assumes "gpg_truthful env signed" "re_gpg_verify env data sig = Some status" "assertStatusIsGood status fp = Inr u"
  shows "signed fp data"
proof -
  obtain fs where f: "validsig_fields (status_lines status) = Some fs"
    "normalizeFingerprint (nth_field fs 0) = fp \<or> normalizeFingerprint (nth_field fs 9) = fp"
    using assms(3) by (auto simp: assertStatusIsGood_def Let_def split: if_splits option.splits)
  then show ?thesis using assms(1,2) unfolding gpg_truthful_def by blast
qed

lemma verified_signature:
  assumes "gpg_truthful env signed" "verifyDetachedSignature env data sig PLATFORM_KEY_FINGERPRINT = Inr x"
  shows "signed PLATFORM_KEY_FINGERPRINT data"
  using assms(2) good_status_signed [OF assms(1)] unfolding verifyDetachedSignature_def pin_normal sum.case
  by (auto split: if_splits option.splits sum.splits)

lemma verified_digest:
  assumes "assertDigestMatches env body bytes name = Inr x"
  shows "digests_of body name = [re_sha256 env bytes]"
proof -
  obtain es where es: "parseSha256sums body = Inr es" "map_of es name = Some (re_sha256 env bytes)"
    using assms by (auto simp: assertDigestMatches_def split: sum.splits option.splits if_splits)
  show ?thesis by (rule digests_of_entries [OF _ _ es(2)]) (use es(1) sums_entries_parse in auto)
qed

lemma verified_manifest:
  assumes "gpg_truthful env signed" "\<not> signatureCheckDisabled env" "verifyManifestForTag env tag bytes = Inr b"
  shows "covered_by_key env signed bytes"
proof -
  obtain body sig x y where "verifyDetachedSignature env body sig PLATFORM_KEY_FINGERPRINT = Inr x"
    "assertDigestMatches env body bytes MANIFEST_ASSET = Inr y"
    using assms(2,3) by (auto simp: verifyManifestForTag_def refuse_def split: sum.splits option.splits if_splits)
  then show ?thesis using verified_signature [OF assms(1)] verified_digest unfolding covered_by_key_def by blast
qed

text \<open>
  C22. Unless the operator opted out, the manifest of a release is either the one this checkout
  carries for the very version asked for, or the parse of bytes whose hash is the only entry for
  the manifest in a digest file signed by the pinned release key.\<close>

theorem fetched_manifest_is_signed:
  assumes "gpg_truthful env signed" and "\<not> signatureCheckDisabled env"
    and "fetchManifestAtTag env tag = Inr m"
  shows "local_manifest_for env tag = Some m
    \<or> (\<exists>bytes. re_manifest env tag = Reply (Some bytes) \<and> json_parse bytes = Some m \<and> covered_by_key env signed bytes)"
  using assms(3) verified_manifest [OF assms(1,2)]
  by (auto simp: fetchManifestAtTag_def split: option.splits reply.splits sum.splits)

definition demo_manifest_text :: string where
  "demo_manifest_text = map (\<lambda>c. if c = CHR ''~'' then CHR 0x22 else c)
     ''{~platform_version~:~0.9.1~,~components~:{~xchain-hub~:{~tag~:~v0.9.1~,~commit~:~0123456789abcdef0123456789abcdef01234567~}}}''"

definition demo_status :: string where
  "demo_status = ''[GNUPG:] GOODSIG 4361611A82F90B70 XChain'' @ [CHR 0x0A]
     @ ''[GNUPG:] VALIDSIG '' @ PLATFORM_KEY_FINGERPRINT @ '' 2026-07-23 1784764800 0 4 0 1 10 00 '' @ PLATFORM_KEY_FINGERPRINT @ [CHR 0x0A]"

definition demo_release_env :: release_env where
  "demo_release_env = \<lparr>re_require_signed = [], re_allow_downgrade = [], re_version = ''0.9.0'', re_local_manifest = None,
     re_manifest = (\<lambda>_. Reply (Some demo_manifest_text)),
     re_release = (\<lambda>_. Reply [(SUMS_ASSET, ''u1''), (SIG_ASSET, ''u2'')]),
     re_get = (\<lambda>u. if u = ''u1'' then Redirect (Some ''u3'') else Direct ''sig''),
     re_follow = (\<lambda>_. Some demo_sums), re_latest = Reply (Some ''v0.9.1''), re_key_exists = True, re_gpg_import = Imported,
     re_gpg_verify = (\<lambda>d s. if d = demo_sums \<and> s = ''sig'' then Some demo_status else None), re_sha256 = (\<lambda>_. demo_digest)\<rparr>"

definition demo_signed :: "string \<Rightarrow> string \<Rightarrow> bool" where
  "demo_signed fp data = (fp = PLATFORM_KEY_FINGERPRINT \<and> data = demo_sums)"

definition demo_manifest :: json where
  "demo_manifest = JObj [(''platform_version'', JStr ''0.9.1''), (''components'', JObj [(HUB_MODULE_NAME,
     JObj [(''tag'', JStr ''v0.9.1''), (''commit'', JStr ''0123456789abcdef0123456789abcdef01234567'')])])]"

lemma demo_validsig:
  "map_option (\<lambda>fs. (normalizeFingerprint (nth_field fs 0), normalizeFingerprint (nth_field fs 9))) (validsig_fields (status_lines demo_status))
   = Some (PLATFORM_KEY_FINGERPRINT, PLATFORM_KEY_FINGERPRINT)"
  by code_simp

lemma demo_gpg_truthful: "gpg_truthful demo_release_env demo_signed"
  using demo_validsig by (auto simp: gpg_truthful_def demo_release_env_def demo_signed_def split: if_splits)

lemma demo_fetch: "fetchManifestAtTag demo_release_env ''v0.9.1'' = Inr demo_manifest"
  by code_simp

lemma demo_required: "\<not> signatureCheckDisabled demo_release_env"
  by code_simp

lemma fetched_manifest_is_signed_witness:
  "local_manifest_for demo_release_env ''v0.9.1'' = Some demo_manifest
    \<or> (\<exists>bytes. re_manifest demo_release_env ''v0.9.1'' = Reply (Some bytes) \<and> json_parse bytes = Some demo_manifest
        \<and> covered_by_key demo_release_env demo_signed bytes)"
  by (rule fetched_manifest_is_signed [OF demo_gpg_truthful demo_required demo_fetch])

text \<open>What is verified does not name the release: the files of one tag pass at another.\<close>

lemma manifest_not_bound_to_tag:
  assumes "re_manifest env t2 = re_manifest env t1" "re_release env t2 = re_release env t1"
    "local_manifest_for env t1 = None" "local_manifest_for env t2 = None"
  shows "fetchManifestAtTag env t2 = fetchManifestAtTag env t1"
proof -
  have "verifyManifestForTag env t2 bytes = verifyManifestForTag env t1 bytes" for bytes
    using assms(2) by (simp add: verifyManifestForTag_def fetchReleaseAsset_def)
  then show ?thesis unfolding fetchManifestAtTag_def assms by (simp split: reply.splits option.splits)
qed

section \<open>The checkout a release leaves\<close>

text \<open>Relied on: a clone that fails removes the directory it made, as git does.\<close>

definition clean_clones :: "clone_env \<Rightarrow> bool" where
  "clean_clones env = (\<forall>n url b left. ce_clone env n url b = CloneFails left \<longrightarrow> left = None)"

lemma commit_sha_truthy: "commit_sha c \<Longrightarrow> truthy_text (Some c) = Some c"
  by (cases c) (auto simp: commit_sha_def truthy_text_def)

definition holds :: "clone_env \<Rightarrow> string \<Rightarrow> string \<Rightarrow> clone_world \<Rightarrow> bool" where
  "holds env c p w = (\<exists>t. w p = Some t \<and> tree_head env (Some t) = Some c)"

text \<open>The runs that touch one directory: they leave the wanted commit there or remove it.\<close>

definition one_dir :: "clone_env \<Rightarrow> string \<Rightarrow> string \<Rightarrow> clone_world \<Rightarrow> release_error + 'a \<Rightarrow> clone_world \<Rightarrow> bool" where
  "one_dir env c d w x w' = ((\<forall>p. p \<noteq> d \<longrightarrow> w' p = w p) \<and> (case x of Inl _ \<Rightarrow> w' d = None | Inr _ \<Rightarrow> holds env c d w'))"

lemma clone_facts:
  "ensures (runGitClone env n url b d w) (\<lambda>x w'. (\<forall>p. p \<noteq> d \<longrightarrow> w' p = w p) \<and> (clean_clones env \<longrightarrow> (\<exists>e. x = Inl e) \<longrightarrow> w' d = None))"
  by (auto simp: runGitClone_def Let_def clean_clones_def split: clone_reply.splits)

lemma commit_facts:
  "commit_sha c \<Longrightarrow> ensures (assertCheckoutCommit env d (Some c) w) (\<lambda>x w'. w' = w \<and> ((\<exists>u. x = Inr u) \<longrightarrow> holds env c d w))"
  by (auto simp: assertCheckoutCommit_def commit_sha_truthy holds_def tree_head_def Option.bind_eq_Some_conv split: option.splits)

lemma pinned_source: "commit_sha c \<Longrightarrow> verifyDeploySource env url b d (Some c) w = (Inr (), w)"
  by (simp add: verifyDeploySource_def commit_sha_truthy)

lemma checked_clone:
  assumes c: "commit_sha c"
  shows "ensures (or_remove d (attempt (assertCheckoutCommit env d (Some c) w) (\<lambda>_ w. verifyDeploySource env url b d (Some c) w))) (one_dir env c d w)"
  using commit_facts [OF c, of env d w]
  by (cases "assertCheckoutCommit env d (Some c) w"; cases "fst (assertCheckoutCommit env d (Some c) w)")
    (auto simp: or_remove_def attempt_def pinned_source [OF c] one_dir_def)

lemma new_checkout:
  assumes "clean_clones env" "commit_sha c"
  shows "ensures (cloneNewCheckout env url b (Some c) d w) (one_dir env c d w)"
  unfolding cloneNewCheckout_def
proof (rule ensures_attempt [OF clone_facts], goal_cases)
  case (1 e w1) then show ?case using assms(1) by (simp add: one_dir_def)
next
  case (2 u w1) then show ?case by (intro ensures_weaken [OF checked_clone [OF assms(2)]]) (simp add: one_dir_def split: sum.splits)
qed

lemma suffixes [simp]: "CLONE_STAGING_SUFFIX \<noteq> []" "CLONE_PREVIOUS_SUFFIX \<noteq> []" "CLONE_STAGING_SUFFIX \<noteq> CLONE_PREVIOUS_SUFFIX"
  "CLONE_PREVIOUS_SUFFIX \<noteq> CLONE_STAGING_SUFFIX"
  by (simp_all add: CLONE_STAGING_SUFFIX_def CLONE_PREVIOUS_SUFFIX_def)

lemma staged:
  assumes "commit_sha c"
  shows "ensures (stageReplacement env url b (Some c) d w) (\<lambda>x w'.
     (\<forall>p. p \<notin> {d @ CLONE_STAGING_SUFFIX, d @ CLONE_PREVIOUS_SUFFIX} \<longrightarrow> w' p = w p)
     \<and> (\<forall>s q. x = Inr (s, q) \<longrightarrow> s = d @ CLONE_STAGING_SUFFIX \<and> q = d @ CLONE_PREVIOUS_SUFFIX \<and> holds env c s w'))"
proof -
  let ?s = "d @ CLONE_STAGING_SUFFIX" and ?q = "d @ CLONE_PREVIOUS_SUFFIX"
  define r where "r = runGitClone env 0 url b ?s (w(?s := None, ?q := None))"
  have "ensures r (\<lambda>x w'. \<forall>p. p \<notin> {?s, ?q} \<longrightarrow> w' p = w p)"
    unfolding r_def by (rule ensures_weaken [OF clone_facts]) simp
  then have "ensures (or_remove ?s (attempt r (\<lambda>_ w. attempt (assertCheckoutCommit env ?s (Some c) w) (\<lambda>_ w. verifyDeploySource env url b ?s (Some c) w))))
     (\<lambda>x w'. (\<forall>p. p \<notin> {?s, ?q} \<longrightarrow> w' p = w p) \<and> ((\<exists>u. x = Inr u) \<longrightarrow> holds env c ?s w'))"
    using checked_clone [OF assms, of ?s env "snd r" url b]
    by (cases r; cases "fst r") (auto simp: attempt_def or_remove_def ensures_def one_dir_def split: sum.splits prod.splits)
  then show ?thesis unfolding stageReplacement_def Let_def r_def
    by (rule ensures_attempt) auto
qed

text \<open>
  What a pinned checkout leaves in the module's directory \<open>d\<close>: on success the pinned commit, or
  nothing where a run that only checks found no directory; on an error the checkout of before, or
  none, with that checkout beside it under the previous name after two renames that failed.\<close>

definition old_or_pinned :: "clone_env \<Rightarrow> string \<Rightarrow> string \<Rightarrow> clone_world \<Rightarrow> release_error + unit \<Rightarrow> clone_world \<Rightarrow> bool" where
  "old_or_pinned env c d w x w' = (
     (\<forall>p. p \<notin> {d, d @ CLONE_STAGING_SUFFIX, d @ CLONE_PREVIOUS_SUFFIX} \<longrightarrow> w' p = w p)
   \<and> (case x of
        Inr _ \<Rightarrow> holds env c d w' \<or> w d = None \<and> w' = w
      | Inl _ \<Rightarrow> w' d = w d \<or> w' d = None \<and> w' (d @ CLONE_PREVIOUS_SUFFIX) = w d \<and> \<not> ce_rename env 1 \<and> \<not> ce_rename env 2))"

lemma swap_facts:
  assumes "holds env c (d @ CLONE_STAGING_SUFFIX) w" "w d = w0 d"
    "\<forall>p. p \<notin> {d, d @ CLONE_STAGING_SUFFIX, d @ CLONE_PREVIOUS_SUFFIX} \<longrightarrow> w p = w0 p"
  shows "ensures (swapReplacement env d (d @ CLONE_STAGING_SUFFIX) (d @ CLONE_PREVIOUS_SUFFIX) w) (old_or_pinned env c d w0)"
  using assms by (auto simp: swapReplacement_def old_or_pinned_def move_def Let_def holds_def)

lemma pinned_clone:
  assumes "clean_clones env" "commit_sha c"
  shows "ensures (cloneGit env md True False b (Some c) w) (old_or_pinned env c (ce_dir env md) w)"
proof (cases "validateCloneRequest env md b")
  case (Inl e) then show ?thesis by (simp add: cloneGit_def old_or_pinned_def)
next
  case (Inr url)
  let ?d = "ce_dir env md"
  show ?thesis
  proof (cases "w ?d = None")
    case True
    have "ensures (cloneNewCheckout env url b (Some c) ?d w) (old_or_pinned env c ?d w)"
      by (rule ensures_weaken [OF new_checkout [OF assms]]) (use True in \<open>simp add: one_dir_def old_or_pinned_def split: sum.splits\<close>)
    then show ?thesis using True Inr by (simp add: cloneGit_def)
  next
    case False
    then obtain tree where tree: "w ?d = Some tree" by auto
    have "ensures (attempt (stageReplacement env url b (Some c) ?d w) (\<lambda>(staging, previous) w. swapReplacement env ?d staging previous w))
        (old_or_pinned env c ?d w)"
    proof (rule ensures_attempt [OF staged [OF assms(2)]], goal_cases)
      case (1 e w1) then show ?case by (simp add: old_or_pinned_def)
    next
      case (2 sq w1) then show ?case by (cases sq) (auto intro!: swap_facts)
    qed
    then show ?thesis using tree Inr by (simp add: cloneGit_def)
  qed
qed

lemma pin_commit_sha: "getComponentPin m md = Inr (Some (t, c)) \<Longrightarrow> commit_sha c \<and> truthy_text (Some (case t of None \<Rightarrow> c | Some t \<Rightarrow> t)) \<noteq> None"
  by (auto simp: getComponentPin_def Let_def truthy_text_def commit_sha_def split: if_splits option.splits json.splits)


definition demo_commit :: string where
  "demo_commit = ''0123456789abcdef0123456789abcdef01234567''"

text \<open>An update whose tag is where the manifest says, and one whose tag moved.\<close>

definition demo_clone_env :: "string \<Rightarrow> clone_env" where
  "demo_clone_env head = \<lparr>ce_urls = (\<lambda>_. Some ''https://example.org/hub.git''), ce_dir = (\<lambda>m. ''/m/'' @ m), ce_tmp = (\<lambda>m. ''/t/'' @ m),
     ce_clone = (\<lambda>_ _ _. Cloned ''new tree''), ce_head = (\<lambda>t. if t = ''new tree'' then Some (head @ [CHR 0x0A]) else Some ''fff''),
     ce_log = (\<lambda>_. None), ce_branch = (\<lambda>_. Some ''HEAD''), ce_source_branch = (\<lambda>_. None), ce_ls_remote = (\<lambda>_ _. None),
     ce_rename = (\<lambda>_. True)\<rparr>"

definition demo_dirs :: clone_world where
  "demo_dirs = (\<lambda>p. if p = ''/m/'' @ HUB_MODULE_NAME then Some ''old tree'' else None)"

lemma demo_pin: "getComponentPin demo_manifest HUB_MODULE_NAME = Inr (Some (Some ''v0.9.1'', demo_commit))"
  by code_simp

lemma demo_clean: "clean_clones (demo_clone_env head)"
  by (simp add: clean_clones_def demo_clone_env_def)

definition demo_update :: "string \<Rightarrow> (release_error + unit) \<times> clone_world" where
  "demo_update head = checkoutModule (demo_clone_env head) (Some (ReleaseTarget ''v0.9.1'' demo_manifest)) HUB_MODULE_NAME None True True demo_dirs"

lemma demo_update_ends:
  "fst (demo_update demo_commit) = Inr ()" "snd (demo_update demo_commit) (''/m/'' @ HUB_MODULE_NAME) = Some ''new tree''"
  "fst (demo_update ''beef'') = Inl CommitMismatch" "snd (demo_update ''beef'') (''/m/'' @ HUB_MODULE_NAME) = Some ''old tree''"
  by code_simp+


end
