(* ===== verification/UpdateGuards.thy ===== *)
theory UpdateGuards
  imports Releases Freshness
begin

text \<open>
  The two guards an update passes before a service is rebuilt: the hub version of
  \<open>services/skew_guard_service.js\<close> and the migrations of
  \<open>services/migration_precondition_service.js\<close> with \<open>migration_scan.js\<close>,
  \<open>recorded_ledger.js\<close>, \<open>utils/migration_files.js\<close> and the applied statement of
  \<open>db/migrations.js\<close>. The source tree about to be deployed and the replies of the database are
  inputs.
\<close>

section \<open>The tree about to be deployed\<close>

text \<open>A file is its text, or \<open>None\<close> when it cannot be read.\<close>

datatype dir_entry = FileEntry string "string option" | DirEntry "(string \<times> string option) list"
datatype registry_file = NoRegistry | UnreadableRegistry | RegistryText string

record target_tree =
  tt_package :: "json option"
  tt_moved :: "dir_entry list option"
  tt_flat :: "dir_entry list option"
  tt_registry :: registry_file

definition migrationsDirOf :: "target_tree \<Rightarrow> dir_entry list option" where
  "migrationsDirOf t = (if tt_moved t \<noteq> None then tt_moved t else tt_flat t)"

definition ends_with :: "string \<Rightarrow> string \<Rightarrow> bool" where
  "ends_with s e = (length e \<le> length s \<and> drop (length s - length e) s = e)"

fun entry_files :: "dir_entry \<Rightarrow> (string \<times> string option) list" where
  "entry_files (FileEntry name text) = [(name, text)]"
| "entry_files (DirEntry inner) = inner"

definition migrationFiles :: "dir_entry list option \<Rightarrow> (string \<times> string option) list" where
  "migrationFiles dir = (case dir of None \<Rightarrow> []
     | Some es \<Rightarrow> sort_key fst (filter (\<lambda>f. ends_with (fst f) ''.sql'') (concat (map entry_files es))))"

section \<open>Header tags\<close>

definition header_line :: "string \<Rightarrow> bool" where
  "header_line l = (trim l = [] \<or> prefix ''--'' (trim l))"

definition prologue :: "string \<Rightarrow> string list" where
  "prologue raw = takeWhile header_line (split_on (CHR 0x0A) raw)"

definition word_char :: "char \<Rightarrow> bool" where
  "word_char c = (is_digit c \<or> is_alpha c \<or> c = CHR ''_'')"

definition word_end :: "string \<Rightarrow> bool" where
  "word_end s = (case s of [] \<Rightarrow> True | c # _ \<Rightarrow> \<not> word_char c)"

text \<open>The rest after a literal, letters in either case.\<close>

definition after_ci :: "string \<Rightarrow> string \<Rightarrow> string option" where
  "after_ci lit s = (if to_lower (take (length lit) s) = lit then Some (drop (length lit) s) else None)"

text \<open>\<open>key = value\<close> at the start, white space around the sign, one of the values, a word end.\<close>

definition tag_at :: "string \<Rightarrow> string list \<Rightarrow> string \<Rightarrow> string option" where
  "tag_at key vals s = Option.bind (after_ci key s) (\<lambda>r. case dropWhile is_ws r of
       c # r' \<Rightarrow> if c = CHR ''='' then find (\<lambda>v. case after_ci v (dropWhile is_ws r') of None \<Rightarrow> False | Some e \<Rightarrow> word_end e) vals else None
     | [] \<Rightarrow> None)"

text \<open>The tags further on in the line, where a word starts; \<open>p\<close> tells whether a word character came before.\<close>

fun line_tags :: "string \<Rightarrow> string list \<Rightarrow> bool \<Rightarrow> string \<Rightarrow> string list" where
  "line_tags key vals p [] = []"
| "line_tags key vals p (c # s) =
     (if c = CHR 0x0A then []
      else (if p then [] else (case tag_at key vals (c # s) of None \<Rightarrow> [] | Some v \<Rightarrow> [v])) @ line_tags key vals (word_char c) s)"

text \<open>One start of the pattern: dashes, the marker as a whole word, then the tags after it.\<close>

definition marker_tags :: "string \<Rightarrow> string list \<Rightarrow> string \<Rightarrow> string list" where
  "marker_tags key vals s = (let r = dropWhile is_ws s in
     if \<not> prefix ''--'' r then []
     else case after_ci ''xchain:migration'' (dropWhile is_ws (drop 2 r)) of
         None \<Rightarrow> []
       | Some r' \<Rightarrow> if word_end r' then line_tags key vals True r' else [])"

text \<open>\<open>^\<close> with the m flag: the text's start and after a line end. The first start with a tag counts.\<close>

fun first_tags :: "string \<Rightarrow> string list \<Rightarrow> bool \<Rightarrow> string \<Rightarrow> string list" where
  "first_tags key vals start [] = []"
| "first_tags key vals start (c # s) =
     (if start \<and> marker_tags key vals (c # s) \<noteq> [] then marker_tags key vals (c # s)
      else first_tags key vals (c = CHR 0x0A \<or> c = CHR 0x0D) s)"

definition migrationDeclaresDeployPrecondition :: "string \<Rightarrow> bool" where
  "migrationDeclaresDeployPrecondition raw = (first_tags ''deploy-precondition'' [''required''] True (join_lines (prologue raw)) \<noteq> [])"

text \<open>The greedy pattern takes the last tag of the line.\<close>

definition migrationMode :: "string \<Rightarrow> string" where
  "migrationMode raw = (case first_tags ''mode'' [''auto'', ''manual''] True (join_lines (prologue raw)) of
     [] \<Rightarrow> ''manual'' | ts \<Rightarrow> last ts)"

definition listDeployPreconditionMigrations :: "dir_entry list option \<Rightarrow> string list" where
  "listDeployPreconditionMigrations dir =
     map fst (filter (\<lambda>(_, text). case text of None \<Rightarrow> False | Some raw \<Rightarrow> migrationDeclaresDeployPrecondition raw) (migrationFiles dir))"

definition pendingManualMigrations :: "dir_entry list option \<Rightarrow> string set \<Rightarrow> string list" where
  "pendingManualMigrations dir applied =
     map fst (filter (\<lambda>(f, text). f \<notin> applied \<and> (case text of None \<Rightarrow> False | Some raw \<Rightarrow> migrationMode raw = ''manual'')) (migrationFiles dir))"

section \<open>Ledger renames\<close>

definition file_char :: "char \<Rightarrow> bool" where
  "file_char c = (is_digit c \<or> is_alpha c \<or> c \<in> {CHR ''.'', CHR ''_'', CHR ''-''})"

definition quoted_file :: "string \<Rightarrow> (string \<times> string) option" where
  "quoted_file s = (case dropWhile is_ws s of
     c # r \<Rightarrow> let n = takeWhile (\<lambda>c. c \<noteq> CHR 0x27) r; e = dropWhile (\<lambda>c. c \<noteq> CHR 0x27) r in
       if c = CHR 0x27 \<and> e \<noteq> [] \<and> 4 < length n \<and> list_all file_char n \<and> ends_with n ''.sql'' then Some (n, tl e) else None
   | [] \<Rightarrow> None)"

definition rename_pair :: "string \<Rightarrow> (string \<times> string) option" where
  "rename_pair line = Option.bind (quoted_file line) (\<lambda>(a, r). case dropWhile is_ws r of
       c # r' \<Rightarrow> if c = CHR '':'' then Option.bind (quoted_file r') (\<lambda>(b, e). if trim e \<in> {[], '',''} then Some (a, b) else None) else None
     | [] \<Rightarrow> None)"

fun rename_lines :: "(string \<times> string) list \<Rightarrow> string list \<Rightarrow> (string \<times> string) list option" where
  "rename_lines renames [] = None"
| "rename_lines renames (l # ls) =
     (if trim l = ''};'' then Some renames
      else if trim l = [] \<or> prefix ''//'' (trim l) then rename_lines renames ls
      else case rename_pair l of
          None \<Rightarrow> None
        | Some (a, b) \<Rightarrow> if a = b \<or> a \<in> fst ` set renames then None else rename_lines (renames @ [(a, b)]) ls)"

definition opens_renames :: "string \<Rightarrow> bool" where
  "opens_renames l = (trim l = ''const MIGRATION_LEDGER_RENAMES = {'')"

text \<open>\<open>None\<close> is "absent" or "unparseable"; both re-key nothing.\<close>

definition readLedgerRenames :: "target_tree \<Rightarrow> (string \<times> string) list option" where
  "readLedgerRenames t = (case tt_registry t of
     RegistryText text \<Rightarrow> let ls = split_on (CHR 0x0A) text in
       if length (filter opens_renames ls) \<noteq> 1 then None else rename_lines [] (tl (dropWhile (\<lambda>l. \<not> opens_renames l) ls))
   | _ \<Rightarrow> None)"

definition readTargetLedgerRenames :: "target_tree \<Rightarrow> (string \<times> string) list" where
  "readTargetLedgerRenames t = (case readLedgerRenames t of None \<Rightarrow> [] | Some rs \<Rightarrow> rs)"

definition rekeyApplied :: "string set \<Rightarrow> (string \<times> string) list \<Rightarrow> string set" where
  "rekeyApplied applied renames =
     fold (\<lambda>(a, b) out. insert b (out - {a})) (filter (\<lambda>(a, b). a \<in> applied \<and> b \<notin> applied) renames) applied"

section \<open>Reading the ledger\<close>

definition LEDGER_TABLE :: string where "LEDGER_TABLE = ''schema_migrations''"

datatype db_state = LedgerRead "string set" | EmptyDatabase | UnreadableState

definition databaseLiteral :: "string \<Rightarrow> string option" where
  "databaseLiteral database = map_option quote (assertSafeDbIdentifier database)"

text \<open>The facts an indexer's schema embodies are a fixed text of UNION members per database.\<close>

definition appliedMigrationsSql :: "(string \<Rightarrow> string) \<Rightarrow> string \<Rightarrow> string \<Rightarrow> string" where
  "appliedMigrationsSql satisfied database ledgerTable =
     (let ledger = ''SELECT name FROM '' @ [CHR 0x60] @ database @ [CHR 0x60] @ ''.'' @ ledgerTable
      in if ends_with database ''_Indexer'' then ledger @ '' UNION '' @ satisfied database else ledger)"

definition name_lines :: "string \<Rightarrow> string set" where
  "name_lines out = set (filter (\<lambda>l. l \<noteq> []) (map trim (split_on (CHR 0x0A) out)))"

text \<open>\<open>run\<close> is the reply to a statement, \<open>None\<close> when it is rejected; no runner is no container.\<close>

definition readAppliedMigrations :: "(string \<Rightarrow> string) \<Rightarrow> (string \<Rightarrow> string option) option \<Rightarrow> string \<Rightarrow> db_state" where
  "readAppliedMigrations satisfied runner database = (case (databaseLiteral database, runner) of
     (Some lit, Some run) \<Rightarrow> (case Option.bind (run (tableCountSql lit)) countOf of
         None \<Rightarrow> UnreadableState
       | Some n \<Rightarrow> if n = 0 then EmptyDatabase
           else (case Option.bind (run (tableExistsSql lit (quote LEDGER_TABLE))) countOf of
               None \<Rightarrow> UnreadableState
             | Some k \<Rightarrow> if k = 0 then UnreadableState
                 else (case run (appliedMigrationsSql satisfied database LEDGER_TABLE) of
                     None \<Rightarrow> UnreadableState | Some out \<Rightarrow> LedgerRead (name_lines out))))
   | _ \<Rightarrow> UnreadableState)"

section \<open>Version order\<close>

text \<open>A segment's \<open>parseInt(s, 10) || 0\<close>; a missing one is zero. Segments are exact below \<open>2 ^ 53\<close>.\<close>

definition seg_value :: "string \<Rightarrow> int" where
  "seg_value s = (case parseInt10 s of None \<Rightarrow> 0 | Some i \<Rightarrow> i)"

fun compare_segs :: "int list \<Rightarrow> int list \<Rightarrow> int" where
  "compare_segs [] [] = 0"
| "compare_segs (a # as) [] = (if a < 0 then -1 else if 0 < a then 1 else compare_segs as [])"
| "compare_segs [] (b # bs) = (if 0 < b then -1 else if b < 0 then 1 else compare_segs [] bs)"
| "compare_segs (a # as) (b # bs) = (if a < b then -1 else if b < a then 1 else compare_segs as bs)"

definition version_segs :: "string \<Rightarrow> int list" where
  "version_segs v = map seg_value (split_on (CHR ''.'') (drop_v (trim v)))"

definition compareVersions :: "string \<Rightarrow> string \<Rightarrow> int" where
  "compareVersions a b = compare_segs (version_segs a) (version_segs b)"

section \<open>The hub guard\<close>

datatype guard_error = BadRequirement | HubUnreadable | HubBehind | NoDatabaseName | MigrationsUnknown | MigrationsMissing "string list"

definition HUB_DEPENDENT_MODULES :: "string list" where
  "HUB_DEPENDENT_MODULES = [XCHAIN_INDEXER, EXPLORER_MODULE_NAME, SYNC_MODULE_NAME]"

definition set_to_yes :: "string \<Rightarrow> bool" where
  "set_to_yes v = (v \<in> {''1'', ''true'', ''yes''})"

text \<open>A plain minimum version: \<open>v\<close>, then digit runs between single dots.\<close>

definition plain_version :: "string \<Rightarrow> bool" where
  "plain_version s = list_all (\<lambda>p. p \<noteq> [] \<and> list_all is_digit p) (split_on (CHR ''.'') (drop_v s))"

definition getRequiredHubVersion :: "json \<Rightarrow> guard_error + string option" where
  "getRequiredHubVersion pkg =
     (if \<not> is_object pkg then Inr None
      else case field pkg ''xchainRequiresHub'' of
          None \<Rightarrow> Inr None
        | Some JNull \<Rightarrow> Inr None
        | Some (JStr raw) \<Rightarrow> if raw = [] then Inr None
            else if plain_version (trim raw) then Inr (Some (drop_v (trim raw))) else Inl BadRequirement
        | Some _ \<Rightarrow> Inl BadRequirement)"

record guard_env =
  gd_skip_skew :: string
  gd_skip_migration :: string
  gd_tree :: "string \<Rightarrow> string option \<Rightarrow> target_tree option"
  gd_satisfied :: "string \<Rightarrow> string"
  gd_default_name :: "string \<Rightarrow> string \<Rightarrow> string \<Rightarrow> string option"
  gd_config :: "string \<Rightarrow> string \<Rightarrow> string \<Rightarrow> (string \<rightharpoonup> string) option"

text \<open>\<open>hub\<close> is the installed hub's version: \<open>None\<close> with no hub, \<open>Some None\<close> when it cannot be
  read. The value tells whether a constraint was checked.\<close>

definition assertHubNotBehind :: "guard_env \<Rightarrow> string option option \<Rightarrow> string \<Rightarrow> string option \<Rightarrow> guard_error + bool" where
  "assertHubNotBehind env hub md branch =
     (if md \<notin> set HUB_DEPENDENT_MODULES \<or> set_to_yes (gd_skip_skew env) then Inr False
      else case Option.bind (gd_tree env md branch) tt_package of
          None \<Rightarrow> Inr False
        | Some pkg \<Rightarrow> (case getRequiredHubVersion pkg of
            Inl e \<Rightarrow> Inl e
          | Inr req \<Rightarrow> (case truthy_text req of
              None \<Rightarrow> Inr False
            | Some requiredHub \<Rightarrow> (case hub of
                None \<Rightarrow> Inr True
              | Some None \<Rightarrow> Inl HubUnreadable
              | Some (Some hubVersion) \<Rightarrow> if compareVersions hubVersion requiredHub < 0 then Inl HubBehind else Inr True))))"

section \<open>The migration guard\<close>

definition MIGRATION_BEARING_MODULES :: "string list" where
  "MIGRATION_BEARING_MODULES = [XCHAIN_INDEXER, XCHAIN_DECODER]"

definition resolveCheckedDatabaseName :: "guard_env \<Rightarrow> string \<Rightarrow> string \<Rightarrow> string \<Rightarrow> string option" where
  "resolveCheckedDatabaseName env md coin network = (case gd_default_name env md coin network of
     None \<Rightarrow> None
   | Some dflt \<Rightarrow> (case Option.bind (gd_config env md coin network) (\<lambda>cfg. configuredDatabaseName md cfg dflt) of
       None \<Rightarrow> Some dflt | Some name \<Rightarrow> Some name))"

definition assertRequiredMigrationsApplied ::
    "guard_env \<Rightarrow> (string \<Rightarrow> string option) option \<Rightarrow> string \<Rightarrow> string \<Rightarrow> string \<Rightarrow> string option \<Rightarrow> guard_error + bool" where
  "assertRequiredMigrationsApplied env runner md coin network branch =
     (if md \<notin> set MIGRATION_BEARING_MODULES \<or> set_to_yes (gd_skip_migration env) then Inr False
      else case gd_tree env md branch of
          None \<Rightarrow> Inr False
        | Some t \<Rightarrow> let required = listDeployPreconditionMigrations (migrationsDirOf t) in
            if required = [] then Inr False
            else (case resolveCheckedDatabaseName env md coin network of
                None \<Rightarrow> Inl NoDatabaseName
              | Some dbName \<Rightarrow> (case readAppliedMigrations (gd_satisfied env) runner dbName of
                  EmptyDatabase \<Rightarrow> Inr True
                | UnreadableState \<Rightarrow> Inl MigrationsUnknown
                | LedgerRead names \<Rightarrow>
                    let missing = filter (\<lambda>f. f \<notin> rekeyApplied names (readTargetLedgerRenames t)) required in
                    if missing \<noteq> [] then Inl (MigrationsMissing missing) else Inr True)))"

section \<open>Facts about the order\<close>

definition at_least :: "string \<Rightarrow> string \<Rightarrow> bool" where
  "at_least a b = (0 \<le> compareVersions a b)"

fun pad :: "nat \<Rightarrow> int list \<Rightarrow> int list" where
  "pad 0 xs = []"
| "pad (Suc n) [] = 0 # pad n []"
| "pad (Suc n) (x # xs) = x # pad n xs"

fun lex_cmp :: "int list \<Rightarrow> int list \<Rightarrow> int" where
  "lex_cmp (a # as) (b # bs) = (if a < b then -1 else if b < a then 1 else lex_cmp as bs)"
| "lex_cmp _ _ = 0"

lemma compare_pad: "max (length as) (length bs) \<le> n \<Longrightarrow> compare_segs as bs = lex_cmp (pad n as) (pad n bs)"
proof (induction as bs arbitrary: n rule: compare_segs.induct)
  case 1 then show ?case by (induction n) auto
next
  case (2 a as) then show ?case by (cases n) auto
next
  case (3 b bs) then show ?case by (cases n) auto
next
  case (4 a as b bs) then show ?case by (cases n) auto
qed

lemma lex_trans: "length xs = length ys \<Longrightarrow> length ys = length zs \<Longrightarrow> 0 \<le> lex_cmp xs ys \<Longrightarrow> 0 \<le> lex_cmp ys zs \<Longrightarrow> 0 \<le> lex_cmp xs zs"
proof (induction xs ys arbitrary: zs rule: list_induct2)
  case (Cons x xs y ys)
  then obtain z zs' where zs: "zs = z # zs'" "length ys = length zs'" by (cases zs) auto
  have "y \<le> x" "z \<le> y" using Cons.prems(2,3) zs(1) by (simp_all split: if_splits)
  moreover have "0 \<le> lex_cmp xs zs'" if "x = z"
    using Cons.IH [OF zs(2)] Cons.prems(2,3) zs(1) calculation that by simp
  ultimately show ?case using zs(1) by auto
qed simp

lemma length_pad [simp]: "length (pad n xs) = n"
  by (induction n xs rule: pad.induct) auto

lemma compare_trans: "0 \<le> compare_segs as bs \<Longrightarrow> 0 \<le> compare_segs bs cs \<Longrightarrow> 0 \<le> compare_segs as cs"
proof -
  assume le: "0 \<le> compare_segs as bs" "0 \<le> compare_segs bs cs"
  define n where "n = length as + length bs + length cs"
  have c: "compare_segs xs ys = lex_cmp (pad n xs) (pad n ys)" if "length xs \<le> n" "length ys \<le> n" for xs ys
    using that by (intro compare_pad) simp
  show ?thesis using le lex_trans [of "pad n as" "pad n bs" "pad n cs"] by (simp add: c n_def)
qed

lemma at_least_trans: "at_least a b \<Longrightarrow> at_least b c \<Longrightarrow> at_least a c"
  using compare_trans unfolding at_least_def compareVersions_def by blast

section \<open>What the migration guard lets through\<close>

text \<open>What a database holds: its tables, whether it has a ledger, and the names its applied
  statement lists. Relied on: a statement that is answered prints these.\<close>

record db_facts =
  df_tables :: nat
  df_ledger :: bool
  df_names :: "string list"

definition plain_name :: "string \<Rightarrow> bool" where
  "plain_name n = (n \<noteq> [] \<and> trim n = n \<and> CHR 0x0A \<notin> set n)"

definition replies_truthful :: "(string \<Rightarrow> string) \<Rightarrow> (string \<Rightarrow> string option) \<Rightarrow> string \<Rightarrow> db_facts \<Rightarrow> bool" where
  "replies_truthful satisfied run db facts = ((\<forall>n\<in>set (df_names facts). plain_name n) \<and> (\<forall>out.
     (run (tableCountSql (quote db)) = Some out \<longrightarrow> out = show_nat (df_tables facts) @ [CHR 0x0A])
   \<and> (run (tableExistsSql (quote db) (quote LEDGER_TABLE)) = Some out \<longrightarrow> out = show_nat (if df_ledger facts then 1 else 0) @ [CHR 0x0A])
   \<and> (run (appliedMigrationsSql satisfied db LEDGER_TABLE) = Some out \<longrightarrow> out = concat (map (\<lambda>n. n @ [CHR 0x0A]) (df_names facts)))))"

lemma name_lines_printed: "\<forall>n\<in>set ns. plain_name n \<Longrightarrow> name_lines (concat (map (\<lambda>n. n @ [CHR 0x0A]) ns)) = set ns"
proof (induction ns)
  case Nil then show ?case by (simp add: name_lines_def trim_def trim_start_def)
next
  case (Cons n ns)
  then have "n \<noteq> []" "trim n = n" "CHR 0x0A \<notin> set n" by (simp_all add: plain_name_def)
  then have "name_lines (n @ CHR 0x0A # s) = insert n (name_lines s)" for s
    unfolding name_lines_def by (simp add: split_on_append)
  then show ?case using Cons by simp
qed

text \<open>A name counts when it is recorded, or when it is the new name of one that is.\<close>

definition recorded :: "target_tree \<Rightarrow> string list \<Rightarrow> string \<Rightarrow> bool" where
  "recorded t names f = (f \<in> set names \<or> (\<exists>old. (old, f) \<in> set (readTargetLedgerRenames t) \<and> old \<in> set names))"

lemma rekey_sound: "f \<in> rekeyApplied A rs \<Longrightarrow> f \<in> A \<or> (\<exists>a\<in>A. (a, f) \<in> set rs)"
proof -
  have "f \<in> fold (\<lambda>(a, b) out. insert b (out - {a})) ops S \<Longrightarrow> f \<in> S \<or> (\<exists>a. (a, f) \<in> set ops)" for ops S
    by (induction ops arbitrary: S) force+
  then show "f \<in> rekeyApplied A rs \<Longrightarrow> f \<in> A \<or> (\<exists>a\<in>A. (a, f) \<in> set rs)"
    unfolding rekeyApplied_def by fastforce
qed

lemma ledger_reading:
  assumes "replies_truthful satisfied run db facts"
  shows "readAppliedMigrations satisfied (Some run) db = EmptyDatabase \<Longrightarrow> df_tables facts = 0"
    and "readAppliedMigrations satisfied (Some run) db = LedgerRead names \<Longrightarrow> df_ledger facts \<and> names = set (df_names facts)"
proof -
  have lit: "databaseLiteral db = Some l \<Longrightarrow> l = quote db" for l
    by (auto simp: databaseLiteral_def assertSafeDbIdentifier_def split: if_splits)
  have tables: "run (tableCountSql (quote db)) = Some out \<Longrightarrow> countOf out = Some (int (df_tables facts))" for out
    using assms unfolding replies_truthful_def by (metis countOf_number)
  have ledger: "run (tableExistsSql (quote db) (quote LEDGER_TABLE)) = Some out \<Longrightarrow> countOf out = Some (int (if df_ledger facts then 1 else 0))" for out
    using assms unfolding replies_truthful_def by (metis countOf_number)
  have names: "run (appliedMigrationsSql satisfied db LEDGER_TABLE) = Some out \<Longrightarrow> name_lines out = set (df_names facts)" for out
    using assms name_lines_printed unfolding replies_truthful_def by metis
  show "df_tables facts = 0" if "readAppliedMigrations satisfied (Some run) db = EmptyDatabase"
    using that lit tables by (auto simp: readAppliedMigrations_def Option.bind_eq_Some_conv split: option.splits if_splits)
  show "df_ledger facts \<and> names = set (df_names facts)" if "readAppliedMigrations satisfied (Some run) db = LedgerRead names"
    using that lit ledger names by (auto simp: readAppliedMigrations_def Option.bind_eq_Some_conv split: option.splits if_splits)
qed


definition demo_migration :: string where
  "demo_migration = ''-- Widen a key'' @ [CHR 0x0A] @ ''-- xchain:migration mode=manual deploy-precondition=required'' @ [CHR 0x0A] @ ''ALTER TABLE pubkeys;''"

definition demo_registry :: string where
  "demo_registry = ''const MIGRATION_LEDGER_RENAMES = {'' @ [CHR 0x0A] @ ''  '' @ [CHR 0x27] @ ''a.sql'' @ [CHR 0x27] @ '': '' @ [CHR 0x27] @ ''widen.sql'' @ [CHR 0x27]
     @ '','' @ [CHR 0x0A] @ ''};'' @ [CHR 0x0A]"

definition demo_tree :: target_tree where
  "demo_tree = \<lparr>tt_package = Some (JObj [(''xchainRequiresHub'', JStr ''2.10'')]), tt_moved = None,
     tt_flat = Some [FileEntry ''widen.sql'' (Some demo_migration), FileEntry ''other.sql'' (Some ''SELECT 1'')],
     tt_registry = RegistryText demo_registry\<rparr>"

definition demo_guard_env :: guard_env where
  "demo_guard_env = \<lparr>gd_skip_skew = [], gd_skip_migration = [], gd_tree = (\<lambda>_ _. Some demo_tree), gd_satisfied = (\<lambda>_. ''SELECT 1''),
     gd_default_name = (\<lambda>_ _ _. Some ''XChain_BTC_Regtest_Indexer''), gd_config = (\<lambda>_ _ _. None)\<rparr>"

definition demo_facts :: db_facts where
  "demo_facts = \<lparr>df_tables = 3, df_ledger = True, df_names = [''a.sql'', ''b.sql'']\<rparr>"

definition demo_db_run :: "string \<Rightarrow> string option" where
  "demo_db_run q = (if q = tableCountSql (quote ''XChain_BTC_Regtest_Indexer'') then Some (show_nat 3 @ [CHR 0x0A])
     else if q = tableExistsSql (quote ''XChain_BTC_Regtest_Indexer'') (quote LEDGER_TABLE) then Some (show_nat 1 @ [CHR 0x0A])
     else Some (''a.sql'' @ [CHR 0x0A] @ ''b.sql'' @ [CHR 0x0A]))"

lemma demo_queries:
  "tableExistsSql (quote d) t \<noteq> tableCountSql (quote d)"
  "appliedMigrationsSql s d' t' \<noteq> tableCountSql (quote d)" "appliedMigrationsSql s d' t' \<noteq> tableExistsSql (quote d) t"
  by (simp_all add: tableExistsSql_def tableCountSql_def appliedMigrationsSql_def Let_def)

lemma demo_replies: "replies_truthful (gd_satisfied demo_guard_env) demo_db_run ''XChain_BTC_Regtest_Indexer'' demo_facts"
proof -
  have "plain_name ''a.sql'' \<and> plain_name ''b.sql''" by code_simp
  then show ?thesis
    by (simp add: replies_truthful_def demo_db_run_def demo_queries demo_facts_def del: show_nat.simps)
qed

lemma demo_guard_passes:
  "assertRequiredMigrationsApplied demo_guard_env (Some demo_db_run) XCHAIN_INDEXER ''bitcoin'' ''regtest'' None = Inr True"
  "resolveCheckedDatabaseName demo_guard_env XCHAIN_INDEXER ''bitcoin'' ''regtest'' = Some ''XChain_BTC_Regtest_Indexer''"
  "listDeployPreconditionMigrations (migrationsDirOf demo_tree) = [''widen.sql'']"
  by code_simp+


section \<open>What the hub guard lets through\<close>

definition hub_satisfies :: "guard_env \<Rightarrow> string option option \<Rightarrow> string \<Rightarrow> string option \<Rightarrow> bool" where
  "hub_satisfies env hub md branch = (md \<notin> set HUB_DEPENDENT_MODULES \<or> set_to_yes (gd_skip_skew env) \<or> hub = None
     \<or> (case Option.bind (gd_tree env md branch) tt_package of None \<Rightarrow> True
        | Some pkg \<Rightarrow> (\<forall>req. getRequiredHubVersion pkg = Inr (Some req) \<longrightarrow> req = [] \<or> (\<exists>h. hub = Some (Some h) \<and> at_least h req))))"

lemma hub_guard_sound: "assertHubNotBehind env hub md branch = Inr b \<Longrightarrow> hub_satisfies env hub md branch"
  by (auto simp: assertHubNotBehind_def hub_satisfies_def at_least_def truthy_text_def split: if_splits option.splits sum.splits)

text \<open>A newer hub never turns an admitted update into a refused one.\<close>

lemma hub_guard_monotone:
  assumes "assertHubNotBehind env (Some (Some h)) md branch = Inr b" "at_least h' h"
  shows "assertHubNotBehind env (Some (Some h')) md branch = Inr b"
proof -
  have "\<not> compareVersions h' r < 0" if "\<not> compareVersions h r < 0" for r
    using at_least_trans [OF assms(2), of r] that by (simp add: at_least_def)
  then show ?thesis using assms(1) unfolding assertHubNotBehind_def
    by (auto split: if_splits option.splits sum.splits)
qed

end
