(* ===== verification/Updates.thy ===== *)
theory Updates
  imports UpdateGuards StopBudget JsPretty "HOL-Library.Sublist"
begin

text \<open>
  The update command: \<open>operations/module_operations/update_modules.js\<close>, the target it converges
  on (\<open>services/install_target_service.js\<close>, \<open>withInstallTarget\<close> of \<open>repo_refs.js\<close>) and the order
  of a run. The stack is an abstract state that a rebuild changes; the reads of it are fields of
  the environment. The log keeps every call of \<open>installModule\<close> with the state it started from.
\<close>

section \<open>The remembered target\<close>

datatype target_kind = Release | Branch

record install_record =
  ir_kind :: target_kind
  ir_ref :: string
  ir_tag :: "string option"

definition kind_text :: "target_kind \<Rightarrow> string" where
  "kind_text k = (case k of Release \<Rightarrow> ''release'' | Branch \<Rightarrow> ''branch'')"

definition json_or_null :: "string option \<Rightarrow> json" where
  "json_or_null v = (case v of None \<Rightarrow> JNull | Some s \<Rightarrow> JStr s)"

text \<open>What \<open>recordInstallTarget\<close> writes, at the time and by the version given; the file stays as
  it was when the write fails.\<close>

definition target_json :: "string \<Rightarrow> string \<Rightarrow> install_record \<Rightarrow> json" where
  "target_json now version t = JObj [
     (''kind'', JStr (kind_text (ir_kind t))), (''ref'', JStr (ir_ref t)),
     (''tag'', if ir_kind t = Release then JStr (case truthy_text (ir_tag t) of Some tag \<Rightarrow> tag | None \<Rightarrow> ir_ref t) else JNull),
     (''recordedAt'', JStr now), (''recordedBy'', JStr version)]"

definition recordInstallTarget :: "bool \<Rightarrow> string \<Rightarrow> string \<Rightarrow> install_record \<Rightarrow> string option \<Rightarrow> string option" where
  "recordInstallTarget write_ok now version t file =
     (if ir_ref t = [] \<or> \<not> write_ok then file else Some (pretty 0 (target_json now version t) @ [CHR 0x0A]))"

definition text_field :: "json \<Rightarrow> string \<Rightarrow> string option" where
  "text_field v k = (case field v k of Some (JStr s) \<Rightarrow> truthy_text (Some s) | _ \<Rightarrow> None)"

text \<open>\<open>ref\<close> and \<open>tag\<close> are strings, as the file is written.\<close>

definition readInstallTarget :: "string option \<Rightarrow> install_record option" where
  "readInstallTarget file = (case Option.bind file json_parse of
     None \<Rightarrow> None
   | Some r \<Rightarrow> (case (text_field r ''kind'', text_field r ''ref'') of
       (Some k, Some ref) \<Rightarrow>
         if k = ''release'' then Some \<lparr>ir_kind = Release, ir_ref = ref, ir_tag = text_field r ''tag''\<rparr>
         else if k = ''branch'' then Some \<lparr>ir_kind = Branch, ir_ref = ref, ir_tag = text_field r ''tag''\<rparr> else None
     | _ \<Rightarrow> None))"

text \<open>The branch of the first checkout on one; a release otherwise. \<open>None\<close> is a checkout git
  cannot read.\<close>

definition inferInstallTarget :: "string option list \<Rightarrow> target_kind \<times> string option" where
  "inferInstallTarget branches = (case find (\<lambda>b. b \<noteq> None \<and> b \<noteq> Some [] \<and> b \<noteq> Some ''HEAD'') branches of
     Some (Some b) \<Rightarrow> (Branch, Some b) | _ \<Rightarrow> (Release, None))"

definition resolveUpdateTarget :: "string option \<Rightarrow> string option list \<Rightarrow> target_kind \<times> string option" where
  "resolveUpdateTarget file branches = (case readInstallTarget file of
     Some t \<Rightarrow> (ir_kind t, Some (ir_ref t)) | None \<Rightarrow> inferInstallTarget branches)"

section \<open>A run\<close>

type_synonym service = "string \<times> string \<times> string"
type_synonym services_list = "(string \<times> (string \<times> string list) list) list"

datatype update_error = NoDataDir | TargetError release_error | PinError release_error | Refused guard_error
  | InstallError | CredentialDrift string string

datatype skip_reason = NotUpdatable | NotInstalled | Current | NoOp

record 's update_env =
  ue_guard :: guard_env
  ue_release :: release_env
  ue_default_branch :: string
  ue_data_dir :: string
  ue_update_target :: "string option"
  ue_now :: string
  ue_write :: bool
  ue_checkouts :: "string option list"
  ue_container :: "'s \<Rightarrow> service \<Rightarrow> string option"
  ue_hub :: "'s \<Rightarrow> string option option"
  ue_db :: "'s \<Rightarrow> service \<Rightarrow> (string \<Rightarrow> string option) option"
  ue_branch :: "'s \<Rightarrow> string \<Rightarrow> string option"
  ue_current :: "'s \<Rightarrow> service \<Rightarrow> bool"
  ue_repair :: "'s \<Rightarrow> 's"
  ue_install :: "'s \<Rightarrow> service \<Rightarrow> string option \<Rightarrow> (update_error + bool) \<times> 's"

record 's update_world =
  uw_state :: 's
  uw_target :: "string option"
  uw_updated :: "service list"
  uw_skipped :: "(service \<times> skip_reason) list"
  uw_failed :: "service list"
  uw_log :: "(service \<times> string option \<times> 's) list"

type_synonym ('s, 'a) update_run = "(update_error, 'a, 's update_world) run_result"

definition list_services :: "services_list \<Rightarrow> service list" where
  "list_services l = concat (map (\<lambda>(coin, nets). concat (map (\<lambda>(net, ms). map (\<lambda>m. (m, coin, net)) ms) nets)) l)"

definition shared_of :: "services_list \<Rightarrow> string list" where
  "shared_of l = (case Option.bind (map_of l []) (\<lambda>nets. map_of nets []) of None \<Rightarrow> [] | Some ms \<Rightarrow> ms)"

definition includeSharedServicesForUpdate :: "services_list \<Rightarrow> services_list" where
  "includeSharedServicesForUpdate l =
     ([], [([], [HUB_MODULE_NAME, SYNC_MODULE_NAME] @ filter (\<lambda>m. m \<noteq> HUB_MODULE_NAME \<and> m \<noteq> SYNC_MODULE_NAME) (shared_of l))])
     # filter (\<lambda>(coin, _). coin \<noteq> []) l"

definition assertNodeDataDirSetForUpdate :: "'s update_env \<Rightarrow> services_list \<Rightarrow> update_error + unit" where
  "assertNodeDataDirSetForUpdate env l =
     (if (\<exists>k\<in>set (list_services l). fst k = NODE_MODULE_NAME) \<and> trim (ue_data_dir env) = [] then Inl NoDataDir else Inr ())"

definition repairValidatorConfigBeforeHubUpdate :: "'s update_env \<Rightarrow> services_list \<Rightarrow> 's update_world \<Rightarrow> 's update_world" where
  "repairValidatorConfigBeforeHubUpdate env l w =
     (if HUB_MODULE_NAME \<in> set (shared_of l) then w\<lparr>uw_state := ue_repair env (uw_state w)\<rparr> else w)"

definition skip :: "service \<Rightarrow> skip_reason \<Rightarrow> 's update_world \<Rightarrow> (unit \<times> 's update_world)" where
  "skip k r w = ((), w\<lparr>uw_skipped := uw_skipped w @ [(k, r)]\<rparr>)"

definition installModule :: "'s update_env \<Rightarrow> service \<Rightarrow> string option \<Rightarrow> 's update_world \<Rightarrow> ('s, bool) update_run" where
  "installModule env k branch w = (case ue_install env (uw_state w) k branch of
     (x, s) \<Rightarrow> (x, w\<lparr>uw_state := s, uw_log := uw_log w @ [(k, branch, uw_state w)]\<rparr>))"

definition recordInstallOutcome :: "service \<Rightarrow> bool \<Rightarrow> 's update_world \<Rightarrow> 's update_world" where
  "recordInstallOutcome k built w =
     (if built then w\<lparr>uw_updated := uw_updated w @ [k]\<rparr> else w\<lparr>uw_skipped := uw_skipped w @ [(k, NoOp)]\<rparr>)"

text \<open>A rebuild that failed only on the credentials of another chain counts as done.\<close>

definition recordCredentialPartialOutcome :: "'s update_env \<Rightarrow> update_error \<Rightarrow> service \<Rightarrow> string option \<Rightarrow> 's update_world \<Rightarrow> ('s, unit) update_run" where
  "recordCredentialPartialOutcome env err k previous w = (case (err, k) of
     (CredentialDrift dc dn, (m, coin, net)) \<Rightarrow>
       (let current = truthy_text (ue_container env (uw_state w) k) in
        if dc = coin \<and> dn = net \<or> current = None \<or> current = previous then (Inl err, w)
        else (Inr (), w\<lparr>uw_updated := uw_updated w @ [k], uw_failed := uw_failed w @ [(m, dc, dn)]\<rparr>))
   | _ \<Rightarrow> (Inl err, w))"

definition guards :: "'s update_env \<Rightarrow> service \<Rightarrow> string option \<Rightarrow> 's \<Rightarrow> guard_error + unit" where
  "guards env k ref s = (case k of (m, coin, net) \<Rightarrow>
     (case assertHubNotBehind (ue_guard env) (ue_hub env s) m ref of
        Inl e \<Rightarrow> Inl e
      | Inr _ \<Rightarrow> (case assertRequiredMigrationsApplied (ue_guard env) (ue_db env s k) m coin net ref of
          Inl e \<Rightarrow> Inl e | Inr _ \<Rightarrow> Inr ())))"

definition passesUpdateGuards :: "'s update_env \<Rightarrow> bool \<Rightarrow> service \<Rightarrow> string option \<Rightarrow> 's update_world \<Rightarrow> ('s, bool) update_run" where
  "passesUpdateGuards env continueOnRefusal k ref w = (case guards env k ref (uw_state w) of
     Inr _ \<Rightarrow> (Inr True, w)
   | Inl e \<Rightarrow> if \<not> continueOnRefusal then (Inl (Refused e), w) else (Inr False, w\<lparr>uw_failed := uw_failed w @ [k]\<rparr>))"

text \<open>A ref from the manifest or the branch the module is to be at.\<close>

definition module_branch :: "'s update_env \<Rightarrow> string option \<Rightarrow> string \<Rightarrow> 's \<Rightarrow> string option" where
  "module_branch env branch m s = (case truthy_text branch of
     Some b \<Rightarrow> Some b
   | None \<Rightarrow> let b = ue_branch env s m in if b = Some ''HEAD'' then None else b)"

definition rebuild_service :: "'s update_env \<Rightarrow> install_target option \<Rightarrow> bool \<Rightarrow> string option \<Rightarrow> service \<Rightarrow> 's update_world \<Rightarrow> ('s, unit) update_run" where
  "rebuild_service env active all branch k w =
     (let mb = module_branch env branch (fst k) (uw_state w) in
      case resolveComponentRef active (fst k) mb of
        Inl e \<Rightarrow> (Inl (PinError e), w)
      | Inr pin \<Rightarrow> attempt (passesUpdateGuards env all k (cr_ref pin) w) (\<lambda>passed w.
          if \<not> passed then (Inr (), w)
          else attempt (installModule env k mb w) (\<lambda>built w. (Inr (), recordInstallOutcome k built w))))"

definition update_service :: "'s update_env \<Rightarrow> install_target option \<Rightarrow> bool \<Rightarrow> string option \<Rightarrow> service \<Rightarrow> 's update_world \<Rightarrow> ('s, unit) update_run" where
  "update_service env active all branch k w =
     (let previous = truthy_text (ue_container env (uw_state w) k) in
      if fst k = DB_MODULE_NAME then (Inr (), snd (skip k NotUpdatable w))
      else if fst k = NODE_MODULE_NAME then
        (if previous = None \<and> all then (Inr (), snd (skip k NotInstalled w))
         else if all \<and> previous \<noteq> None \<and> ue_current env (uw_state w) k then (Inr (), snd (skip k Current w))
         else attempt (installModule env k None w) (\<lambda>built w. (Inr (), recordInstallOutcome k built w)))
      else if previous = None then (Inr (), snd (skip k NotInstalled w))
      else case rebuild_service env active all branch k w of
          (Inr _, w') \<Rightarrow> (Inr (), w')
        | (Inl err, w') \<Rightarrow> recordCredentialPartialOutcome env err k previous w')"

fun update_services :: "'s update_env \<Rightarrow> install_target option \<Rightarrow> bool \<Rightarrow> string option \<Rightarrow> service list \<Rightarrow> 's update_world \<Rightarrow> ('s, unit) update_run" where
  "update_services env active all branch [] w = (Inr (), w)"
| "update_services env active all branch (k # ks) w =
     attempt (update_service env active all branch k w) (\<lambda>_ w. update_services env active all branch ks w)"

definition record_target :: "'s update_env \<Rightarrow> install_record \<Rightarrow> 's update_world \<Rightarrow> 's update_world" where
  "record_target env t w = w\<lparr>uw_target := recordInstallTarget (ue_write env) (ue_now env) (re_version (ue_release env)) t (uw_target w)\<rparr>"

definition withInstallTarget :: "'s update_env \<Rightarrow> string option \<Rightarrow> bool \<Rightarrow> services_list \<Rightarrow> bool \<Rightarrow> 's update_world \<Rightarrow> ('s, unit) update_run" where
  "withInstallTarget env ref fallbackToBranch l all w =
     (case resolveInstallTarget (ue_release env) (ue_default_branch env) fallbackToBranch ref of
        Inl e \<Rightarrow> (Inl (TargetError e), w)
      | Inr target \<Rightarrow>
          let t = (case target of ReleaseTarget tag _ \<Rightarrow> \<lparr>ir_kind = Release, ir_ref = tag, ir_tag = Some tag\<rparr>
                   | BranchTarget b \<Rightarrow> \<lparr>ir_kind = Branch, ir_ref = b, ir_tag = None\<rparr>)
          in update_services env (Some target) all None (list_services l) (record_target env t w))"

definition update_branch :: "'s update_env \<Rightarrow> string \<Rightarrow> services_list \<Rightarrow> bool \<Rightarrow> 's update_world \<Rightarrow> ('s, unit) update_run" where
  "update_branch env b l all w =
     update_services env None all (Some b) (list_services l) (record_target env \<lparr>ir_kind = Branch, ir_ref = b, ir_tag = None\<rparr> w)"

definition updateModules :: "'s update_env \<Rightarrow> services_list \<Rightarrow> string option \<Rightarrow> bool \<Rightarrow> 's update_world \<Rightarrow> ('s, unit) update_run" where
  "updateModules env servicesList ref all w =
     (let l = (if all then includeSharedServicesForUpdate servicesList else servicesList) in
      case assertNodeDataDirSetForUpdate env l of
        Inl e \<Rightarrow> (Inl e, w)
      | Inr _ \<Rightarrow>
          let w = repairValidatorConfigBeforeHubUpdate env l w in
          if isReleaseRef ref then withInstallTarget env ref True l all w
          else case truthy_text ref of
              Some b \<Rightarrow> update_branch env b l all w
            | None \<Rightarrow> (case truthy_text (ue_update_target env) of
                Some t \<Rightarrow> withInstallTarget env (Some t) False l all w
              | None \<Rightarrow> (case resolveUpdateTarget (uw_target w) (ue_checkouts env) of
                  (Branch, Some b) \<Rightarrow> update_branch env b l all w
                | _ \<Rightarrow> withInstallTarget env None False l all w)))"

section \<open>The record is read back\<close>

lemma read_recorded_target:
  assumes "ir_ref t \<noteq> []"
  shows "readInstallTarget (recordInstallTarget True now version t file)
    = Some (t\<lparr>ir_tag := if ir_kind t = Release then Some (case truthy_text (ir_tag t) of Some tag \<Rightarrow> tag | None \<Rightarrow> ir_ref t) else None\<rparr>)"
proof -
  have "plain (target_json now version t)" by (cases "ir_kind t") (auto simp: target_json_def)
  then have "json_parse (pretty 0 (target_json now version t) @ [CHR 0x0A]) = Some (target_json now version t)"
    by (rule json_parse_pretty) (simp add: blank_def is_ws_def json_ws_def)
  moreover have "text_field (target_json now version t) ''kind'' = Some (kind_text (ir_kind t))" "text_field (target_json now version t) ''ref'' = Some (ir_ref t)"
    using assms by (simp_all add: text_field_def target_json_def field_def JsPrelude.fields_def kind_text_def truthy_text_def split: target_kind.splits)
  moreover have "text_field (target_json now version t) ''tag'' = (if ir_kind t = Release then Some (case truthy_text (ir_tag t) of Some tag \<Rightarrow> tag | None \<Rightarrow> ir_ref t) else None)"
    using assms by (auto simp: text_field_def target_json_def field_def JsPrelude.fields_def truthy_text_def split: option.splits)
  moreover have "recordInstallTarget True now version t file = Some (pretty 0 (target_json now version t) @ [CHR 0x0A])"
    using assms by (simp add: recordInstallTarget_def)
  moreover have "kind_text Release = ''release''" "kind_text Branch = ''branch''" by (simp_all add: kind_text_def)
  ultimately show ?thesis
    by (cases t; cases "ir_kind t") (simp_all add: readInstallTarget_def)
qed

section \<open>What a run rebuilds\<close>

definition past_guards :: "'s update_env \<Rightarrow> install_target option \<Rightarrow> service \<Rightarrow> string option \<Rightarrow> 's \<Rightarrow> bool" where
  "past_guards env active k b s = (fst k \<noteq> DB_MODULE_NAME \<and> (fst k = NODE_MODULE_NAME \<or>
     (\<exists>pin c. resolveComponentRef active (fst k) b = Inr pin
        \<and> hub_satisfies (ue_guard env) (ue_hub env s) (fst k) (cr_ref pin)
        \<and> assertRequiredMigrationsApplied (ue_guard env) (ue_db env s k) (fst k) (fst (snd k)) (snd (snd k)) (cr_ref pin) = Inr c)))"

definition rebuilt :: "'s update_env \<Rightarrow> install_target option \<Rightarrow> service list \<Rightarrow> 's update_world \<Rightarrow> 's update_world \<Rightarrow> bool" where
  "rebuilt env active ks w w' = (\<exists>new done_now. uw_log w' = uw_log w @ new \<and> (\<forall>(k, b, s)\<in>set new. past_guards env active k b s)
     \<and> subseq (map fst new) ks \<and> uw_updated w' = uw_updated w @ done_now \<and> subseq done_now (map fst new))"

lemma rebuilt_none: "uw_log w' = uw_log w \<Longrightarrow> uw_updated w' = uw_updated w \<Longrightarrow> rebuilt env active ks w w'"
  unfolding rebuilt_def by (intro exI [of _ "[]"]) simp

lemma rebuilt_append:
  assumes "rebuilt env active ks w w1" "rebuilt env active ls w1 w2"
  shows "rebuilt env active (ks @ ls) w w2"
proof -
  obtain n1 d1 n2 d2 where "uw_log w1 = uw_log w @ n1" "\<forall>(k, b, s)\<in>set n1. past_guards env active k b s" "subseq (map fst n1) ks"
      "uw_updated w1 = uw_updated w @ d1" "subseq d1 (map fst n1)"
      "uw_log w2 = uw_log w1 @ n2" "\<forall>(k, b, s)\<in>set n2. past_guards env active k b s" "subseq (map fst n2) ls"
      "uw_updated w2 = uw_updated w1 @ d2" "subseq d2 (map fst n2)"
    using assms unfolding rebuilt_def by blast
  then show ?thesis unfolding rebuilt_def
    by (intro exI [of _ "n1 @ n2"] exI [of _ "d1 @ d2"]) (auto intro: list_emb_append_mono)
qed

lemma install_rebuilt:
  assumes "past_guards env active k b (uw_state w)"
  shows "ensures (attempt (installModule env k b w) (\<lambda>built w. (Inr (), recordInstallOutcome k built w))) (\<lambda>x w'.
     rebuilt env active [k] w w' \<and> (\<forall>w2. (\<exists>e. x = Inl e) \<longrightarrow> uw_log w2 = uw_log w' \<longrightarrow> uw_updated w2 = uw_updated w' @ [k] \<longrightarrow> rebuilt env active [k] w w2))"
proof -
  obtain x s where i: "ue_install env (uw_state w) k b = (x, s)" by fastforce
  have "rebuilt env active [k] w w1" if "uw_log w1 = uw_log w @ [(k, b, uw_state w)]" "uw_updated w1 = uw_updated w \<or> uw_updated w1 = uw_updated w @ [k]" for w1 :: "'a update_world"
    unfolding rebuilt_def
    by (intro exI [of _ "[(k, b, uw_state w)]"] exI [of _ "drop (length (uw_updated w)) (uw_updated w1)"]) (use that assms in auto)
  then show ?thesis unfolding installModule_def i
    by (cases x) (auto simp: attempt_def recordInstallOutcome_def)
qed

lemma guards_pass:
  assumes "guards env k ref s = Inr u"
  shows "hub_satisfies (ue_guard env) (ue_hub env s) (fst k) ref
    \<and> (\<exists>c. assertRequiredMigrationsApplied (ue_guard env) (ue_db env s k) (fst k) (fst (snd k)) (snd (snd k)) ref = Inr c)"
  using assms hub_guard_sound by (cases k) (auto simp: guards_def split: sum.splits)

lemma rebuild_service_rebuilt:
  assumes "fst k \<noteq> DB_MODULE_NAME"
  shows "ensures (rebuild_service env active all branch k w) (\<lambda>x w'. rebuilt env active [k] w w'
     \<and> (\<forall>w2. (\<exists>dc dn. x = Inl (CredentialDrift dc dn)) \<longrightarrow> uw_log w2 = uw_log w' \<longrightarrow> uw_updated w2 = uw_updated w' @ [k] \<longrightarrow> rebuilt env active [k] w w2))"
proof -
  let ?mb = "module_branch env branch (fst k) (uw_state w)"
  show ?thesis
  proof (cases "resolveComponentRef active (fst k) ?mb")
    case (Inl e) then show ?thesis by (simp add: rebuild_service_def Let_def rebuilt_none)
  next
    case (Inr pin)
    show ?thesis
    proof (cases "guards env k (cr_ref pin) (uw_state w)")
      case (Inl e)
      then show ?thesis using Inr by (simp add: rebuild_service_def Let_def passesUpdateGuards_def attempt_def rebuilt_none)
    next
      case (Inr u)
      then have "past_guards env active k ?mb (uw_state w)"
        using guards_pass [OF Inr] assms \<open>resolveComponentRef active (fst k) ?mb = Inr pin\<close> by (auto simp: past_guards_def)
      then have "ensures (attempt (installModule env k ?mb w) (\<lambda>built w. (Inr (), recordInstallOutcome k built w))) (\<lambda>x w'. rebuilt env active [k] w w'
         \<and> (\<forall>w2. (\<exists>dc dn. x = Inl (CredentialDrift dc dn)) \<longrightarrow> uw_log w2 = uw_log w' \<longrightarrow> uw_updated w2 = uw_updated w' @ [k] \<longrightarrow> rebuilt env active [k] w w2))"
        by (rule ensures_weaken [OF install_rebuilt]) blast
      then show ?thesis using Inr \<open>resolveComponentRef active (fst k) ?mb = Inr pin\<close>
        by (simp add: rebuild_service_def Let_def passesUpdateGuards_def attempt_def [of "(Inr True, w)"])
    qed
  qed
qed

lemma update_service_rebuilt: "ensures (update_service env active all branch k w) (\<lambda>_ w'. rebuilt env active [k] w w')"
proof -
  have skip: "rebuilt env active [k] w (snd (skip k r w))" for r by (simp add: skip_def rebuilt_none)
  consider "fst k = DB_MODULE_NAME" | "fst k = NODE_MODULE_NAME" | "fst k \<noteq> DB_MODULE_NAME" "fst k \<noteq> NODE_MODULE_NAME" by blast
  then show ?thesis
  proof cases
    case 1 then show ?thesis using skip by (simp add: update_service_def Let_def)
  next
    case 2
    then have db: "fst k \<noteq> DB_MODULE_NAME" by (simp add: NODE_MODULE_NAME_def DB_MODULE_NAME_def)
    have "past_guards env active k None (uw_state w)" using 2 db by (simp add: past_guards_def)
    then have "ensures (attempt (installModule env k None w) (\<lambda>built w. (Inr (), recordInstallOutcome k built w))) (\<lambda>_ w'. rebuilt env active [k] w w')"
      by (rule ensures_weaken [OF install_rebuilt]) blast
    then show ?thesis using 2 db skip by (simp add: update_service_def Let_def)
  next
    case 3
    obtain x w1 where r: "rebuild_service env active all branch k w = (x, w1)" by fastforce
    note f = rebuild_service_rebuilt [OF 3(1), of env active all branch w, unfolded r ensures_result]
    show ?thesis
    proof (cases "truthy_text (ue_container env (uw_state w) k)")
      case None then show ?thesis using 3 skip by (simp add: update_service_def Let_def)
    next
      case (Some c)
      have "ensures (recordCredentialPartialOutcome env e k (Some c) w1) (\<lambda>_ w'. rebuilt env active [k] w w')" if "x = Inl e" for e
        using f that by (auto simp: recordCredentialPartialOutcome_def Let_def split: update_error.splits prod.splits)
      then show ?thesis using 3 Some r f by (cases x) (simp_all add: update_service_def Let_def)
    qed
  qed
qed

lemma rebuilt_cons: "rebuilt env active [k] w w' \<Longrightarrow> rebuilt env active (k # ks) w w'"
  unfolding rebuilt_def by (metis append_Cons append_Nil list_emb_append2 list_emb_append_mono list_emb_Nil append_Nil2)

lemma update_services_rebuilt: "ensures (update_services env active all branch ks w) (\<lambda>_ w'. rebuilt env active ks w w')"
proof (induction ks arbitrary: w)
  case Nil then show ?case by (simp add: rebuilt_none)
next
  case (Cons k ks)
  show ?case unfolding update_services.simps
  proof (rule ensures_attempt [OF update_service_rebuilt], goal_cases)
    case (1 e w1) then show ?case by (rule rebuilt_cons)
  next
    case (2 u w1)
    then have "rebuilt env active (k # ks) w w2" if "rebuilt env active ks w1 w2" for w2
      using rebuilt_append [of env active "[k]" w w1 ks w2] that by simp
    then show ?case by (rule ensures_weaken [OF Cons.IH])
  qed
qed

text \<open>The services of a run in the order it takes them: the shared ones first when it is for all.\<close>

definition run_order :: "services_list \<Rightarrow> bool \<Rightarrow> service list" where
  "run_order l all = list_services (if all then includeSharedServicesForUpdate l else l)"

lemma all_order: "\<exists>rest. run_order l True = (HUB_MODULE_NAME, [], []) # (SYNC_MODULE_NAME, [], []) # rest"
  by (simp add: run_order_def includeSharedServicesForUpdate_def list_services_def)

definition target_of_run :: "'s update_env \<Rightarrow> install_target option \<Rightarrow> bool" where
  "target_of_run env active = (active = None \<or> (\<exists>ref fb target. active = Some target
     \<and> resolveInstallTarget (ue_release env) (ue_default_branch env) fb ref = Inr target))"

lemma record_rebuilt: "rebuilt env active ks (record_target env t w) w' = rebuilt env active ks w w'"
  by (simp add: rebuilt_def record_target_def)

lemma with_target_rebuilt:
  "ensures (withInstallTarget env ref fb l all w) (\<lambda>_ w'. \<exists>active. target_of_run env active \<and> rebuilt env active (list_services l) w w')"
proof (cases "resolveInstallTarget (ue_release env) (ue_default_branch env) fb ref")
  case (Inl e) then show ?thesis by (auto simp: withInstallTarget_def target_of_run_def intro: rebuilt_none)
next
  case (Inr target)
  then have "target_of_run env (Some target)" by (auto simp: target_of_run_def)
  then show ?thesis unfolding withInstallTarget_def Inr sum.case Let_def
    by (intro ensures_weaken [OF update_services_rebuilt]) (auto simp: record_rebuilt)
qed

lemma branch_rebuilt:
  "ensures (update_branch env b l all w) (\<lambda>_ w'. \<exists>active. target_of_run env active \<and> rebuilt env active (list_services l) w w')"
  unfolding update_branch_def by (intro ensures_weaken [OF update_services_rebuilt]) (auto simp: record_rebuilt target_of_run_def)

lemma update_rebuilt:
  "ensures (updateModules env l ref all w) (\<lambda>_ w'. \<exists>active. target_of_run env active \<and> rebuilt env active (run_order l all) w w')"
proof -
  define L where "L = (if all then includeSharedServicesForUpdate l else l)"
  define W where "W = repairValidatorConfigBeforeHubUpdate env L w"
  let ?Q = "\<lambda>_ w'. \<exists>active. target_of_run env active \<and> rebuilt env active (run_order l all) w w'"
  have order: "run_order l all = list_services L" by (simp add: run_order_def L_def)
  have same: "rebuilt env active ks W w' = rebuilt env active ks w w'" for active ks w'
    by (simp add: rebuilt_def repairValidatorConfigBeforeHubUpdate_def W_def)
  have wt: "ensures (withInstallTarget env r fb L all W) ?Q" for r fb
    using with_target_rebuilt [of env r fb L all W] unfolding same order .
  have br: "ensures (update_branch env b L all W) ?Q" for b
    using branch_rebuilt [of env b L all W] unfolding same order .
  show ?thesis
  proof (cases "assertNodeDataDirSetForUpdate env L")
    case (Inl e)
    have "?Q (Inl e) w" by (intro exI [of _ None]) (simp add: target_of_run_def rebuilt_none)
    then show ?thesis using Inl by (simp add: updateModules_def Let_def L_def [symmetric])
  next
    case (Inr u)
    have code: "updateModules env l ref all w = (if isReleaseRef ref then withInstallTarget env ref True L all W
          else case truthy_text ref of
              Some b \<Rightarrow> update_branch env b L all W
            | None \<Rightarrow> (case truthy_text (ue_update_target env) of
                Some t \<Rightarrow> withInstallTarget env (Some t) False L all W
              | None \<Rightarrow> (case resolveUpdateTarget (uw_target W) (ue_checkouts env) of
                  (Branch, Some b) \<Rightarrow> update_branch env b L all W
                | _ \<Rightarrow> withInstallTarget env None False L all W)))"
      using Inr by (simp add: updateModules_def Let_def L_def [symmetric] W_def [symmetric])
    show ?thesis unfolding code using wt br by (simp split: option.split prod.split target_kind.split)
  qed
qed

text \<open>
  C26. Whatever ends an update, every service it rebuilt, the database never being one, had passed
  its guards at the state its rebuild started from, for the very ref the rebuild deploys: the hub
  satisfied the version the new source asks for and the migration guard let it through. Services
  are rebuilt once each in the order of the run, a run for all starting with the hub and the sync
  service, and each one reported as updated was rebuilt by this run.\<close>

theorem update_rebuilds_only_past_guards:
  assumes "updateModules env l ref all w = (x, w')"
  shows "\<exists>active new done_now. target_of_run env active
    \<and> uw_log w' = uw_log w @ new \<and> (\<forall>(k, b, s)\<in>set new. past_guards env active k b s)
    \<and> subseq (map fst new) (run_order l all)
    \<and> (all \<longrightarrow> take 2 (run_order l all) = [(HUB_MODULE_NAME, [], []), (SYNC_MODULE_NAME, [], [])])
    \<and> uw_updated w' = uw_updated w @ done_now \<and> subseq done_now (map fst new)"
proof -
  obtain active where a: "target_of_run env active" "rebuilt env active (run_order l all) w w'"
    using update_rebuilt [of env l ref all w] assms by auto
  have "all \<longrightarrow> take 2 (run_order l all) = [(HUB_MODULE_NAME, [], []), (SYNC_MODULE_NAME, [], [])]"
    using all_order [of l] by (auto simp: numeral_2_eq_2)
  then show ?thesis using a unfolding rebuilt_def by blast
qed

text \<open>A run for all on branch \<open>master\<close>: the hub moves from 2.9.0 to 2.10.1, which the new indexer
  needs; without that move the indexer would be refused.\<close>

definition demo_update_env :: "bool \<Rightarrow> bool update_env" where
  "demo_update_env hub_moves = \<lparr>ue_guard = demo_guard_env, ue_release = demo_release_env, ue_default_branch = ''master'', ue_data_dir = [],
     ue_update_target = None, ue_now = ''2026-10-01T00:00:00.000Z'', ue_write = True, ue_checkouts = [],
     ue_container = (\<lambda>_ k. if fst k = SYNC_MODULE_NAME then None else Some ''c1''),
     ue_hub = (\<lambda>moved. Some (Some (if moved then ''2.10.1'' else ''2.9.0''))), ue_db = (\<lambda>_ _. Some demo_db_run), ue_branch = (\<lambda>_ _. None),
     ue_current = (\<lambda>_ _. False), ue_repair = (\<lambda>s. s), ue_install = (\<lambda>s k b. (Inr True, s \<or> hub_moves \<and> fst k = HUB_MODULE_NAME))\<rparr>"

definition demo_services :: services_list where
  "demo_services = [([], [([], [HUB_MODULE_NAME])]), (''bitcoin'', [(''regtest'', [XCHAIN_INDEXER])])]"

definition demo_update_world :: "bool update_world" where
  "demo_update_world = \<lparr>uw_state = False, uw_target = None, uw_updated = [], uw_skipped = [], uw_failed = [], uw_log = []\<rparr>"

definition demo_update_run :: "bool \<Rightarrow> (update_error + unit) \<times> bool update_world" where
  "demo_update_run hub_moves = updateModules (demo_update_env hub_moves) demo_services (Some ''master'') True demo_update_world"

lemma demo_update_all_ends:
  "uw_updated (snd (demo_update_run True)) = [(HUB_MODULE_NAME, [], []), (XCHAIN_INDEXER, ''bitcoin'', ''regtest'')]"
  "uw_updated (snd (demo_update_run False)) = [(HUB_MODULE_NAME, [], [])]"
  "uw_failed (snd (demo_update_run False)) = [(XCHAIN_INDEXER, ''bitcoin'', ''regtest'')]"
  by code_simp+

lemma update_rebuilds_only_past_guards_witness:
  "\<exists>active new. (\<forall>(k, b, s)\<in>set new. past_guards (demo_update_env True) active k b s)
    \<and> subseq [(HUB_MODULE_NAME, [], []), (XCHAIN_INDEXER, ''bitcoin'', ''regtest'')] (map fst new)"
proof -
  have "demo_update_run True = (fst (demo_update_run True), snd (demo_update_run True))" by simp
  from update_rebuilds_only_past_guards [OF this [unfolded demo_update_run_def [of True]]]
  show ?thesis using demo_update_all_ends(1) unfolding demo_update_run_def [of True] by (auto simp: demo_update_world_def)
qed

end
