(* ===== verification/Spec2Isabelle.thy ===== *)
theory Spec2Isabelle
  imports Autoheal CommandLock HealthGate CoinConfig ContainerArgs StakeExit BootstrapRestore TrackerArchive RepublishLedger ArchiveNames Freshness Reset Updates
begin

text \<open>
  xchain-node is the command-line tool that installs and runs the XChain services of a host: the
  coin nodes, a MariaDB container, per chain an encoder, decoder, indexer and UTXO tracker, and
  the shared hub and explorer. It drives docker, git and MariaDB; its own logic decides what may
  be started, stopped, restored, published and broadcast. This library models that logic.

  Parts and how they interact. Every state-changing command takes the command lock. An install
  names its containers and databases, resolves the coin's configuration, claims host ports and
  builds container arguments, samples whether the store is empty, starts the container, and for an
  empty store downloads, verifies and restores a published bootstrap. A publisher passes the health
  gate, dumps or snapshots the store, writes archive and metadata, signs it and records the
  publish in the republish ledger. The watchdog restarts unhealthy containers on stop budgets.
  A validator's stake run reads the explorer, mints the shortfall and sends. A reset stops the
  services of a stack, wipes their stores, marks the archives stale and starts the services. An
  update resolves a release to a signed manifest and rebuilds each service, hub first, at the
  commit it pins, after the guards have read the new source.

  The shared vocabulary. JsPrelude: JavaScript values (numbers with NaN and infinities, JSON),
  strings, folds with errors. JsJson: number texts, splitting, JSON.parse. JsDate: calendar,
  Date.UTC, ISO texts. JsPretty: JSON.stringify with an indent. JsDouble and JsNumber: rounding to
  doubles, toFixed(8), Number. JsEffects: runs of fallible calls over a world, with try/finally,
  and the rules that verify them step by step.

  Theories and the code under src/src they model:
  Autoheal: services/autoheal_service.js and autoheal_service/: the watchdog's pass, its state
  file, backoff and probe log. A restart is justified by an unhealthy container outside its grace
  and backoff windows, there is no attempt cap, and the state file is read back.
  StatusGate, HealthGate: services/bootstrap_health_gate.js and its directory: the verdicts on
  status payloads, the SQL halt markers and their readings, the gate before and after a dump. The
  gate fails closed, and a published dump carries no halt marker.
  Naming: services/config_service/naming.js, utils/module_database_name.js, utils/sql_safety.js.
  Names identify modules and fit MariaDB's limits, and literals read back as what was quoted.
  CoinData, Coins, CoinText, CoinConfig: the coins/ directory: the coin files, resolution of a coin
  for a network, the canonical text and consensus hash, confirmation depths.
  CommandLock: utils/command_lock.js as a step relation at system-call granularity: exclusion
  while no lock goes stale under a live owner, the number of passes, and the windows left.
  StopBudget: services/stop_budget_service.js, services/node_service/node_stop.js and the stop of
  services/docker_service/: budgets, drain timers and how an outcome is reported.
  HostPorts, ContainerArgs: services/module_service/host_port_claim.js, docker_args.js,
  healthcheck_command.js, services/config_service/memory_limits.js: ports, flags, quoting, limits.
  StakeAmounts, StakeReads, StakeKey, StakePlan, StakeSend, StakeRun, StakeExit:
  services/validator_stake_service.js and its directory: amounts, paged reads, free keys, mint
  rules and plan, the runs with their locks, and the order of what is sent.
  ArchiveMeta, ArchiveNames, ArchiveSigning, TipGuard, BootstrapRestore, TrackerArchive,
  RepublishLedger: services/bootstrap_service.js and its directory, bootstrap_archive_meta.js,
  bootstrap_node_tip_guard.js, bootstrap_republish_ledger.js, encoder_maintenance_window.js: the
  life of a bootstrap archive from publish to restore.
  Freshness: services/module_service.js, node_service.js and bootstrap_service/freshness.js: which
  installs may replace a store.
  Reset: operations/module_operations/reset_modules.js and its helpers: the destructive reset from
  its refusals to the restart. Every end of it matches what it reports, and no store is wiped under
  a running service. One run is modelled over a world of services, stores and the ledger.
  Releases: services/release_manifest_service.js, release_signature_service.js and its directory,
  module_service/clone_and_refs.js, git_checkout.js: which manifest is trusted and which commit a
  pinned checkout leaves. The pin of the key is code; gpg's verdict is a hypothesis.
  UpdateGuards: services/skew_guard_service.js, migration_precondition_service.js and its
  directory: the hub version and the migrations a new source needs. They fail closed.
  Updates: operations/module_operations/update_modules.js, services/install_target_service.js: the
  update run; nothing is rebuilt past its guards.

  State and operations. A component's state is a record with the fields of the code's object, its
  operations functions of the code's names; a read of docker, a database, the file system or a
  server is a parameter (an environment record or a function of the call), and a hypothesis says
  what is relied on: that a statement prints what the tables hold, that docker says a thing is
  absent only when it is. An error is a value: None, Inl, or a constructor of the component's own.
  The locales (interfaces of folds, of lookups, of locks) are interpreted on the model's functions
  in the theory that provides them.

  Bounds and fuel. JSON.parse runs on twice the text's length plus one, more than its depth. A
  decimal fraction is expanded to 20 digits. Page loops end at the code's own ceilings of 1001 and
  201 pages, and the lock after MAX_ACQUIRE_ATTEMPTS passes. The amounts of a stake are exact below
  2^26 XCHAIN, above every balance of the token. Instants have four-digit years. Tar headers are
  512 bytes, at most three entries are skipped, and metadata is limited to 64 KiB, as in the code.

  Not modelled: terminal menus, logging and printed texts; the contents of external programs'
  work (git, docker builds, tar and dump streams, gpg); HTTP transport; the command-line parser,
  a package; SQL statements without logic of their own; maintainer scripts. Bytes are ASCII
  characters. The findings of the manifest name the lemmas that show them.
\<close>

end
